theory Spec2Isabelle
  imports Complex_Main "HOL-Library.Multiset"
begin

section \<open>Errors of the pipeline\<close>

text \<open>
  The script \<^verbatim>\<open>vgg_sift_lstm.py\<close> raises Python exceptions; the model returns them as
  values. The names follow the error taxonomy of the design document:
  numpy's \<^verbatim>\<open>ValueError\<close> on a shape mismatch is \<open>ShapeMismatch\<close>, scikit-learn's
  \<^verbatim>\<open>ValueError\<close> on an unusable fold count is \<open>InvalidFoldCount\<close>, a missing file
  (\<^verbatim>\<open>FileNotFoundError\<close>/\<^verbatim>\<open>OSError\<close>) is \<open>MissingArtifact\<close> with the path's name.
\<close>

datatype error =
    ShapeMismatch
  | InvalidFoldCount
  | MissingArtifact string
  | IndexError
  | FoldIndexError
  | EmptyArgmax
  | NotANumber
  | NameError

section \<open>Feature fusion (line 90)\<close>

text \<open>
  A three-dimensional numpy array: its shape \<open>(N, F, D)\<close> and its entries, sample by
  sample, frame by frame. The shape is kept explicitly, as numpy does, so that an
  array with no sample still has a frame count and a feature width.
\<close>

record 'a ndarray3 =
  shape :: "nat \<times> nat \<times> nat"
  data :: "'a list list list"

definition wf3 :: "'a ndarray3 \<Rightarrow> bool" where
  "wf3 t = (case shape t of (N, F, D) \<Rightarrow>
     length (data t) = N \<and>
     list_all (\<lambda>sample. length sample = F \<and> list_all (\<lambda>v. length v = D) sample) (data t))"

text \<open>
  \<^verbatim>\<open>np.concatenate([a, b], axis=2)\<close>: every dimension but the third must agree, otherwise
  numpy raises; the feature vectors of each frame are appended.
\<close>

definition concatenate_axis2 :: "'a ndarray3 \<Rightarrow> 'a ndarray3 \<Rightarrow> error + 'a ndarray3" where
  "concatenate_axis2 a b =
     (case (shape a, shape b) of ((N1, F1, D1), (N2, F2, D2)) \<Rightarrow>
        if N1 = N2 \<and> F1 = F2
        then Inr \<lparr>shape = (N1, F1, D1 + D2),
                  data = map2 (\<lambda>sa sb. map2 (\<lambda>va vb. va @ vb) sa sb) (data a) (data b)\<rparr>
        else Inl ShapeMismatch)"

text \<open>Line 90 of the script.\<close>

definition vgg_sift_features :: "'a ndarray3 \<Rightarrow> 'a ndarray3 \<Rightarrow> error + 'a ndarray3" where
  "vgg_sift_features vgg_features sift_features = concatenate_axis2 vgg_features sift_features"

section \<open>Fold partitioner (lines 133--137)\<close>

text \<open>
  \<^verbatim>\<open>StratifiedKFold(labels, n_folds, shuffle=False)\<close> is imported from scikit-learn's
  \<^verbatim>\<open>cross_validation\<close> module. The model follows the library's algorithm with shuffling
  off: every class is split by a plain \<^verbatim>\<open>KFold\<close> into \<open>n_folds\<close> contiguous blocks, the
  first \<open>n mod n_folds\<close> of them one sample longer, and a sample's test fold is the
  block its rank within its class falls into.
\<close>

definition fold_sizes :: "nat \<Rightarrow> nat \<Rightarrow> nat list" where
  "fold_sizes n n_folds =
     map (\<lambda>f. n div n_folds + (if f < n mod n_folds then 1 else 0)) [0..<n_folds]"

text \<open>The test fold of each of the \<open>n\<close> samples of a \<^verbatim>\<open>KFold(n, n_folds)\<close>, in order.\<close>

definition kfold_test_folds :: "nat \<Rightarrow> nat \<Rightarrow> nat list" where
  "kfold_test_folds n n_folds = concat (map2 replicate (fold_sizes n n_folds) [0..<n_folds])"

text \<open>
  A class of \<open>c\<close> samples is split with \<^verbatim>\<open>KFold(max(c, n_folds), n_folds)\<close> and the test
  splits are trimmed to the samples that exist.
\<close>

definition label_test_folds :: "nat \<Rightarrow> nat \<Rightarrow> nat list" where
  "label_test_folds c n_folds = take c (kfold_test_folds (max c n_folds) n_folds)"

text \<open>The rank of sample \<open>i\<close> within its class: how many earlier samples carry its label.\<close>

definition rank_in_class :: "nat list \<Rightarrow> nat \<Rightarrow> nat" where
  "rank_in_class labels i = count_list (take i labels) (labels ! i)"

definition test_folds :: "nat list \<Rightarrow> nat \<Rightarrow> nat list" where
  "test_folds labels n_folds =
     map (\<lambda>i. label_test_folds (count_list labels (labels ! i)) n_folds ! rank_in_class labels i)
       [0..<length labels]"

text \<open>
  The constructor raises when \<open>n_folds\<close> is below two, exceeds the number of samples, or
  exceeds the size of every class; a class smaller than \<open>n_folds\<close> only draws a warning.
  Iterating yields, for each fold in order, the train indices (test mask negated) and
  the test indices, both ascending.
\<close>

definition StratifiedKFold :: "nat list \<Rightarrow> nat \<Rightarrow> error + (nat list \<times> nat list) list" where
  "StratifiedKFold labels n_folds =
     (if n_folds \<le> 1 then Inl InvalidFoldCount
      else if n_folds > length labels then Inl InvalidFoldCount
      else if list_all (\<lambda>c. n_folds > count_list labels c) labels then Inl InvalidFoldCount
      else Inr (map (\<lambda>i. (filter (\<lambda>j. test_folds labels n_folds ! j \<noteq> i) [0..<length labels],
                           filter (\<lambda>j. test_folds labels n_folds ! j = i) [0..<length labels]))
                  [0..<n_folds]))"

text \<open>The size of the smallest class of a label vector (0 when there is no sample).\<close>

definition min_class_count :: "nat list \<Rightarrow> nat" where
  "min_class_count labels =
     (case labels of [] \<Rightarrow> 0 | l # ls \<Rightarrow> fold (\<lambda>c m. min (count_list labels c) m) ls (count_list labels l))"

section \<open>Evaluator (lines 131--146)\<close>

text \<open>
  \<^verbatim>\<open>np.argmax\<close> of a row: the index of the first maximal entry; numpy raises on an
  empty row.
\<close>

fun argmax_from :: "rat \<Rightarrow> nat \<Rightarrow> nat \<Rightarrow> rat list \<Rightarrow> nat" where
  "argmax_from best best_i i [] = best_i"
| "argmax_from best best_i i (x # xs) =
     (if best < x then argmax_from x i (Suc i) xs else argmax_from best best_i (Suc i) xs)"

fun argmax :: "rat list \<Rightarrow> error + nat" where
  "argmax [] = Inl EmptyArgmax"
| "argmax (x # xs) = Inr (argmax_from x 0 1 xs)"

text \<open>What the index returned stands for: the first position that holds the row's maximum.\<close>

definition is_argmax :: "rat list \<Rightarrow> nat \<Rightarrow> bool" where
  "is_argmax row c =
     (c < length row \<and> (\<forall>j<length row. row ! j \<le> row ! c) \<and> (\<forall>j<c. row ! j < row ! c))"

text \<open>\<^verbatim>\<open>np.argmax(y, axis=1)\<close>: row by row, the first error wins.\<close>

fun argmax_axis1 :: "rat list list \<Rightarrow> error + nat list" where
  "argmax_axis1 [] = Inr []"
| "argmax_axis1 (row # rows) =
     (case argmax row of
        Inl e \<Rightarrow> Inl e
      | Inr c \<Rightarrow> (case argmax_axis1 rows of Inl e \<Rightarrow> Inl e | Inr cs \<Rightarrow> Inr (c # cs)))"

text \<open>
  Indexing an array with a list of row indices (\<^verbatim>\<open>a[test_indices]\<close>); numpy raises
  \<^verbatim>\<open>IndexError\<close> on an index past the end.
\<close>

definition take_rows :: "'a list \<Rightarrow> nat list \<Rightarrow> error + 'a list" where
  "take_rows a idx =
     (if list_all (\<lambda>i. i < length a) idx then Inr (map (\<lambda>i. a ! i) idx) else Inl IndexError)"

record evaluation =
  test_idx :: "nat list list"
  test_indices :: "nat list"
  y_predict :: "nat list"
  y_true :: "nat list"

text \<open>
  Lines 131--142. The classifier's \<^verbatim>\<open>predict_classes\<close> gives one class index per
  sample passed in; \<open>lstm_sift\<close> is that function on one sample. The access
  \<^verbatim>\<open>test_idx[1]\<close> raises when the partition has fewer than two folds.
\<close>

definition predictions ::
  "('a list list \<Rightarrow> nat) \<Rightarrow> 'a ndarray3 \<Rightarrow> rat list list \<Rightarrow> error + evaluation" where
  "predictions lstm_sift features y =
     (case argmax_axis1 y of
        Inl e \<Rightarrow> Inl e
      | Inr labels \<Rightarrow>
     (case StratifiedKFold labels 5 of
        Inl e \<Rightarrow> Inl e
      | Inr skf \<Rightarrow>
     (let tests = map snd skf in
      if \<not> 1 < length tests then Inl FoldIndexError
      else
     (case take_rows (data features) (tests ! 1) of
        Inl e \<Rightarrow> Inl e
      | Inr xs \<Rightarrow>
     (case take_rows y (tests ! 1) of
        Inl e \<Rightarrow> Inl e
      | Inr ys \<Rightarrow>
     (case argmax_axis1 ys of
        Inl e \<Rightarrow> Inl e
      | Inr classes \<Rightarrow>
          Inr \<lparr>test_idx = tests, test_indices = tests ! 1,
               y_predict = map lstm_sift xs, y_true = classes\<rparr>))))))"

text \<open>
  Line 145: \<^verbatim>\<open>acc = (y_predict==y_true).sum()/len(y_predict)\<close>. The comparison is
  element by element; \<^verbatim>\<open>/\<close> is Python 3's true division of a numpy integer, modelled by
  the exact quotient (the rounding to a double is left out). With no prediction the
  quotient \<^verbatim>\<open>0/0\<close> is numpy's \<^verbatim>\<open>nan\<close>, which is no number.
\<close>

definition matches :: "nat list \<Rightarrow> nat list \<Rightarrow> nat" where
  "matches ps ts = length (filter (\<lambda>(p, t). p = t) (zip ps ts))"

definition acc :: "evaluation \<Rightarrow> error + rat" where
  "acc ev =
     (if length (y_predict ev) = 0 then Inl NotANumber
      else Inr (of_nat (matches (y_predict ev) (y_true ev)) / of_nat (length (y_predict ev))))"

definition evaluate ::
  "('a list list \<Rightarrow> nat) \<Rightarrow> 'a ndarray3 \<Rightarrow> rat list list \<Rightarrow> error + rat" where
  "evaluate lstm_sift features y =
     (case predictions lstm_sift features y of Inl e \<Rightarrow> Inl e | Inr ev \<Rightarrow> acc ev)"

section \<open>Sequence classifier factory (lines 20--39)\<close>

text \<open>
  The Keras objects the factory builds, by what the script passes to their constructors.
  \<^verbatim>\<open>LSTM(units, input_shape=...)\<close> keeps Keras's default \<^verbatim>\<open>return_sequences=False\<close>: the
  layer returns its last output only. \<^verbatim>\<open>optimizers.SGD()\<close> has the defaults of Keras:
  learning rate 0.01, no momentum, no decay, no Nesterov step.
\<close>

datatype activation = linear | relu | softmax

datatype layer =
    LSTM nat "nat \<times> nat"
  | Dropout rat
  | Dense nat activation

datatype loss_function = categorical_crossentropy

record SGD =
  lr :: rat
  momentum :: rat
  decay :: rat
  nesterov :: bool

definition SGD_defaults :: SGD where
  "SGD_defaults = \<lparr>lr = 1 / 100, momentum = 0, decay = 0, nesterov = False\<rparr>"

text \<open>
  Python objects have identity: two models share a layer exactly when they hold the
  same reference. The store is the list of objects allocated so far, a reference is a
  position in it, and a constructor call allocates at the end. A layer object owns its
  weight arrays and an optimizer object its state.
\<close>

type_synonym ref = nat

record Sequential =
  layers :: "ref list"
  loss :: "loss_function option"
  optimizer :: "ref option"
  metrics :: "string list"

datatype object =
    LayerObject layer
  | OptimizerObject SGD
  | ModelObject Sequential

type_synonym heap = "object list"

definition new :: "object \<Rightarrow> heap \<Rightarrow> ref \<times> heap" where
  "new obj h = (length h, h @ [obj])"

text \<open>\<^verbatim>\<open>model.add(layer)\<close> appends the layer to the model's stack, in place.\<close>

definition add :: "ref \<Rightarrow> ref \<Rightarrow> heap \<Rightarrow> heap" where
  "add m l h =
     (if m < length h
      then (case h ! m of
              ModelObject s \<Rightarrow> h[m := ModelObject (s\<lparr>layers := layers s @ [l]\<rparr>)]
            | _ \<Rightarrow> h)
      else h)"

text \<open>\<^verbatim>\<open>model.compile(loss=..., optimizer=..., metrics=...)\<close> stores its arguments in the model.\<close>

definition compile :: "ref \<Rightarrow> loss_function \<Rightarrow> ref \<Rightarrow> string list \<Rightarrow> heap \<Rightarrow> heap" where
  "compile m l opt ms h =
     (if m < length h
      then (case h ! m of
              ModelObject s \<Rightarrow>
                h[m := ModelObject (s\<lparr>loss := Some l, optimizer := Some opt, metrics := ms\<rparr>)]
            | _ \<Rightarrow> h)
      else h)"

text \<open>
  The factory. \<open>nb_frames\<close> and \<open>nb_emotions\<close> are globals imported from the module
  \<^verbatim>\<open>const\<close>, which is not among the sources; they are parameters here. The function of the
  script takes no argument: the input width is the literal 10624.
\<close>

definition create_lstm_sift_model :: "nat \<Rightarrow> nat \<Rightarrow> heap \<Rightarrow> ref \<times> heap" where
  "create_lstm_sift_model nb_frames nb_emotions h0 =
     (let lstm_units = 32;
          hidden_units = 16;
          input_dim = 10624;
          input_shape = (nb_frames, input_dim);
          (lstm, h1) = new (ModelObject \<lparr>layers = [], loss = None, optimizer = None, metrics = []\<rparr>) h0;
          (l1, h2) = new (LayerObject (LSTM lstm_units input_shape)) h1;
          h3 = add lstm l1 h2;
          (l2, h4) = new (LayerObject (Dropout (1 / 2))) h3;
          h5 = add lstm l2 h4;
          (l3, h6) = new (LayerObject (Dense hidden_units relu)) h5;
          h7 = add lstm l3 h6;
          (l4, h8) = new (LayerObject (Dropout (1 / 2))) h7;
          h9 = add lstm l4 h8;
          (l5, h10) = new (LayerObject (Dense nb_emotions softmax)) h9;
          h11 = add lstm l5 h10;
          (sgd, h12) = new (OptimizerObject SGD_defaults) h11;
          h13 = compile lstm categorical_crossentropy sgd [''accuracy''] h12
      in (lstm, h13))"

text \<open>Reading a model back from the store.\<close>

definition model_of :: "heap \<Rightarrow> ref \<Rightarrow> Sequential option" where
  "model_of h m =
     (if m < length h then (case h ! m of ModelObject s \<Rightarrow> Some s | _ \<Rightarrow> None) else None)"

definition layer_of :: "heap \<Rightarrow> ref \<Rightarrow> layer option" where
  "layer_of h l =
     (if l < length h then (case h ! l of LayerObject x \<Rightarrow> Some x | _ \<Rightarrow> None) else None)"

definition optimizer_of :: "heap \<Rightarrow> ref \<Rightarrow> SGD option" where
  "optimizer_of h r =
     (if r < length h then (case h ! r of OptimizerObject x \<Rightarrow> Some x | _ \<Rightarrow> None) else None)"

definition topology :: "heap \<Rightarrow> ref \<Rightarrow> layer option list" where
  "topology h m = (case model_of h m of None \<Rightarrow> [] | Some s \<Rightarrow> map (layer_of h) (layers s))"

text \<open>Every object a model reaches: itself, its layers, its optimizer.\<close>

definition model_refs :: "heap \<Rightarrow> ref \<Rightarrow> ref list" where
  "model_refs h m =
     (case model_of h m of
        None \<Rightarrow> [m]
      | Some s \<Rightarrow> m # layers s @ (case optimizer s of None \<Rightarrow> [] | Some r \<Rightarrow> [r]))"

text \<open>
  The shape a layer gives for an input shape: the recurrent layer turns \<open>F\<close> steps of
  features into one vector of its width, dropout keeps the shape, a dense layer
  replaces the last dimension by its width.
\<close>

fun output_shape :: "layer \<Rightarrow> nat list \<Rightarrow> nat list" where
  "output_shape (LSTM units input_shape) s = [units]"
| "output_shape (Dropout rate) s = s"
| "output_shape (Dense units a) s = butlast s @ [units]"

fun output_shapes :: "layer list \<Rightarrow> nat list \<Rightarrow> nat list list" where
  "output_shapes [] s = []"
| "output_shapes (l # ls) s = output_shape l s # output_shapes ls (output_shape l s)"

section \<open>Training callbacks (lines 103--110)\<close>

text \<open>
  What Keras reports at the end of an epoch, under the names of its log dictionary
  (\<^verbatim>\<open>loss\<close>, \<^verbatim>\<open>acc\<close>, \<^verbatim>\<open>val_loss\<close>, \<^verbatim>\<open>val_acc\<close>). The values are floating-point numbers in
  the program and rationals here; a non-finite loss is not modelled.
\<close>

record epoch_logs =
  train_loss :: rat
  train_acc :: rat
  val_loss :: rat
  val_acc :: rat

datatype quantity = Loss | Acc | ValLoss | ValAcc

fun monitored :: "quantity \<Rightarrow> epoch_logs \<Rightarrow> rat" where
  "monitored Loss logs = train_loss logs"
| "monitored Acc logs = train_acc logs"
| "monitored ValLoss logs = val_loss logs"
| "monitored ValAcc logs = val_acc logs"

text \<open>
  Keras's mode \<^verbatim>\<open>auto\<close>: a quantity whose name contains \<^verbatim>\<open>acc\<close> improves by growing, any
  other by shrinking. The best value so far is \<open>None\<close> before the first epoch (Keras
  starts from plus or minus infinity).
\<close>

fun grows :: "quantity \<Rightarrow> bool" where
  "grows Loss = False"
| "grows Acc = True"
| "grows ValLoss = False"
| "grows ValAcc = True"

fun monitor_op :: "quantity \<Rightarrow> rat \<Rightarrow> rat option \<Rightarrow> bool" where
  "monitor_op q current None = True"
| "monitor_op q current (Some best) = (if grows q then best < current else current < best)"

text \<open>
  \<^verbatim>\<open>EarlyStopping(patience=50)\<close>: the script gives the patience only, so the callback
  keeps Keras's defaults \<^verbatim>\<open>monitor='val_loss'\<close> and \<^verbatim>\<open>min_delta=0\<close>. At the start of
  every fit the callback resets its counter and its best value. At the end of an epoch
  an improvement resets the counter; otherwise the counter grows, and once it reaches
  the patience the callback asks the model to stop.
\<close>

record EarlyStopping =
  es_monitor :: quantity
  es_min_delta :: rat
  es_patience :: nat
  es_wait :: nat
  es_best :: "rat option"

definition EarlyStopping_patience :: "nat \<Rightarrow> EarlyStopping" where
  "EarlyStopping_patience patience =
     \<lparr>es_monitor = ValLoss, es_min_delta = 0, es_patience = patience, es_wait = 0, es_best = None\<rparr>"

text \<open>
  \<^verbatim>\<open>ModelCheckpoint(weights_path, monitor='val_acc', save_best_only=True,
  save_weights_only=True)\<close>. Its best value is set when the object is constructed and is
  not reset when a fit begins. At the end of an epoch, with \<^verbatim>\<open>save_best_only\<close>, the
  callback writes the file exactly when the monitored quantity improved on the best
  value; without it, after every epoch. Writing replaces the file.
\<close>

record ModelCheckpoint =
  mc_filepath :: string
  mc_monitor :: quantity
  mc_save_best_only :: bool
  mc_save_weights_only :: bool
  mc_best :: "rat option"

datatype 'w saved = WeightsFile 'w | ModelFile 'w

datatype callback =
    CustomVerbose nat
  | EarlyStop EarlyStopping
  | Checkpoint ModelCheckpoint

text \<open>
  The state a fit shares with its callbacks: the model's \<^verbatim>\<open>stop_training\<close> flag and the
  files written so far.
\<close>

record 'w fit_state =
  stop_training :: bool
  files :: "string \<rightharpoonup> 'w saved"

fun on_train_begin :: "callback \<Rightarrow> callback" where
  "on_train_begin (CustomVerbose epochs) = CustomVerbose epochs"
| "on_train_begin (EarlyStop es) = EarlyStop (es\<lparr>es_wait := 0, es_best := None\<rparr>)"
| "on_train_begin (Checkpoint mc) = Checkpoint mc"

text \<open>
  Modelled from the spec: \<^verbatim>\<open>CustomVerbose\<close> is defined in the module \<^verbatim>\<open>training\<close>, which is
  not among the sources. The design document describes it as progress reporting after
  every epoch, ``an observability side effect, not a control-flow dependency'': its
  hook leaves the state as it is.
\<close>

definition CustomVerbose_on_epoch_end :: "nat \<Rightarrow> epoch_logs \<Rightarrow> 'w fit_state \<Rightarrow> 'w fit_state" where
  "CustomVerbose_on_epoch_end epochs logs st = st"

text \<open>The hooks Keras calls at the end of an epoch, with the epoch's logs and weights.\<close>

fun on_epoch_end :: "epoch_logs \<Rightarrow> 'w \<Rightarrow> callback \<Rightarrow> 'w fit_state \<Rightarrow> callback \<times> 'w fit_state" where
  "on_epoch_end logs w (CustomVerbose epochs) st =
     (CustomVerbose epochs, CustomVerbose_on_epoch_end epochs logs st)"
| "on_epoch_end logs w (EarlyStop es) st =
     (let current = monitored (es_monitor es) logs;
          delta = (if grows (es_monitor es) then es_min_delta es else - es_min_delta es)
      in if monitor_op (es_monitor es) (current - delta) (es_best es)
         then (EarlyStop (es\<lparr>es_best := Some current, es_wait := 0\<rparr>), st)
         else (let wait = es_wait es + 1
               in (EarlyStop (es\<lparr>es_wait := wait\<rparr>),
                   if wait \<ge> es_patience es then st\<lparr>stop_training := True\<rparr> else st)))"
| "on_epoch_end logs w (Checkpoint mc) st =
     (let content = (if mc_save_weights_only mc then WeightsFile w else ModelFile w)
      in if mc_save_best_only mc
         then (let current = monitored (mc_monitor mc) logs
               in if monitor_op (mc_monitor mc) current (mc_best mc)
                  then (Checkpoint (mc\<lparr>mc_best := Some current\<rparr>),
                        st\<lparr>files := (files st)(mc_filepath mc \<mapsto> content)\<rparr>)
                  else (Checkpoint mc, st))
         else (Checkpoint mc, st\<lparr>files := (files st)(mc_filepath mc \<mapsto> content)\<rparr>))"

text \<open>Keras calls the hooks of the list in order.\<close>

fun callbacks_on_epoch_end ::
  "epoch_logs \<Rightarrow> 'w \<Rightarrow> callback list \<Rightarrow> 'w fit_state \<Rightarrow> callback list \<times> 'w fit_state" where
  "callbacks_on_epoch_end logs w [] st = ([], st)"
| "callbacks_on_epoch_end logs w (cb # cbs) st =
     (case on_epoch_end logs w cb st of
        (cb', st') \<Rightarrow>
          (case callbacks_on_epoch_end logs w cbs st' of (cbs', st'') \<Rightarrow> (cb' # cbs', st'')))"

section \<open>Fitting one fold\<close>

text \<open>
  \<^verbatim>\<open>model.fit(..., epochs=epochs, callbacks=callbacks)\<close>: the flag \<^verbatim>\<open>stop_training\<close> is
  cleared, the callbacks are told that training begins, and then for each of the
  \<open>epochs\<close> epochs the model is trained, the hooks run, and the loop ends early when a
  hook has set the flag. What an epoch of training yields (its logs and the weights it
  leaves) is a parameter: \<open>outcome e\<close> for epoch \<open>e\<close>. The result is the callbacks with
  their new state, the shared state and the history of logs.
\<close>

fun fit_loop ::
  "(nat \<Rightarrow> epoch_logs \<times> 'w) \<Rightarrow> nat \<Rightarrow> nat \<Rightarrow> callback list \<Rightarrow> 'w fit_state \<Rightarrow> epoch_logs list
     \<Rightarrow> callback list \<times> 'w fit_state \<times> epoch_logs list" where
  "fit_loop outcome 0 epoch cbs st history = (cbs, st, history)"
| "fit_loop outcome (Suc remaining) epoch cbs st history =
     (case callbacks_on_epoch_end (fst (outcome epoch)) (snd (outcome epoch)) cbs st of
        (cbs', st') \<Rightarrow>
          if stop_training st' then (cbs', st', history @ [fst (outcome epoch)])
          else fit_loop outcome remaining (Suc epoch) cbs' st' (history @ [fst (outcome epoch)]))"

definition fit ::
  "(nat \<Rightarrow> epoch_logs \<times> 'w) \<Rightarrow> nat \<Rightarrow> callback list \<Rightarrow> (string \<rightharpoonup> 'w saved)
     \<Rightarrow> callback list \<times> 'w fit_state \<times> epoch_logs list" where
  "fit outcome epochs cbs fl =
     fit_loop outcome epochs 0 (map on_train_begin cbs) \<lparr>stop_training = False, files = fl\<rparr> []"

section \<open>Cross-validation training (lines 95--120)\<close>

text \<open>
  Modelled from the spec: \<^verbatim>\<open>train_crossval\<close> is defined in the module \<^verbatim>\<open>training\<close>, which
  is not among the sources. Section 4.4 of the design document: obtain a fold partition
  for the labels with \<open>n_folds\<close> folds; for each fold in order, build a fresh classifier,
  fit it for up to \<open>epochs\<close> epochs with the callbacks (early stopping, and checkpointing
  to \<open>weights_path\<close> when \<open>save_best_model\<close> is set), and record its history; return the
  histories and the partition. The callback objects are the ones the script passes in,
  the same for every fold; the persisting of step 4 is the work of the checkpoint
  callback, which the script puts in the list exactly when \<open>save_best_model\<close> is set.
  \<open>outcome f e\<close> is what epoch \<open>e\<close> of fold \<open>f\<close> yields.
\<close>

fun train_folds ::
  "(nat \<Rightarrow> nat \<Rightarrow> epoch_logs \<times> 'w) \<Rightarrow> nat \<Rightarrow> nat list \<Rightarrow> callback list
     \<Rightarrow> (string \<rightharpoonup> 'w saved) \<Rightarrow> epoch_logs list list
     \<Rightarrow> callback list \<times> (string \<rightharpoonup> 'w saved) \<times> epoch_logs list list" where
  "train_folds outcome epochs [] cbs fl histories = (cbs, fl, histories)"
| "train_folds outcome epochs (f # fs) cbs fl histories =
     (case fit (outcome f) epochs cbs fl of
        (cbs', st, history) \<Rightarrow>
          train_folds outcome epochs fs cbs' (files st) (histories @ [history]))"

definition train_crossval ::
  "(nat \<Rightarrow> nat \<Rightarrow> epoch_logs \<times> 'w) \<Rightarrow> rat list list \<Rightarrow> nat \<Rightarrow> nat \<Rightarrow> callback list \<Rightarrow> nat
     \<Rightarrow> bool \<Rightarrow> string \<Rightarrow> (string \<rightharpoonup> 'w saved)
     \<Rightarrow> error + ((nat list \<times> nat list) list \<times> epoch_logs list list \<times> (string \<rightharpoonup> 'w saved))" where
  "train_crossval outcome y batch_size epochs cbs n_folds save_best weights_path fl =
     (case argmax_axis1 y of
        Inl e \<Rightarrow> Inl e
      | Inr labels \<Rightarrow>
     (case StratifiedKFold labels n_folds of
        Inl e \<Rightarrow> Inl e
      | Inr skf \<Rightarrow>
          (case train_folds outcome epochs [0..<length skf] cbs fl [] of
             (cbs', fl', histories) \<Rightarrow> Inr (skf, histories, fl'))))"

text \<open>
  Lines 97--120 of the script, with the flag of line 100 as a parameter; the script
  itself sets it to \<open>False\<close>.
\<close>

definition weights_path :: string where
  "weights_path = ''models/vgg-sift-lstm2.h5''"

definition callbacks :: "bool \<Rightarrow> callback list" where
  "callbacks save_best_model =
     (let epochs = 300;
          custom_verbose = CustomVerbose epochs;
          early_stop = EarlyStop (EarlyStopping_patience 50);
          model_checkpoint = Checkpoint \<lparr>mc_filepath = weights_path, mc_monitor = ValAcc,
                                         mc_save_best_only = True, mc_save_weights_only = True,
                                         mc_best = None\<rparr>
      in if save_best_model then [custom_verbose, early_stop, model_checkpoint]
         else [custom_verbose, early_stop])"

definition training ::
  "bool \<Rightarrow> (nat \<Rightarrow> nat \<Rightarrow> epoch_logs \<times> 'w) \<Rightarrow> rat list list \<Rightarrow> (string \<rightharpoonup> 'w saved)
     \<Rightarrow> error + ((nat list \<times> nat list) list \<times> epoch_logs list list \<times> (string \<rightharpoonup> 'w saved))" where
  "training save_best_model outcome y fl =
     (let batch_size = 32; epochs = 300; n_folds = 5
      in train_crossval outcome y batch_size epochs (callbacks save_best_model) n_folds
           save_best_model weights_path fl)"

definition save_best_model :: bool where
  "save_best_model = False"

section \<open>Improvement of a monitored sequence\<close>

text \<open>
  For a sequence \<open>v\<close> of values, one per epoch, that improves by shrinking (a loss): the
  best value before epoch \<open>e\<close>, whether epoch \<open>e\<close> fails to improve on it, and the number
  of consecutive epochs without improvement that end just before epoch \<open>e\<close>.
\<close>

fun best_before :: "(nat \<Rightarrow> rat) \<Rightarrow> nat \<Rightarrow> rat option" where
  "best_before v 0 = None"
| "best_before v (Suc e) =
     (case best_before v e of
        None \<Rightarrow> Some (v e)
      | Some b \<Rightarrow> Some (if v e < b then v e else b))"

definition no_improvement :: "(nat \<Rightarrow> rat) \<Rightarrow> nat \<Rightarrow> bool" where
  "no_improvement v e = (case best_before v e of None \<Rightarrow> False | Some b \<Rightarrow> \<not> v e < b)"

fun stall_count :: "(nat \<Rightarrow> rat) \<Rightarrow> nat \<Rightarrow> nat" where
  "stall_count v 0 = 0"
| "stall_count v (Suc e) = (if no_improvement v e then Suc (stall_count v e) else 0)"

text \<open>The early-stopping callbacks of a list, and what one epoch does to each.\<close>

fun early_of :: "callback list \<Rightarrow> EarlyStopping list" where
  "early_of [] = []"
| "early_of (EarlyStop es # cbs) = es # early_of cbs"
| "early_of (cb # cbs) = early_of cbs"

fun checkpoints_of :: "callback list \<Rightarrow> ModelCheckpoint list" where
  "checkpoints_of [] = []"
| "checkpoints_of (Checkpoint mc # cbs) = mc # checkpoints_of cbs"
| "checkpoints_of (cb # cbs) = checkpoints_of cbs"

text \<open>The validation losses and accuracies of a fold's epochs.\<close>

definition val_losses :: "(nat \<Rightarrow> epoch_logs \<times> 'w) \<Rightarrow> nat \<Rightarrow> rat" where
  "val_losses outcome e = val_loss (fst (outcome e))"

definition val_accs :: "(nat \<Rightarrow> epoch_logs \<times> 'w) \<Rightarrow> nat \<Rightarrow> rat" where
  "val_accs outcome e = val_acc (fst (outcome e))"

definition epochs_run :: "callback list \<times> 'w fit_state \<times> epoch_logs list \<Rightarrow> nat" where
  "epochs_run result = length (snd (snd result))"

text \<open>The effect of one epoch on an early-stopping callback, taken apart.\<close>

definition es_improved :: "epoch_logs \<Rightarrow> EarlyStopping \<Rightarrow> bool" where
  "es_improved logs es =
     monitor_op (es_monitor es)
       (monitored (es_monitor es) logs
          - (if grows (es_monitor es) then es_min_delta es else - es_min_delta es))
       (es_best es)"

definition es_step :: "epoch_logs \<Rightarrow> EarlyStopping \<Rightarrow> EarlyStopping" where
  "es_step logs es =
     (if es_improved logs es
      then es\<lparr>es_best := Some (monitored (es_monitor es) logs), es_wait := 0\<rparr>
      else es\<lparr>es_wait := es_wait es + 1\<rparr>)"

definition es_fires :: "epoch_logs \<Rightarrow> EarlyStopping \<Rightarrow> bool" where
  "es_fires logs es = (\<not> es_improved logs es \<and> es_patience es \<le> es_wait es + 1)"

text \<open>The effect of one epoch on a checkpoint callback and on the files, taken apart.\<close>

definition mc_saves :: "epoch_logs \<Rightarrow> ModelCheckpoint \<Rightarrow> bool" where
  "mc_saves logs mc =
     (mc_save_best_only mc \<longrightarrow> monitor_op (mc_monitor mc) (monitored (mc_monitor mc) logs) (mc_best mc))"

definition mc_step :: "epoch_logs \<Rightarrow> ModelCheckpoint \<Rightarrow> ModelCheckpoint" where
  "mc_step logs mc =
     (if mc_save_best_only mc \<and> mc_saves logs mc
      then mc\<lparr>mc_best := Some (monitored (mc_monitor mc) logs)\<rparr> else mc)"

definition mc_write ::
  "epoch_logs \<Rightarrow> 'w \<Rightarrow> ModelCheckpoint \<Rightarrow> (string \<rightharpoonup> 'w saved) \<Rightarrow> (string \<rightharpoonup> 'w saved)" where
  "mc_write logs w mc fl =
     (if mc_saves logs mc
      then fl(mc_filepath mc \<mapsto> (if mc_save_weights_only mc then WeightsFile w else ModelFile w))
      else fl)"

section \<open>The best epoch of a run\<close>

text \<open>
  For a list of epochs, each with its validation accuracy and the weights it left: the
  first epoch whose accuracy is the highest of the list, found from left to right as
  the checkpoint callback does (a later epoch replaces the best one only when its
  accuracy is strictly higher).
\<close>

fun best_from :: "(rat \<times> 'w) option \<Rightarrow> (rat \<times> 'w) list \<Rightarrow> (rat \<times> 'w) option" where
  "best_from b [] = b"
| "best_from b (x # xs) =
     best_from (case b of None \<Rightarrow> Some x | Some y \<Rightarrow> if fst y < fst x then Some x else Some y) xs"

definition best_seen :: "(rat \<times> 'w) list \<Rightarrow> (rat \<times> 'w) option" where
  "best_seen xs = best_from None xs"

text \<open>The files after a checkpointed run that saw the epochs \<open>xs\<close>, starting from \<open>fl\<close>.\<close>

definition checkpointed :: "(string \<rightharpoonup> 'w saved) \<Rightarrow> (rat \<times> 'w) list \<Rightarrow> (string \<rightharpoonup> 'w saved)" where
  "checkpointed fl xs =
     (case best_seen xs of None \<Rightarrow> fl | Some x \<Rightarrow> fl(weights_path \<mapsto> WeightsFile (snd x)))"

text \<open>
  The epochs a fit ran, given how many it ran: validation accuracy and weights of each.
  The epochs of a cross-validation, fold after fold, given the folds' histories.
\<close>

definition epochs_of :: "(nat \<Rightarrow> epoch_logs \<times> 'w) \<Rightarrow> nat \<Rightarrow> nat \<Rightarrow> (rat \<times> 'w) list" where
  "epochs_of outcome e n = map (\<lambda>i. (val_acc (fst (outcome i)), snd (outcome i))) [e..<n]"

definition executed ::
  "(nat \<Rightarrow> nat \<Rightarrow> epoch_logs \<times> 'w) \<Rightarrow> nat list \<Rightarrow> epoch_logs list list \<Rightarrow> (rat \<times> 'w) list" where
  "executed outcome fs histories =
     concat (map2 (\<lambda>f history. epochs_of (outcome f) 0 (length history)) fs histories)"

text \<open>
  A callback list set up as the script's: exactly one early-stopping callback, watching
  the validation loss with no minimal change and a patience of 50 epochs.
\<close>

definition early_configured :: "callback list \<Rightarrow> bool" where
  "early_configured cbs =
     (case early_of cbs of
        [es] \<Rightarrow> es_monitor es = ValLoss \<and> es_min_delta es = 0 \<and> es_patience es = 50
      | _ \<Rightarrow> False)"

text \<open>
  A checkpoint callback set up as the script's whose best value and file agree with the
  epochs \<open>seen\<close> so far, in a run that started from the files \<open>fl0\<close>.
\<close>

definition checkpoint_tracks ::
  "callback list \<Rightarrow> (string \<rightharpoonup> 'w saved) \<Rightarrow> (string \<rightharpoonup> 'w saved) \<Rightarrow> (rat \<times> 'w) list \<Rightarrow> bool" where
  "checkpoint_tracks cbs fl0 fl seen =
     (case checkpoints_of cbs of
        [mc] \<Rightarrow> mc_filepath mc = weights_path \<and> mc_monitor mc = ValAcc \<and>
                mc_save_best_only mc \<and> mc_save_weights_only mc \<and>
                mc_best mc = map_option fst (best_seen seen) \<and>
                fl = checkpointed fl0 seen
      | _ \<Rightarrow> False)"

section \<open>Loading the artifacts (lines 47--90 and 95--126)\<close>

text \<open>
  The files the script looks for, each named after the path constant of the script
  (the constants come from the module \<^verbatim>\<open>const\<close>): \<open>None\<close> when the file or directory is
  absent, its content otherwise.
\<close>

record ('fr, 'a, 'm) filesystem =
  frames_path :: "'fr option"
  vgg_features_path :: "'a ndarray3 option"
  sift_features_path :: "'a ndarray3 option"
  y_data_path :: "rat list list option"
  vgg_sift_lstm_model_path :: "'m option"

text \<open>
  The extraction functions are imported from the modules \<^verbatim>\<open>extract\<close>, \<^verbatim>\<open>training\<close> and
  \<^verbatim>\<open>sift\<close>, which are not among the sources; they are parameters. \<open>extract_frames\<close> is
  what extracting the raw dataset leaves in the frames directory;
  \<open>extract_model_features\<close> stands for \<^verbatim>\<open>extract_model_features(create_vgg_fc7(...), x)\<close>.
\<close>

record ('fr, 'x, 'a) extractors =
  extract_frames :: "'fr"
  extract_data :: "'fr \<Rightarrow> 'x \<times> rat list list"
  extract_model_features :: "'x \<Rightarrow> 'a ndarray3"
  extract_all_sift_features :: "'x \<Rightarrow> 'a ndarray3"

text \<open>What a run did, in order.\<close>

datatype step =
    ExtractFrames
  | ExtractData
  | LoadLabels
  | LoadVGGFeatures
  | ExtractVGGFeatures
  | LoadSIFTFeatures
  | ExtractSIFTFeatures
  | TrainCrossval
  | LoadModel

datatype 'm classifier = Trained | Loaded 'm

record ('a, 'm) run =
  run_y :: "rat list list"
  run_vgg_features :: "'a ndarray3"
  run_sift_features :: "'a ndarray3"
  run_vgg_sift_features :: "'a ndarray3"
  run_lstm_sift :: "'m classifier"

text \<open>
  Lines 49--67. The three flags are read once, before anything is extracted. The
  samples \<open>x\<close> exist only when \<^verbatim>\<open>extract_data\<close> ran; when both feature files are
  present the labels are read from \<^verbatim>\<open>y_data_path\<close>, and \<^verbatim>\<open>open\<close> raises when that file is
  missing.
\<close>

definition load_samples ::
  "('fr, 'a, 'm) filesystem \<Rightarrow> ('fr, 'x, 'a) extractors
     \<Rightarrow> step list \<times> (error + ('x option \<times> rat list list))" where
  "load_samples fs ex =
     (let load_vgg_features = (vgg_features_path fs \<noteq> None);
          load_sift_features = (sift_features_path fs \<noteq> None);
          (steps, frames) =
            (case frames_path fs of
               None \<Rightarrow> ([ExtractFrames], extract_frames ex)
             | Some frames \<Rightarrow> ([], frames))
      in if \<not> (load_sift_features \<and> load_vgg_features)
         then (case extract_data ex frames of (x, y) \<Rightarrow> (steps @ [ExtractData], Inr (Some x, y)))
         else (case y_data_path fs of
                 None \<Rightarrow> (steps, Inl (MissingArtifact ''y_data_path''))
               | Some y \<Rightarrow> (steps @ [LoadLabels], Inr (None, y))))"

text \<open>
  Lines 70--87: a feature file that is present is loaded; otherwise the features are
  extracted from \<open>x\<close>. Reading \<open>x\<close> when it was never assigned would be a
  \<^verbatim>\<open>NameError\<close>.
\<close>

definition load_features ::
  "('a ndarray3 option) \<Rightarrow> ('x \<Rightarrow> 'a ndarray3) \<Rightarrow> step \<Rightarrow> step \<Rightarrow> 'x option
     \<Rightarrow> step list \<times> (error + 'a ndarray3)" where
  "load_features file extract load_step extract_step x =
     (case file of
        Some features \<Rightarrow> ([load_step], Inr features)
      | None \<Rightarrow>
          (case x of
             None \<Rightarrow> ([], Inl NameError)
           | Some samples \<Rightarrow> ([extract_step], Inr (extract samples))))"

text \<open>
  Lines 95--126: the training path runs exactly when the script was called with the
  argument \<^verbatim>\<open>train\<close>, and an exception of the cross-validation ends the run; otherwise
  \<^verbatim>\<open>load_model\<close> reads the persisted classifier and raises when the file is missing.
  \<open>outcome\<close> is what the epochs of the folds yield and \<open>fl\<close> the weight files before the
  run.
\<close>

definition obtain_classifier ::
  "bool \<Rightarrow> ('fr, 'a, 'm) filesystem \<Rightarrow> (nat \<Rightarrow> nat \<Rightarrow> epoch_logs \<times> 'w) \<Rightarrow> rat list list
     \<Rightarrow> (string \<rightharpoonup> 'w saved) \<Rightarrow> step list \<times> (error + 'm classifier)" where
  "obtain_classifier train fs outcome y fl =
     (if train
      then (case training save_best_model outcome y fl of
              Inl e \<Rightarrow> ([TrainCrossval], Inl e)
            | Inr trained \<Rightarrow> ([TrainCrossval], Inr Trained))
      else (case vgg_sift_lstm_model_path fs of
              None \<Rightarrow> ([], Inl (MissingArtifact ''vgg_sift_lstm_model_path''))
            | Some m \<Rightarrow> ([LoadModel], Inr (Loaded m))))"

text \<open>
  Lines 49--90: the samples or the cached labels, the two feature arrays and their
  fusion; the first exception ends the run.
\<close>

definition load_data ::
  "('fr, 'a, 'm) filesystem \<Rightarrow> ('fr, 'x, 'a) extractors
     \<Rightarrow> step list \<times> (error + (rat list list \<times> 'a ndarray3 \<times> 'a ndarray3 \<times> 'a ndarray3))" where
  "load_data fs ex =
     (case load_samples fs ex of
        (s1, Inl e) \<Rightarrow> (s1, Inl e)
      | (s1, Inr (x, y)) \<Rightarrow>
     (case load_features (vgg_features_path fs) (extract_model_features ex)
             LoadVGGFeatures ExtractVGGFeatures x of
        (s2, Inl e) \<Rightarrow> (s1 @ s2, Inl e)
      | (s2, Inr vgg) \<Rightarrow>
     (case load_features (sift_features_path fs) (extract_all_sift_features ex)
             LoadSIFTFeatures ExtractSIFTFeatures x of
        (s3, Inl e) \<Rightarrow> (s1 @ s2 @ s3, Inl e)
      | (s3, Inr sift) \<Rightarrow>
     (case vgg_sift_features vgg sift of
        Inl e \<Rightarrow> (s1 @ s2 @ s3, Inl e)
      | Inr fused \<Rightarrow> (s1 @ s2 @ s3, Inr (y, vgg, sift, fused))))))"

text \<open>The script up to line 126; the first exception ends the run.\<close>

definition main ::
  "bool \<Rightarrow> ('fr, 'a, 'm) filesystem \<Rightarrow> ('fr, 'x, 'a) extractors
     \<Rightarrow> (nat \<Rightarrow> nat \<Rightarrow> epoch_logs \<times> 'w) \<Rightarrow> (string \<rightharpoonup> 'w saved)
     \<Rightarrow> step list \<times> (error + ('a, 'm) run)" where
  "main train fs ex outcome fl =
     (case load_data fs ex of
        (s, Inl e) \<Rightarrow> (s, Inl e)
      | (s, Inr (y, vgg, sift, fused)) \<Rightarrow>
     (case obtain_classifier train fs outcome y fl of
        (s4, Inl e) \<Rightarrow> (s @ s4, Inl e)
      | (s4, Inr m) \<Rightarrow>
          (s @ s4,
           Inr \<lparr>run_y = y, run_vgg_features = vgg, run_sift_features = sift,
                run_vgg_sift_features = fused, run_lstm_sift = m\<rparr>)))"

text \<open>The frames \<^verbatim>\<open>extract_data\<close> reads: those cached, or those just extracted.\<close>

definition frames_of :: "('fr, 'a, 'm) filesystem \<Rightarrow> ('fr, 'x, 'a) extractors \<Rightarrow> 'fr" where
  "frames_of fs ex = (case frames_path fs of None \<Rightarrow> extract_frames ex | Some frames \<Rightarrow> frames)"

section \<open>Example inputs\<close>

definition zeros :: "nat \<Rightarrow> nat \<Rightarrow> nat \<Rightarrow> int ndarray3" where
  "zeros N F D = \<lparr>shape = (N, F, D), data = replicate N (replicate F (replicate D 0))\<rparr>"

text \<open>
  Ten one-frame samples, five of class 0 followed by five of class 1, and a classifier
  that answers class 0 for every sample.
\<close>

definition example_features :: "int ndarray3" where
  "example_features = \<lparr>shape = (10, 1, 1), data = replicate 10 [[0]]\<rparr>"

definition example_y :: "rat list list" where
  "example_y = replicate 5 [1, 0] @ replicate 5 [0, 1]"

definition always_class0 :: "int list list \<Rightarrow> nat" where
  "always_class0 sample = 0"

text \<open>
  A file system where the frames, both feature files and the labels are cached but the
  persisted classifier is missing, and extractors that return one-entry arrays.
\<close>

definition cached_without_model :: "(unit, int, unit) filesystem" where
  "cached_without_model =
     \<lparr>frames_path = Some (), vgg_features_path = Some (zeros 1 1 1),
      sift_features_path = Some (zeros 1 1 1), y_data_path = Some example_y,
      vgg_sift_lstm_model_path = None\<rparr>"

definition raw_only :: "(unit, int, unit) filesystem" where
  "raw_only =
     \<lparr>frames_path = None, vgg_features_path = None, sift_features_path = None,
      y_data_path = None, vgg_sift_lstm_model_path = Some ()\<rparr>"

definition unit_samples :: "unit \<Rightarrow> unit \<times> rat list list" where
  "unit_samples frames = ((), example_y)"

definition unit_features :: "unit \<Rightarrow> int ndarray3" where
  "unit_features x = zeros 1 1 2"

definition example_extractors :: "(unit, unit, int) extractors" where
  "example_extractors =
     \<lparr>extract_frames = (), extract_data = unit_samples,
      extract_model_features = unit_features, extract_all_sift_features = unit_features\<rparr>"

text \<open>
  A fold whose validation accuracy stays at one half for ever while its validation loss
  shrinks at every epoch, and one whose validation loss stays at one while its
  validation accuracy grows at every epoch.
\<close>

definition stalled_accuracy :: "nat \<Rightarrow> epoch_logs \<times> unit" where
  "stalled_accuracy e =
     (\<lparr>train_loss = 1 / (of_nat e + 1), train_acc = 1 / 2,
       val_loss = 1 / (of_nat e + 1), val_acc = 1 / 2\<rparr>, ())"

definition stalled_loss :: "nat \<Rightarrow> epoch_logs \<times> unit" where
  "stalled_loss e =
     (\<lparr>train_loss = 1, train_acc = 1 - 1 / (of_nat e + 1),
       val_loss = 1, val_acc = 1 - 1 / (of_nat e + 1)\<rparr>, ())"

definition no_files :: "string \<rightharpoonup> unit saved" where
  "no_files = Map.empty"

text \<open>A cross-validation in which every fold behaves like \<open>stalled_loss\<close>.\<close>

definition every_fold_stalled :: "nat \<Rightarrow> nat \<Rightarrow> epoch_logs \<times> unit" where
  "every_fold_stalled f e = stalled_loss e"

text \<open>Files with a checkpoint already at \<open>weights_path\<close>.\<close>

definition with_checkpoint :: "string \<rightharpoonup> unit saved" where
  "with_checkpoint = [weights_path \<mapsto> WeightsFile ()]"

text \<open>
  File systems where both feature files are cached: one with the labels and the
  classifier as well, one without the labels file.
\<close>

definition all_cached :: "(unit, int, unit) filesystem" where
  "all_cached =
     \<lparr>frames_path = Some (), vgg_features_path = Some (zeros 1 1 1),
      sift_features_path = Some (zeros 1 1 1), y_data_path = Some example_y,
      vgg_sift_lstm_model_path = Some ()\<rparr>"

definition cached_without_labels :: "(unit, int, unit) filesystem" where
  "cached_without_labels =
     \<lparr>frames_path = Some (), vgg_features_path = Some (zeros 1 1 1),
      sift_features_path = Some (zeros 1 1 1), y_data_path = None,
      vgg_sift_lstm_model_path = Some ()\<rparr>"

section \<open>Properties\<close>

lemma wf3_length:
  assumes "wf3 t" "shape t = (N, F, D)"
  shows "length (data t) = N"
    and "n < N \<Longrightarrow> length (data t ! n) = F"
    and "n < N \<Longrightarrow> f < F \<Longrightarrow> length (data t ! n ! f) = D"
proof -
  show len: "length (data t) = N" using assms by (simp add: wf3_def)
  have rows: "\<forall>sample\<in>set (data t). length sample = F \<and> (\<forall>v\<in>set sample. length v = D)"
    using assms by (simp add: wf3_def list_all_iff)
  { assume n: "n < N"
    then have mem: "data t ! n \<in> set (data t)" using len by simp
    with rows show "length (data t ! n) = F" by blast
    assume "f < F"
    with mem rows show "length (data t ! n ! f) = D" by (metis nth_mem) }
qed

lemma wf3_concatenate:
  assumes "wf3 a" "wf3 b" "shape a = (N, F, D1)" "shape b = (N, F, D2)"
  shows "wf3 \<lparr>shape = (N, F, D1 + D2),
              data = map2 (\<lambda>sa sb. map2 (\<lambda>va vb. va @ vb) sa sb) (data a) (data b)\<rparr>"
  using wf3_length[OF assms(1,3)] wf3_length[OF assms(2,4)]
  by (auto simp: wf3_def list_all_length)

lemma data_concatenate:
  assumes "wf3 a" "wf3 b" "shape a = (N, F, D1)" "shape b = (N, F, D2)" "n < N" "f < F"
  shows "map2 (\<lambda>sa sb. map2 (\<lambda>va vb. va @ vb) sa sb) (data a) (data b) ! n ! f
           = data a ! n ! f @ data b ! n ! f"
  using wf3_length[OF assms(1,3)] wf3_length[OF assms(2,4)] assms(5,6)
  by simp

text \<open>
  Claim C6. Fusing two well-formed feature arrays of shapes \<open>(N, F, D1)\<close> and
  \<open>(N, F, D2)\<close> succeeds with an array of shape \<open>(N, F, D1 + D2)\<close> whose every frame
  holds the first array's features followed by the second's; when the sample counts or
  the frame counts differ the fusion fails with \<open>ShapeMismatch\<close>. The fusion is a
  function of its two arguments and touches nothing else.
\<close>

theorem feature_fusion_shape:
  assumes "wf3 a" "wf3 b" "shape a = (N1, F1, D1)" "shape b = (N2, F2, D2)"
  shows "(N1 = N2 \<and> F1 = F2 \<longrightarrow>
            (\<exists>r. vgg_sift_features a b = Inr r \<and> shape r = (N1, F1, D1 + D2) \<and> wf3 r \<and>
                 (\<forall>n<N1. \<forall>f<F1. data r ! n ! f = data a ! n ! f @ data b ! n ! f))) \<and>
         (N1 \<noteq> N2 \<or> F1 \<noteq> F2 \<longrightarrow> vgg_sift_features a b = Inl ShapeMismatch)"
proof (intro conjI impI)
  assume eq: "N1 = N2 \<and> F1 = F2"
  let ?r = "\<lparr>shape = (N1, F1, D1 + D2),
              data = map2 (\<lambda>sa sb. map2 (\<lambda>va vb. va @ vb) sa sb) (data a) (data b)\<rparr>"
  from eq assms have sb: "shape b = (N1, F1, D2)" by simp
  have 1: "vgg_sift_features a b = Inr ?r"
    using assms(3) sb by (simp add: vgg_sift_features_def concatenate_axis2_def)
  have 2: "wf3 ?r" using wf3_concatenate[OF assms(1,2,3) sb] .
  have 3: "\<forall>n<N1. \<forall>f<F1. data ?r ! n ! f = data a ! n ! f @ data b ! n ! f"
    using data_concatenate[OF assms(1,2,3) sb] by simp
  show "\<exists>r. vgg_sift_features a b = Inr r \<and> shape r = (N1, F1, D1 + D2) \<and> wf3 r \<and>
                 (\<forall>n<N1. \<forall>f<F1. data r ! n ! f = data a ! n ! f @ data b ! n ! f)"
    using 1 2 3 by (intro exI[of _ ?r]) simp
next
  assume "N1 \<noteq> N2 \<or> F1 \<noteq> F2"
  then show "vgg_sift_features a b = Inl ShapeMismatch"
    using assms(3,4) by (auto simp: vgg_sift_features_def concatenate_axis2_def)
qed

lemma wf3_zeros: "wf3 (zeros N F D)"
  by (simp add: zeros_def wf3_def list_all_iff)

text \<open>
  The shapes of the design document: \<open>(3, 10, 4096)\<close> and \<open>(3, 10, 2432)\<close> fuse to
  \<open>(3, 10, 6528)\<close>; a differing sample count or frame count is refused.
\<close>

theorem feature_fusion_shape_witness:
  "(\<exists>r. vgg_sift_features (zeros 3 10 4096) (zeros 3 10 2432) = Inr r \<and> shape r = (3, 10, 6528) \<and> wf3 r)
   \<and> vgg_sift_features (zeros 3 10 4096) (zeros 2 10 2432) = Inl ShapeMismatch
   \<and> vgg_sift_features (zeros 3 10 4096) (zeros 3 9 2432) = Inl ShapeMismatch"
proof -
  have s: "\<And>N F D. shape (zeros N F D) = (N, F, D)" by (simp add: zeros_def)
  from feature_fusion_shape[OF wf3_zeros wf3_zeros s s, where ?N1.0=3 and ?F1.0=10 and ?D1.0=4096 and ?N2.0=3 and ?F2.0=10 and ?D2.0=2432]
  have a: "\<exists>r. vgg_sift_features (zeros 3 10 4096) (zeros 3 10 2432) = Inr r \<and> shape r = (3, 10, 6528) \<and> wf3 r"
    by auto
  from feature_fusion_shape[OF wf3_zeros wf3_zeros s s, where ?N1.0=3 and ?F1.0=10 and ?D1.0=4096 and ?N2.0=2 and ?F2.0=10 and ?D2.0=2432]
  have b: "vgg_sift_features (zeros 3 10 4096) (zeros 2 10 2432) = Inl ShapeMismatch" by simp
  from feature_fusion_shape[OF wf3_zeros wf3_zeros s s, where ?N1.0=3 and ?F1.0=10 and ?D1.0=4096 and ?N2.0=3 and ?F2.0=9 and ?D2.0=2432]
  have c: "vgg_sift_features (zeros 3 10 4096) (zeros 3 9 2432) = Inl ShapeMismatch" by simp
  show ?thesis using a b c by blast
qed

lemma sum_fold_sizes_aux:
  "sum_list (map (\<lambda>f. q + (if f < r then 1 else 0)) [0..<k]) = k * q + min k (r::nat)"
  by (induction k) auto

lemma sum_list_fold_sizes: "0 < n_folds \<Longrightarrow> sum_list (fold_sizes n n_folds) = n"
  unfolding fold_sizes_def sum_fold_sizes_aux
  by (simp add: min_absorb2 less_imp_le)

lemma length_fold_sizes: "length (fold_sizes n n_folds) = n_folds"
  by (simp add: fold_sizes_def)

lemma length_concat_map2_replicate:
  "length ns = length fs \<Longrightarrow> length (concat (map2 replicate ns fs)) = sum_list ns"
  by (induction ns fs rule: list_induct2) auto

lemma length_kfold_test_folds: "0 < n_folds \<Longrightarrow> length (kfold_test_folds n n_folds) = n"
  by (simp add: kfold_test_folds_def length_concat_map2_replicate length_fold_sizes
      sum_list_fold_sizes)

lemma set_concat_map2_replicate:
  "length ns = length fs \<Longrightarrow>
     set (concat (map2 replicate ns fs)) = {fs ! k | k. k < length fs \<and> 0 < ns ! k}"
proof (induction ns fs rule: list_induct2)
  case Nil
  then show ?case by simp
next
  case (Cons n ns f fs)
  have "{(f # fs) ! k | k. k < length (f # fs) \<and> 0 < (n # ns) ! k}
          = (if 0 < n then {f} else {}) \<union> {fs ! k | k. k < length fs \<and> 0 < ns ! k}"
    (is "?L = ?R")
  proof (intro set_eqI iffI)
    fix x assume "x \<in> ?L"
    then obtain k where k: "x = (f # fs) ! k" "k < length (f # fs)" "0 < (n # ns) ! k" by blast
    show "x \<in> ?R"
    proof (cases k)
      case 0
      with k show ?thesis by simp
    next
      case (Suc k')
      with k show ?thesis by auto
    qed
  next
    fix x assume "x \<in> ?R"
    then consider "0 < n" "x = f" | k where "x = fs ! k" "k < length fs" "0 < ns ! k"
      by (auto split: if_splits)
    then show "x \<in> ?L"
    proof cases
      case 1
      then have "x = (f # fs) ! 0 \<and> 0 < length (f # fs) \<and> 0 < (n # ns) ! 0" by simp
      then show ?thesis by blast
    next
      case 2
      then have "x = (f # fs) ! Suc k \<and> Suc k < length (f # fs) \<and> 0 < (n # ns) ! Suc k" by simp
      then show ?thesis by blast
    qed
  qed
  with Cons show ?case by auto
qed

lemma set_kfold_test_folds:
  "set (kfold_test_folds n n_folds) = {f. f < n_folds \<and> 0 < fold_sizes n n_folds ! f}"
proof -
  have "set (kfold_test_folds n n_folds)
      = {[0..<n_folds] ! k | k. k < length [0..<n_folds] \<and> 0 < fold_sizes n n_folds ! k}"
    unfolding kfold_test_folds_def
    by (rule set_concat_map2_replicate) (simp add: length_fold_sizes)
  also have "\<dots> = {f. f < n_folds \<and> 0 < fold_sizes n n_folds ! f}"
  proof (intro set_eqI iffI)
    fix x assume "x \<in> {[0..<n_folds] ! k | k. k < length [0..<n_folds] \<and> 0 < fold_sizes n n_folds ! k}"
    then show "x \<in> {f. f < n_folds \<and> 0 < fold_sizes n n_folds ! f}" by auto
  next
    fix x assume "x \<in> {f. f < n_folds \<and> 0 < fold_sizes n n_folds ! f}"
    then have "x = [0..<n_folds] ! x \<and> x < length [0..<n_folds] \<and> 0 < fold_sizes n n_folds ! x"
      by simp
    then show "x \<in> {[0..<n_folds] ! k | k. k < length [0..<n_folds] \<and> 0 < fold_sizes n n_folds ! k}"
      by blast
  qed
  finally show ?thesis .
qed

lemma kfold_test_folds_less: "f \<in> set (kfold_test_folds n n_folds) \<Longrightarrow> f < n_folds"
  by (simp add: set_kfold_test_folds)

lemma length_label_test_folds: "0 < n_folds \<Longrightarrow> length (label_test_folds c n_folds) = c"
  by (simp add: label_test_folds_def length_kfold_test_folds)

lemma label_test_folds_less:
  assumes "0 < n_folds" "j < c"
  shows "label_test_folds c n_folds ! j < n_folds"
proof -
  have "label_test_folds c n_folds ! j \<in> set (label_test_folds c n_folds)"
    using assms by (simp add: length_label_test_folds)
  then have "label_test_folds c n_folds ! j \<in> set (kfold_test_folds (max c n_folds) n_folds)"
    unfolding label_test_folds_def by (meson in_set_takeD)
  then show ?thesis by (rule kfold_test_folds_less)
qed

lemma rank_in_class_less:
  assumes "i < length labels"
  shows "rank_in_class labels i < count_list labels (labels ! i)"
proof -
  have "labels = take i labels @ labels ! i # drop (Suc i) labels"
    using assms by (simp add: id_take_nth_drop)
  then have "count_list labels (labels ! i)
      = count_list (take i labels @ labels ! i # drop (Suc i) labels) (labels ! i)" by simp
  then show ?thesis by (simp add: rank_in_class_def)
qed

lemma length_test_folds: "length (test_folds labels n_folds) = length labels"
  by (simp add: test_folds_def)

lemma test_folds_less:
  assumes "0 < n_folds" "i < length labels"
  shows "test_folds labels n_folds ! i < n_folds"
  using assms by (simp add: test_folds_def label_test_folds_less rank_in_class_less)


lemma fold_min_le_init: "fold (\<lambda>c m. min (g c) m) ls a \<le> (a::nat)"
proof (induction ls arbitrary: a)
  case Nil
  then show ?case by simp
next
  case (Cons l ls)
  have "fold (\<lambda>c m. min (g c) m) ls (min (g l) a) \<le> min (g l) a" by (rule Cons.IH)
  then show ?case by simp
qed

lemma fold_min_le_elem:
  "c \<in> set ls \<Longrightarrow> fold (\<lambda>c m. min (g c) m) ls a \<le> (g c :: nat)"
proof (induction ls arbitrary: a)
  case Nil
  then show ?case by simp
next
  case (Cons l ls)
  show ?case
  proof (cases "c = l")
    case True
    have "fold (\<lambda>c m. min (g c) m) ls (min (g l) a) \<le> min (g l) a"
      by (rule fold_min_le_init)
    with True show ?thesis by simp
  next
    case False
    with Cons show ?thesis by simp
  qed
qed

lemma min_class_count_le:
  "c \<in> set labels \<Longrightarrow> min_class_count labels \<le> count_list labels c"
  unfolding min_class_count_def
  by (cases labels) (auto simp del: count_list.simps intro: fold_min_le_init fold_min_le_elem)

lemma min_class_count_Nil: "min_class_count [] = 0"
  by (simp add: min_class_count_def)

lemma StratifiedKFold_succeeds:
  assumes "2 \<le> n_folds" "n_folds \<le> min_class_count labels"
  shows "StratifiedKFold labels n_folds =
     Inr (map (\<lambda>i. (filter (\<lambda>j. test_folds labels n_folds ! j \<noteq> i) [0..<length labels],
                     filter (\<lambda>j. test_folds labels n_folds ! j = i) [0..<length labels]))
            [0..<n_folds])"
proof -
  from assms have ne: "labels \<noteq> []" by (auto simp: min_class_count_Nil)
  then obtain l where l: "l \<in> set labels" by (cases labels) auto
  then have big: "n_folds \<le> count_list labels l"
    using assms(2) min_class_count_le by (meson order_trans)
  moreover have "count_list labels l \<le> length labels" by (rule count_le_length)
  ultimately have len: "n_folds \<le> length labels" by simp
  have "\<not> list_all (\<lambda>c. n_folds > count_list labels c) labels"
    using l big by (auto simp: list_all_iff not_less intro!: bexI[of _ l])
  with assms(1) len show ?thesis by (simp add: StratifiedKFold_def)
qed

lemma mset_filter_disjoint:
  "(\<And>x. \<not> (P x \<and> Q x)) \<Longrightarrow>
     mset (filter P xs) + mset (filter Q xs) = mset (filter (\<lambda>x. P x \<or> Q x) xs)"
  by (induction xs) auto

lemma mset_concat_filter_folds:
  "mset (concat (map (\<lambda>i. filter (\<lambda>j. g j = i) xs) [0..<k]))
     = mset (filter (\<lambda>j. g j < (k::nat)) xs)"
proof (induction k)
  case 0
  then show ?case by simp
next
  case (Suc k)
  have "mset (filter (\<lambda>j. g j < k) xs) + mset (filter (\<lambda>j. g j = k) xs)
          = mset (filter (\<lambda>j. g j < k \<or> g j = k) xs)"
    by (rule mset_filter_disjoint) simp
  also have "\<dots> = mset (filter (\<lambda>j. g j < Suc k) xs)"
    by (simp add: less_Suc_eq)
  finally show ?case using Suc by simp
qed

text \<open>
  Claim C5. For every label vector and every fold count between 2 and the size of the
  smallest class, the partitioner returns exactly \<open>n_folds\<close> folds; the test index sets
  of two different folds are disjoint; a fold's train and test indices are disjoint and
  together are all indices; the test sets together are the whole index range, and every
  index occurs exactly once among them.
\<close>

theorem stratified_kfold_partition:
  assumes "2 \<le> n_folds" "n_folds \<le> min_class_count labels"
  shows "\<exists>skf. StratifiedKFold labels n_folds = Inr skf \<and> length skf = n_folds \<and>
           (\<forall>i<n_folds. \<forall>j<n_folds. i \<noteq> j \<longrightarrow> set (snd (skf ! i)) \<inter> set (snd (skf ! j)) = {}) \<and>
           (\<forall>i<n_folds. set (fst (skf ! i)) \<inter> set (snd (skf ! i)) = {} \<and>
                        set (fst (skf ! i)) \<union> set (snd (skf ! i)) = {0..<length labels}) \<and>
           (\<Union>i<n_folds. set (snd (skf ! i))) = {0..<length labels} \<and>
           mset (concat (map snd skf)) = mset [0..<length labels]"
proof -
  let ?tf = "test_folds labels n_folds"
  let ?n = "length labels"
  let ?skf = "map (\<lambda>i. (filter (\<lambda>j. ?tf ! j \<noteq> i) [0..<?n], filter (\<lambda>j. ?tf ! j = i) [0..<?n]))
                [0..<n_folds]"
  have pos: "0 < n_folds" using assms(1) by simp
  have ok: "StratifiedKFold labels n_folds = Inr ?skf"
    using assms by (rule StratifiedKFold_succeeds)
  have len: "length ?skf = n_folds" by simp
  have disj: "\<forall>i<n_folds. \<forall>j<n_folds. i \<noteq> j \<longrightarrow> set (snd (?skf ! i)) \<inter> set (snd (?skf ! j)) = {}"
    by auto
  have tt: "\<forall>i<n_folds. set (fst (?skf ! i)) \<inter> set (snd (?skf ! i)) = {} \<and>
                        set (fst (?skf ! i)) \<union> set (snd (?skf ! i)) = {0..<?n}"
    by auto
  have all: "filter (\<lambda>j. ?tf ! j < n_folds) [0..<?n] = [0..<?n]"
    using test_folds_less[OF pos] by (simp add: filter_id_conv)
  have "concat (map snd ?skf) = concat (map (\<lambda>i. filter (\<lambda>j. ?tf ! j = i) [0..<?n]) [0..<n_folds])"
    by (simp add: comp_def)
  then have ms: "mset (concat (map snd ?skf)) = mset [0..<?n]"
    using mset_concat_filter_folds[of "\<lambda>j. ?tf ! j" "[0..<?n]" n_folds] all by simp
  have un: "(\<Union>i<n_folds. set (snd (?skf ! i))) = {0..<?n}"
  proof (intro set_eqI iffI)
    fix x assume "x \<in> (\<Union>i<n_folds. set (snd (?skf ! i)))"
    then show "x \<in> {0..<?n}" by auto
  next
    fix x assume "x \<in> {0..<?n}"
    then have x: "x < ?n" by simp
    then have "?tf ! x < n_folds" by (rule test_folds_less[OF pos])
    moreover have "x \<in> set (snd (?skf ! (?tf ! x)))" using x \<open>?tf ! x < n_folds\<close> by simp
    ultimately show "x \<in> (\<Union>i<n_folds. set (snd (?skf ! i)))" by blast
  qed
  show ?thesis
    using ok len disj tt un ms by (intro exI[of _ ?skf] conjI)
qed

theorem stratified_kfold_partition_witness:
  "\<exists>skf. StratifiedKFold [0, 0, 1, 1, 0, 1] 2 = Inr skf \<and> length skf = 2 \<and>
     (\<forall>i<2. \<forall>j<2. i \<noteq> j \<longrightarrow> set (snd (skf ! i)) \<inter> set (snd (skf ! j)) = {}) \<and>
     (\<forall>i<2. set (fst (skf ! i)) \<inter> set (snd (skf ! i)) = {} \<and>
              set (fst (skf ! i)) \<union> set (snd (skf ! i)) = {0..<length [0, 0, 1, 1, 0, 1 :: nat]}) \<and>
     (\<Union>i<2. set (snd (skf ! i))) = {0..<length [0, 0, 1, 1, 0, 1 :: nat]} \<and>
     mset (concat (map snd skf)) = mset [0..<length [0, 0, 1, 1, 0, 1 :: nat]]"
proof -
  have h1: "2 \<le> (2::nat)" by simp
  have h2: "2 \<le> min_class_count [0, 0, 1, 1, 0, 1]" by (simp add: min_class_count_def)
  show ?thesis by (rule stratified_kfold_partition[OF h1 h2])
qed

lemma occurrence_with_rank:
  "r < count_list labels l \<Longrightarrow>
     \<exists>i<length labels. labels ! i = l \<and> count_list (take i labels) l = r"
proof (induction labels rule: rev_induct)
  case Nil
  then show ?case by simp
next
  case (snoc a labels)
  show ?case
  proof (cases "r < count_list labels l")
    case True
    then obtain i where i: "i < length labels" "labels ! i = l" "count_list (take i labels) l = r"
      using snoc.IH by blast
    then have "i < length (labels @ [a]) \<and> (labels @ [a]) ! i = l \<and>
               count_list (take i (labels @ [a])) l = r"
      by (simp add: nth_append)
    then show ?thesis by blast
  next
    case False
    with snoc.prems have "a = l" "r = count_list labels l"
      by (auto split: if_splits)
    then have "length labels < length (labels @ [a]) \<and> (labels @ [a]) ! length labels = l \<and>
               count_list (take (length labels) (labels @ [a])) l = r"
      by simp
    then show ?thesis by blast
  qed
qed

lemma fold_sizes_nth:
  "f < n_folds \<Longrightarrow>
     fold_sizes n n_folds ! f = n div n_folds + (if f < n mod n_folds then 1 else 0)"
  by (simp add: fold_sizes_def)

lemma fold_in_big_class:
  assumes "n_folds \<le> c" "f < n_folds"
  shows "\<exists>r<c. label_test_folds c n_folds ! r = f"
proof -
  have pos: "0 < n_folds" using assms(2) by simp
  have "1 \<le> c div n_folds" using assms(1) pos by (simp add: div_greater_zero_iff Suc_le_eq)
  then have "0 < fold_sizes c n_folds ! f" using assms(2) by (simp add: fold_sizes_nth)
  then have "f \<in> set (kfold_test_folds c n_folds)"
    using assms(2) by (simp add: set_kfold_test_folds)
  then obtain r where "r < length (kfold_test_folds c n_folds)" "kfold_test_folds c n_folds ! r = f"
    by (auto simp: in_set_conv_nth)
  moreover have "label_test_folds c n_folds = kfold_test_folds c n_folds"
    using assms(1) pos by (simp add: label_test_folds_def max_absorb1 length_kfold_test_folds)
  ultimately show ?thesis using pos by (auto simp: length_kfold_test_folds)
qed

lemma StratifiedKFold_Inr:
  assumes "StratifiedKFold labels n_folds = Inr skf"
  shows "2 \<le> n_folds"
    and "n_folds \<le> length labels"
    and "\<exists>l\<in>set labels. n_folds \<le> count_list labels l"
    and "skf = map (\<lambda>i. (filter (\<lambda>j. test_folds labels n_folds ! j \<noteq> i) [0..<length labels],
                          filter (\<lambda>j. test_folds labels n_folds ! j = i) [0..<length labels]))
                 [0..<n_folds]"
  using assms
  by (auto simp: StratifiedKFold_def list_all_iff not_less split: if_splits)

lemma StratifiedKFold_length:
  "StratifiedKFold labels n_folds = Inr skf \<Longrightarrow> length skf = n_folds"
  using StratifiedKFold_Inr(4)[of labels n_folds skf] by simp

lemma StratifiedKFold_test_nonempty:
  assumes "StratifiedKFold labels n_folds = Inr skf" "f < n_folds"
  shows "snd (skf ! f) \<noteq> []"
proof -
  note facts = StratifiedKFold_Inr[OF assms(1)]
  from facts(3) obtain l where l: "l \<in> set labels" "n_folds \<le> count_list labels l" by blast
  from fold_in_big_class[OF l(2) assms(2)]
  obtain r where r: "r < count_list labels l" "label_test_folds (count_list labels l) n_folds ! r = f"
    by blast
  from occurrence_with_rank[OF r(1)]
  obtain i where i: "i < length labels" "labels ! i = l" "count_list (take i labels) l = r"
    by blast
  have "test_folds labels n_folds ! i = f"
    using i r(2) by (simp add: test_folds_def rank_in_class_def)
  then have "i \<in> set (filter (\<lambda>j. test_folds labels n_folds ! j = f) [0..<length labels])"
    using i(1) by simp
  moreover have "snd (skf ! f) = filter (\<lambda>j. test_folds labels n_folds ! j = f) [0..<length labels]"
    using assms(2) by (simp add: facts(4))
  ultimately show ?thesis by (metis empty_iff list.set(1))
qed

lemma length_take_rows: "take_rows a idx = Inr xs \<Longrightarrow> length xs = length idx"
  by (auto simp: take_rows_def split: if_splits)

lemma length_argmax_axis1: "argmax_axis1 rows = Inr cs \<Longrightarrow> length cs = length rows"
  by (induction rows arbitrary: cs) (auto split: sum.splits)

lemma argmax_axis1_Inl: "argmax_axis1 rows = Inl e \<Longrightarrow> e = EmptyArgmax"
proof (induction rows)
  case Nil
  then show ?case by simp
next
  case (Cons row rows)
  then show ?case by (cases row) (auto split: sum.splits)
qed

lemma predictions_Inl:
  "predictions lstm_sift features y = Inl e \<Longrightarrow>
     e = EmptyArgmax \<or> e = InvalidFoldCount \<or> e = IndexError"
  by (auto simp: predictions_def Let_def take_rows_def StratifiedKFold_def
      dest: argmax_axis1_Inl StratifiedKFold_length split: sum.splits if_splits)

lemma predictions_Inr:
  assumes "predictions lstm_sift features y = Inr ev"
  shows "\<exists>labels skf. argmax_axis1 y = Inr labels \<and> StratifiedKFold labels 5 = Inr skf \<and>
           test_idx ev = map snd skf"
    and "1 < length (test_idx ev)"
    and "test_indices ev = test_idx ev ! 1"
    and "length (y_predict ev) = length (test_indices ev)"
    and "length (y_true ev) = length (test_indices ev)"
  using assms
  by (auto simp: predictions_def Let_def dest!: length_take_rows length_argmax_axis1
      split: sum.splits if_splits)

lemma predictions_test_nonempty:
  assumes "predictions lstm_sift features y = Inr ev"
  shows "test_indices ev \<noteq> []"
proof -
  from predictions_Inr(1)[OF assms] obtain labels skf where
    s: "StratifiedKFold labels 5 = Inr skf" "test_idx ev = map snd skf" by blast
  have "length skf = 5" using s(1) by (rule StratifiedKFold_length)
  then have "test_idx ev ! 1 = snd (skf ! 1)" using s(2) by simp
  moreover have "snd (skf ! 1) \<noteq> []" by (rule StratifiedKFold_test_nonempty[OF s(1)]) simp
  ultimately show ?thesis using predictions_Inr(3)[OF assms] by simp
qed

lemma predictions_no_fold_index_error:
  "predictions lstm_sift features y \<noteq> Inl FoldIndexError"
  using predictions_Inl[of lstm_sift features y FoldIndexError] by auto

lemma matches_le: "matches ps ts \<le> length ps"
proof -
  have "matches ps ts \<le> length (zip ps ts)" unfolding matches_def by (rule length_filter_le)
  then show ?thesis by simp
qed

lemma matches_card:
  "length ps = length ts \<Longrightarrow> matches ps ts = card {i. i < length ps \<and> ps ! i = ts ! i}"
proof -
  assume len: "length ps = length ts"
  have "matches ps ts = card {i. i < length (zip ps ts) \<and> (\<lambda>(p, t). p = t) (zip ps ts ! i)}"
    unfolding matches_def by (rule length_filter_conv_card)
  also have "{i. i < length (zip ps ts) \<and> (\<lambda>(p, t). p = t) (zip ps ts ! i)}
           = {i. i < length ps \<and> ps ! i = ts ! i}"
    using len by auto
  finally show ?thesis .
qed

lemma fraction_not_int:
  fixes a :: rat
  assumes "0 < a" "a < 1"
  shows "a \<notin> \<int>"
proof
  assume "a \<in> \<int>"
  then obtain z :: int where "a = of_int z" by (rule Ints_cases)
  with assms have "0 < z" "z < 1" by simp_all
  then show False by simp
qed

lemma acc_Inr:
  assumes "acc ev = Inr a"
  shows "a = of_nat (matches (y_predict ev) (y_true ev)) / of_nat (length (y_predict ev))"
    and "0 \<le> a" and "a \<le> 1"
    and "0 < matches (y_predict ev) (y_true ev) \<Longrightarrow>
         matches (y_predict ev) (y_true ev) < length (y_predict ev) \<Longrightarrow> 0 < a \<and> a < 1 \<and> a \<notin> \<int>"
proof -
  let ?m = "matches (y_predict ev) (y_true ev)"
  let ?n = "length (y_predict ev)"
  from assms have n: "0 < ?n" and a: "a = of_nat ?m / of_nat ?n"
    by (auto simp: acc_def split: if_splits)
  show "a = of_nat ?m / of_nat ?n" by (rule a)
  show "0 \<le> a" using a by simp
  have "?m \<le> ?n" by (rule matches_le)
  then have "(of_nat ?m :: rat) \<le> of_nat ?n" by simp
  then show "a \<le> 1" using a n by (simp add: divide_le_eq_1)
  assume m: "0 < ?m" "?m < ?n"
  then have "(of_nat ?m :: rat) < of_nat ?n" "(0::rat) < of_nat ?m" by simp_all
  then have "0 < a" "a < 1" using a n by (simp_all add: divide_less_eq_1)
  then show "0 < a \<and> a < 1 \<and> a \<notin> \<int>" using fraction_not_int by blast
qed

lemma argmax_from_first_max:
  assumes "length pre = i" "bi < i" "b = (pre @ xs) ! bi"
    and "\<forall>j<i. (pre @ xs) ! j \<le> b" "\<forall>j<bi. (pre @ xs) ! j < b"
  shows "is_argmax (pre @ xs) (argmax_from b bi i xs)"
  using assms
proof (induction xs arbitrary: pre i bi b)
  case Nil
  then show ?case by (simp add: is_argmax_def)
next
  case (Cons x xs)
  have x: "(pre @ x # xs) ! i = x" using Cons.prems(1) by (simp add: nth_append)
  have app: "pre @ x # xs = (pre @ [x]) @ xs" by simp
  have len: "length (pre @ [x]) = Suc i" using Cons.prems(1) by simp
  show ?case
  proof (cases "b < x")
    case True
    have le: "\<forall>j<Suc i. ((pre @ [x]) @ xs) ! j \<le> x"
    proof (intro allI impI)
      fix j assume "j < Suc i"
      then consider "j < i" | "j = i" by (auto simp: less_Suc_eq)
      then show "((pre @ [x]) @ xs) ! j \<le> x"
      proof cases
        case 1
        with Cons.prems(4) have "(pre @ x # xs) ! j \<le> b" by simp
        with True show ?thesis by simp
      next
        case 2
        with x show ?thesis by simp
      qed
    qed
    have lt: "\<forall>j<i. ((pre @ [x]) @ xs) ! j < x"
    proof (intro allI impI)
      fix j assume "j < i"
      with Cons.prems(4) have "(pre @ x # xs) ! j \<le> b" by simp
      with True show "((pre @ [x]) @ xs) ! j < x" by simp
    qed
    have bx: "x = ((pre @ [x]) @ xs) ! i" using x by simp
    have "is_argmax ((pre @ [x]) @ xs) (argmax_from x i (Suc i) xs)"
      by (rule Cons.IH[OF len _ bx le lt]) simp
    with True show ?thesis by simp
  next
    case False
    have le: "\<forall>j<Suc i. ((pre @ [x]) @ xs) ! j \<le> b"
    proof (intro allI impI)
      fix j assume "j < Suc i"
      then consider "j < i" | "j = i" by (auto simp: less_Suc_eq)
      then show "((pre @ [x]) @ xs) ! j \<le> b"
      proof cases
        case 1
        with Cons.prems(4) show ?thesis by simp
      next
        case 2
        with x False show ?thesis by simp
      qed
    qed
    have lt: "\<forall>j<bi. ((pre @ [x]) @ xs) ! j < b" using Cons.prems(5) by simp
    have bb: "b = ((pre @ [x]) @ xs) ! bi" using Cons.prems(3) by simp
    have "is_argmax ((pre @ [x]) @ xs) (argmax_from b bi (Suc i) xs)"
      by (rule Cons.IH[OF len _ bb le lt]) (use Cons.prems(2) in simp)
    with False show ?thesis by simp
  qed
qed

lemma argmax_is_argmax: "argmax row = Inr c \<Longrightarrow> is_argmax row c"
proof (cases row)
  case Nil
  assume "argmax row = Inr c"
  with Nil show ?thesis by simp
next
  case (Cons x xs)
  assume "argmax row = Inr c"
  with Cons have c: "c = argmax_from x 0 1 xs" by simp
  have "is_argmax ([x] @ xs) (argmax_from x 0 1 xs)"
    by (rule argmax_from_first_max) simp_all
  with Cons c show ?thesis by simp
qed

lemma argmax_axis1_nth:
  "argmax_axis1 rows = Inr cs \<Longrightarrow> k < length rows \<Longrightarrow> argmax (rows ! k) = Inr (cs ! k)"
proof (induction rows arbitrary: cs k)
  case Nil
  then show ?case by simp
next
  case (Cons row rows)
  from Cons.prems(1) obtain c cs' where c: "argmax row = Inr c" "argmax_axis1 rows = Inr cs'"
    "cs = c # cs'"
    by (auto split: sum.splits)
  show ?case
  proof (cases k)
    case 0
    with c show ?thesis by simp
  next
    case (Suc k')
    with Cons.prems(2) have "k' < length rows" by simp
    from Cons.IH[OF c(2) this] Suc c(3) show ?thesis by simp
  qed
qed

lemma argmax_axis1_rows:
  assumes "argmax_axis1 rows = Inr cs" "list_all (\<lambda>i. i < length rows) idx"
  shows "argmax_axis1 (map (\<lambda>i. rows ! i) idx) = Inr (map (\<lambda>i. cs ! i) idx)"
  using assms(2)
proof (induction idx)
  case Nil
  then show ?case by simp
next
  case (Cons i idx)
  then have "i < length rows" by simp
  from argmax_axis1_nth[OF assms(1) this] Cons show ?case by simp
qed

lemma predictions_pinned:
  assumes "predictions lstm_sift features y = Inr ev"
  shows "\<exists>labels skf. argmax_axis1 y = Inr labels \<and> StratifiedKFold labels 5 = Inr skf \<and>
           test_idx ev = map snd skf \<and> test_indices ev = snd (skf ! 1) \<and>
           list_all (\<lambda>i. i < length (data features)) (test_indices ev) \<and>
           list_all (\<lambda>i. i < length y) (test_indices ev) \<and>
           y_predict ev = map (\<lambda>i. lstm_sift (data features ! i)) (test_indices ev) \<and>
           y_true ev = map (\<lambda>i. labels ! i) (test_indices ev)"
proof -
  from assms obtain labels where l: "argmax_axis1 y = Inr labels"
    by (auto simp: predictions_def split: sum.splits)
  with assms obtain skf where s: "StratifiedKFold labels 5 = Inr skf"
    by (auto simp: predictions_def split: sum.splits)
  have len: "length skf = 5" using s by (rule StratifiedKFold_length)
  let ?t = "map snd skf ! 1"
  from assms l s len obtain xs where x: "take_rows (data features) ?t = Inr xs"
    by (auto simp: predictions_def Let_def split: sum.splits)
  with assms l s len obtain ys where ys: "take_rows y ?t = Inr ys"
    by (auto simp: predictions_def Let_def split: sum.splits)
  with assms l s len x obtain classes where c: "argmax_axis1 ys = Inr classes"
    by (auto simp: predictions_def Let_def split: sum.splits)
  from assms l s len x ys c
  have ev: "ev = \<lparr>test_idx = map snd skf, test_indices = ?t,
               y_predict = map lstm_sift xs, y_true = classes\<rparr>"
    by (simp add: predictions_def Let_def)
  have t: "?t = snd (skf ! 1)" using len by simp
  from x have bx: "list_all (\<lambda>i. i < length (data features)) ?t"
    and xs: "xs = map (\<lambda>i. data features ! i) ?t"
    by (auto simp: take_rows_def split: if_splits)
  from ys have by': "list_all (\<lambda>i. i < length y) ?t" and ysd: "ys = map (\<lambda>i. y ! i) ?t"
    by (auto simp: take_rows_def split: if_splits)
  from argmax_axis1_rows[OF l by'] c ysd have cl: "classes = map (\<lambda>i. labels ! i) ?t"
    by simp
  have "test_idx ev = map snd skf \<and> test_indices ev = snd (skf ! 1) \<and>
           list_all (\<lambda>i. i < length (data features)) (test_indices ev) \<and>
           list_all (\<lambda>i. i < length y) (test_indices ev) \<and>
           y_predict ev = map (\<lambda>i. lstm_sift (data features ! i)) (test_indices ev) \<and>
           y_true ev = map (\<lambda>i. labels ! i) (test_indices ev)"
    unfolding ev using t bx by' xs cl by (simp add: comp_def)
  with l s show ?thesis by blast
qed

text \<open>
  Claim C1. An evaluation run never ends in the undefined quotient \<open>0/0\<close>. Whenever it
  returns an accuracy: the true class of a sample is the first position holding the
  maximum of its label row; the test partition selected is the second test fold of the
  five-fold partition of the true classes, it is not empty and its indices are within
  the features and the labels; the predictions are the classifier's answers on the
  feature rows at these indices and the true classes are the classes of the samples at
  these indices, in the same order; the accuracy is the number of positions of the
  partition at which the classifier's answer equals the true class, divided by the
  size of the partition. It lies between 0 and 1, and when at least one but not all
  predictions match it lies strictly between them and is no integer.
\<close>

theorem evaluator_accuracy:
  "evaluate lstm_sift features y \<noteq> Inl NotANumber \<and>
   (\<forall>a. evaluate lstm_sift features y = Inr a \<longrightarrow>
      (\<exists>ev labels skf. predictions lstm_sift features y = Inr ev \<and>
         argmax_axis1 y = Inr labels \<and> length labels = length y \<and>
         (\<forall>i<length y. is_argmax (y ! i) (labels ! i)) \<and>
         StratifiedKFold labels 5 = Inr skf \<and>
         test_indices ev = snd (skf ! 1) \<and> test_indices ev \<noteq> [] \<and>
         (\<forall>i\<in>set (test_indices ev). i < length (data features) \<and> i < length y) \<and>
         y_predict ev = map (\<lambda>i. lstm_sift (data features ! i)) (test_indices ev) \<and>
         y_true ev = map (\<lambda>i. labels ! i) (test_indices ev) \<and>
         length (y_predict ev) = length (test_indices ev) \<and>
         length (y_true ev) = length (test_indices ev) \<and>
         matches (y_predict ev) (y_true ev)
           = card {i. i < length (test_indices ev) \<and> y_predict ev ! i = y_true ev ! i} \<and>
         matches (y_predict ev) (y_true ev)
           = card {k. k < length (test_indices ev) \<and>
                      lstm_sift (data features ! (test_indices ev ! k))
                        = labels ! (test_indices ev ! k)} \<and>
         a = of_nat (matches (y_predict ev) (y_true ev)) / of_nat (length (test_indices ev)) \<and>
         0 \<le> a \<and> a \<le> 1 \<and>
         (0 < matches (y_predict ev) (y_true ev) \<and>
          matches (y_predict ev) (y_true ev) < length (test_indices ev)
            \<longrightarrow> 0 < a \<and> a < 1 \<and> a \<notin> \<int>)))"
proof (intro conjI allI impI)
  show "evaluate lstm_sift features y \<noteq> Inl NotANumber"
  proof
    assume nan: "evaluate lstm_sift features y = Inl NotANumber"
    show False
    proof (cases "predictions lstm_sift features y")
      case (Inl e)
      with nan have "predictions lstm_sift features y = Inl NotANumber"
        by (simp add: evaluate_def)
      then show False
        using predictions_Inl[of lstm_sift features y NotANumber] by auto
    next
      case (Inr ev)
      with nan have "acc ev = Inl NotANumber" by (simp add: evaluate_def)
      then have "length (y_predict ev) = 0" by (auto simp: acc_def split: if_splits)
      with predictions_Inr(4)[OF Inr] predictions_test_nonempty[OF Inr] show False by simp
    qed
  qed
next
  fix a assume ev: "evaluate lstm_sift features y = Inr a"
  then obtain ev where p: "predictions lstm_sift features y = Inr ev" and a: "acc ev = Inr a"
    by (auto simp: evaluate_def split: sum.splits)
  from predictions_pinned[OF p] obtain labels skf where
    l: "argmax_axis1 y = Inr labels" and s: "StratifiedKFold labels 5 = Inr skf"
    and ti: "test_indices ev = snd (skf ! 1)"
    and bx: "list_all (\<lambda>i. i < length (data features)) (test_indices ev)"
    and bl: "list_all (\<lambda>i. i < length y) (test_indices ev)"
    and yp: "y_predict ev = map (\<lambda>i. lstm_sift (data features ! i)) (test_indices ev)"
    and yt: "y_true ev = map (\<lambda>i. labels ! i) (test_indices ev)"
    by blast
  have ll: "length labels = length y" using l by (rule length_argmax_axis1)
  have am: "\<forall>i<length y. is_argmax (y ! i) (labels ! i)"
    using argmax_axis1_nth[OF l] argmax_is_argmax by blast
  have ne: "test_indices ev \<noteq> []" using p by (rule predictions_test_nonempty)
  have bounds: "\<forall>i\<in>set (test_indices ev). i < length (data features) \<and> i < length y"
    using bx bl by (simp add: list_all_iff)
  note len = predictions_Inr(4,5)[OF p]
  have c: "matches (y_predict ev) (y_true ev)
           = card {i. i < length (test_indices ev) \<and> y_predict ev ! i = y_true ev ! i}"
    using matches_card[of "y_predict ev" "y_true ev"] len by simp
  have "{i. i < length (test_indices ev) \<and> y_predict ev ! i = y_true ev ! i}
      = {k. k < length (test_indices ev) \<and>
            lstm_sift (data features ! (test_indices ev ! k)) = labels ! (test_indices ev ! k)}"
    unfolding yp yt by auto
  with c have c2: "matches (y_predict ev) (y_true ev)
           = card {k. k < length (test_indices ev) \<and>
                      lstm_sift (data features ! (test_indices ev ! k))
                        = labels ! (test_indices ev ! k)}"
    by simp
  have f: "0 < matches (y_predict ev) (y_true ev) \<and>
          matches (y_predict ev) (y_true ev) < length (test_indices ev)
            \<longrightarrow> 0 < a \<and> a < 1 \<and> a \<notin> \<int>"
    using acc_Inr(4)[OF a] len by simp
  have av: "a = of_nat (matches (y_predict ev) (y_true ev)) / of_nat (length (test_indices ev))"
    using acc_Inr(1)[OF a] len by simp
  have "predictions lstm_sift features y = Inr ev \<and>
         argmax_axis1 y = Inr labels \<and> length labels = length y \<and>
         (\<forall>i<length y. is_argmax (y ! i) (labels ! i)) \<and>
         StratifiedKFold labels 5 = Inr skf \<and>
         test_indices ev = snd (skf ! 1) \<and> test_indices ev \<noteq> [] \<and>
         (\<forall>i\<in>set (test_indices ev). i < length (data features) \<and> i < length y) \<and>
         y_predict ev = map (\<lambda>i. lstm_sift (data features ! i)) (test_indices ev) \<and>
         y_true ev = map (\<lambda>i. labels ! i) (test_indices ev) \<and>
         length (y_predict ev) = length (test_indices ev) \<and>
         length (y_true ev) = length (test_indices ev) \<and>
         matches (y_predict ev) (y_true ev)
           = card {i. i < length (test_indices ev) \<and> y_predict ev ! i = y_true ev ! i} \<and>
         matches (y_predict ev) (y_true ev)
           = card {k. k < length (test_indices ev) \<and>
                      lstm_sift (data features ! (test_indices ev ! k))
                        = labels ! (test_indices ev ! k)} \<and>
         a = of_nat (matches (y_predict ev) (y_true ev)) / of_nat (length (test_indices ev)) \<and>
         0 \<le> a \<and> a \<le> 1 \<and>
         (0 < matches (y_predict ev) (y_true ev) \<and>
          matches (y_predict ev) (y_true ev) < length (test_indices ev)
            \<longrightarrow> 0 < a \<and> a < 1 \<and> a \<notin> \<int>)"
    using p l ll am s ti ne bounds yp yt len c c2 av acc_Inr(2,3)[OF a] f by (intro conjI)
  then show "\<exists>ev labels skf. predictions lstm_sift features y = Inr ev \<and>
         argmax_axis1 y = Inr labels \<and> length labels = length y \<and>
         (\<forall>i<length y. is_argmax (y ! i) (labels ! i)) \<and>
         StratifiedKFold labels 5 = Inr skf \<and>
         test_indices ev = snd (skf ! 1) \<and> test_indices ev \<noteq> [] \<and>
         (\<forall>i\<in>set (test_indices ev). i < length (data features) \<and> i < length y) \<and>
         y_predict ev = map (\<lambda>i. lstm_sift (data features ! i)) (test_indices ev) \<and>
         y_true ev = map (\<lambda>i. labels ! i) (test_indices ev) \<and>
         length (y_predict ev) = length (test_indices ev) \<and>
         length (y_true ev) = length (test_indices ev) \<and>
         matches (y_predict ev) (y_true ev)
           = card {i. i < length (test_indices ev) \<and> y_predict ev ! i = y_true ev ! i} \<and>
         matches (y_predict ev) (y_true ev)
           = card {k. k < length (test_indices ev) \<and>
                      lstm_sift (data features ! (test_indices ev ! k))
                        = labels ! (test_indices ev ! k)} \<and>
         a = of_nat (matches (y_predict ev) (y_true ev)) / of_nat (length (test_indices ev)) \<and>
         0 \<le> a \<and> a \<le> 1 \<and>
         (0 < matches (y_predict ev) (y_true ev) \<and>
          matches (y_predict ev) (y_true ev) < length (test_indices ev)
            \<longrightarrow> 0 < a \<and> a < 1 \<and> a \<notin> \<int>)"
    by (intro exI)
qed

text \<open>
  On the ten example samples the second test fold is the samples 1 and 6; the
  classifier that always answers class 0 is right on the first and wrong on the second,
  and the accuracy is one half.
\<close>

theorem evaluator_accuracy_witness:
  "evaluate always_class0 example_features example_y \<noteq> Inl NotANumber \<and>
   evaluate always_class0 example_features example_y = Inr (1 / 2) \<and>
   (\<exists>ev. predictions always_class0 example_features example_y = Inr ev \<and>
      test_indices ev = [1, 6] \<and>
      y_predict ev = map (\<lambda>i. always_class0 (data example_features ! i)) (test_indices ev) \<and>
      matches (y_predict ev) (y_true ev) = 1 \<and> length (test_indices ev) = 2 \<and>
      (1 / 2 :: rat) = of_nat (matches (y_predict ev) (y_true ev)) / of_nat (length (test_indices ev))) \<and>
   (1 / 2 :: rat) \<notin> \<int>"
proof -
  have e: "evaluate always_class0 example_features example_y = Inr (1 / 2)" by code_simp
  have p: "predictions always_class0 example_features example_y =
     Inr \<lparr>test_idx = [[0, 5], [1, 6], [2, 7], [3, 8], [4, 9]], test_indices = [1, 6],
          y_predict = [0, 0], y_true = [0, 1]\<rparr>" by code_simp
  have m: "matches [0, 0] [0, 1] = 1" by (simp add: matches_def)
  note t = evaluator_accuracy[of always_class0 example_features example_y]
  from t have 1: "evaluate always_class0 example_features example_y \<noteq> Inl NotANumber"
    by (elim conjE)
  from t e obtain ev where ev: "predictions always_class0 example_features example_y = Inr ev"
    "y_predict ev = map (\<lambda>i. always_class0 (data example_features ! i)) (test_indices ev)"
    "(1 / 2 :: rat) = of_nat (matches (y_predict ev) (y_true ev)) / of_nat (length (test_indices ev))"
    "0 < matches (y_predict ev) (y_true ev) \<and>
          matches (y_predict ev) (y_true ev) < length (test_indices ev)
            \<longrightarrow> 0 < (1 / 2 :: rat) \<and> (1 / 2 :: rat) < 1 \<and> (1 / 2 :: rat) \<notin> \<int>"
    by blast
  from ev(1) p have evd: "ev = \<lparr>test_idx = [[0, 5], [1, 6], [2, 7], [3, 8], [4, 9]],
          test_indices = [1, 6], y_predict = [0, 0], y_true = [0, 1]\<rparr>" by simp
  have 3: "test_indices ev = [1, 6]" "matches (y_predict ev) (y_true ev) = 1"
    "length (test_indices ev) = 2"
    using evd m by simp_all
  with ev(4) have 4: "(1 / 2 :: rat) \<notin> \<int>" by simp
  have "predictions always_class0 example_features example_y = Inr ev \<and>
      test_indices ev = [1, 6] \<and>
      y_predict ev = map (\<lambda>i. always_class0 (data example_features ! i)) (test_indices ev) \<and>
      matches (y_predict ev) (y_true ev) = 1 \<and> length (test_indices ev) = 2 \<and>
      (1 / 2 :: rat) = of_nat (matches (y_predict ev) (y_true ev)) / of_nat (length (test_indices ev))"
    using ev(1,2,3) 3 by (intro conjI)
  then have "\<exists>ev. predictions always_class0 example_features example_y = Inr ev \<and>
      test_indices ev = [1, 6] \<and>
      y_predict ev = map (\<lambda>i. always_class0 (data example_features ! i)) (test_indices ev) \<and>
      matches (y_predict ev) (y_true ev) = 1 \<and> length (test_indices ev) = 2 \<and>
      (1 / 2 :: rat) = of_nat (matches (y_predict ev) (y_true ev)) / of_nat (length (test_indices ev))"
    by (rule exI)
  with 1 e 4 show ?thesis by (intro conjI)
qed

text \<open>
  Claim C10. The evaluation path never fails on the access \<^verbatim>\<open>test_idx[1]\<close>: a partition
  regenerated with five folds has five entries, so index 1 is in bounds. Whenever the
  selected test partition is not empty, the number of predictions is positive and the
  accuracy is a number (the division is not by zero).
\<close>

theorem evaluation_safe:
  "predictions lstm_sift features y \<noteq> Inl FoldIndexError \<and>
   (\<forall>labels skf. argmax_axis1 y = Inr labels \<longrightarrow> StratifiedKFold labels 5 = Inr skf \<longrightarrow>
      length skf = 5 \<and> 1 < length (map snd skf)) \<and>
   (\<forall>ev. predictions lstm_sift features y = Inr ev \<longrightarrow> test_indices ev \<noteq> [] \<longrightarrow>
      0 < length (y_predict ev) \<and> acc ev \<noteq> Inl NotANumber \<and> (\<exists>a. acc ev = Inr a))"
proof (intro conjI allI impI)
  show "predictions lstm_sift features y \<noteq> Inl FoldIndexError"
    by (rule predictions_no_fold_index_error)
next
  fix labels skf
  assume "StratifiedKFold labels 5 = Inr skf"
  then show "length skf = 5" by (rule StratifiedKFold_length)
  then show "1 < length (map snd skf)" by simp
next
  fix ev
  assume p: "predictions lstm_sift features y = Inr ev" and ne: "test_indices ev \<noteq> []"
  show n: "0 < length (y_predict ev)" using predictions_Inr(4)[OF p] ne by simp
  then show "acc ev \<noteq> Inl NotANumber" by (simp add: acc_def)
  show "\<exists>a. acc ev = Inr a" using n by (simp add: acc_def)
qed

theorem evaluation_safe_witness:
  "predictions always_class0 example_features example_y \<noteq> Inl FoldIndexError \<and>
   (\<exists>skf. StratifiedKFold [0, 0, 0, 0, 0, 1, 1, 1, 1, 1] 5 = Inr skf \<and> length skf = 5 \<and>
      1 < length (map snd skf)) \<and>
   (\<exists>ev. predictions always_class0 example_features example_y = Inr ev \<and>
      test_indices ev \<noteq> [] \<and> 0 < length (y_predict ev) \<and> acc ev \<noteq> Inl NotANumber \<and>
      (\<exists>a. acc ev = Inr a))"
proof -
  have l: "argmax_axis1 example_y = Inr [0, 0, 0, 0, 0, 1, 1, 1, 1, 1]" by code_simp
  have s: "StratifiedKFold [0, 0, 0, 0, 0, 1, 1, 1, 1, 1] 5 =
     Inr [([1, 2, 3, 4, 6, 7, 8, 9], [0, 5]), ([0, 2, 3, 4, 5, 7, 8, 9], [1, 6]),
          ([0, 1, 3, 4, 5, 6, 8, 9], [2, 7]), ([0, 1, 2, 4, 5, 6, 7, 9], [3, 8]),
          ([0, 1, 2, 3, 5, 6, 7, 8], [4, 9])]" by code_simp
  have p: "predictions always_class0 example_features example_y =
     Inr \<lparr>test_idx = [[0, 5], [1, 6], [2, 7], [3, 8], [4, 9]], test_indices = [1, 6],
          y_predict = [0, 0], y_true = [0, 1]\<rparr>" by code_simp
  note t = evaluation_safe[of always_class0 example_features example_y]
  from t have 1: "predictions always_class0 example_features example_y \<noteq> Inl FoldIndexError"
    by blast
  from t l s have 2: "\<exists>skf. StratifiedKFold [0, 0, 0, 0, 0, 1, 1, 1, 1, 1] 5 = Inr skf \<and>
      length skf = 5 \<and> 1 < length (map snd skf)" by blast
  let ?ev = "\<lparr>test_idx = [[0, 5], [1, 6], [2, 7], [3, 8], [4, 9]], test_indices = [1, 6],
          y_predict = [0, 0], y_true = [0::nat, 1]\<rparr>"
  have ne: "test_indices ?ev \<noteq> []" by simp
  from t p ne have "0 < length (y_predict ?ev) \<and> acc ?ev \<noteq> Inl NotANumber \<and> (\<exists>a. acc ?ev = Inr a)"
    by blast
  with p ne have 3: "\<exists>ev. predictions always_class0 example_features example_y = Inr ev \<and>
      test_indices ev \<noteq> [] \<and> 0 < length (y_predict ev) \<and> acc ev \<noteq> Inl NotANumber \<and>
      (\<exists>a. acc ev = Inr a)" by blast
  show ?thesis using 1 2 3 by blast
qed

lemma create_result:
  "create_lstm_sift_model nb_frames nb_emotions h =
     (length h,
      h @ [ModelObject \<lparr>layers = [length h + 1, length h + 2, length h + 3, length h + 4, length h + 5],
                        loss = Some categorical_crossentropy, optimizer = Some (length h + 6),
                        metrics = [''accuracy'']\<rparr>,
           LayerObject (LSTM 32 (nb_frames, 10624)),
           LayerObject (Dropout (1 / 2)),
           LayerObject (Dense 16 relu),
           LayerObject (Dropout (1 / 2)),
           LayerObject (Dense nb_emotions softmax),
           OptimizerObject SGD_defaults])"
  by (simp add: create_lstm_sift_model_def new_def add_def compile_def Let_def nth_append
      list_update_append)

lemma model_of_append: "m < length h \<Longrightarrow> model_of (h @ h') m = model_of h m"
  by (simp add: model_of_def nth_append)

lemma layer_of_append: "l < length h \<Longrightarrow> layer_of (h @ h') l = layer_of h l"
  by (simp add: layer_of_def nth_append)

lemma created_model:
  assumes "create_lstm_sift_model nb_frames nb_emotions h = (m, h')"
  shows "m = length h"
    and "length h' = length h + 7"
    and "take (length h) h' = h"
    and "model_of h' m = Some \<lparr>layers = [m + 1, m + 2, m + 3, m + 4, m + 5],
            loss = Some categorical_crossentropy, optimizer = Some (m + 6),
            metrics = [''accuracy'']\<rparr>"
    and "topology h' m = [Some (LSTM 32 (nb_frames, 10624)), Some (Dropout (1 / 2)),
            Some (Dense 16 relu), Some (Dropout (1 / 2)), Some (Dense nb_emotions softmax)]"
    and "optimizer_of h' (m + 6) = Some SGD_defaults"
    and "model_refs h' m = [m, m + 1, m + 2, m + 3, m + 4, m + 5, m + 6]"
proof -
  from assms have m: "m = length h" and h': "h' = h @ [ModelObject \<lparr>layers = [length h + 1, length h + 2, length h + 3, length h + 4, length h + 5],
                        loss = Some categorical_crossentropy, optimizer = Some (length h + 6),
                        metrics = [''accuracy'']\<rparr>,
           LayerObject (LSTM 32 (nb_frames, 10624)),
           LayerObject (Dropout (1 / 2)),
           LayerObject (Dense 16 relu),
           LayerObject (Dropout (1 / 2)),
           LayerObject (Dense nb_emotions softmax),
           OptimizerObject SGD_defaults]"
    unfolding create_result by auto
  show "m = length h" by (rule m)
  show "length h' = length h + 7" by (simp add: h')
  show "take (length h) h' = h" by (simp add: h')
  show mo: "model_of h' m = Some \<lparr>layers = [m + 1, m + 2, m + 3, m + 4, m + 5],
            loss = Some categorical_crossentropy, optimizer = Some (m + 6),
            metrics = [''accuracy'']\<rparr>"
    by (simp add: h' m model_of_def nth_append)
  show "topology h' m = [Some (LSTM 32 (nb_frames, 10624)), Some (Dropout (1 / 2)),
            Some (Dense 16 relu), Some (Dropout (1 / 2)), Some (Dense nb_emotions softmax)]"
    unfolding topology_def mo by (simp add: h' m layer_of_def nth_append)
  show "optimizer_of h' (m + 6) = Some SGD_defaults"
    by (simp add: h' m optimizer_of_def nth_append)
  show "model_refs h' m = [m, m + 1, m + 2, m + 3, m + 4, m + 5, m + 6]"
    unfolding model_refs_def mo by simp
qed

text \<open>
  Claim C7. Whatever the store, the factory returns a model whose stack is: a recurrent
  layer of 32 units over \<open>nb_frames\<close> steps (of 10624 features each) that gives one vector
  of width 32, dropout 0.5, a dense layer of 16 units with rectified-linear activation,
  dropout 0.5, and a dense softmax layer of \<open>nb_emotions\<close> units; the model is compiled
  with categorical cross-entropy and an SGD optimizer with Keras's defaults. Every
  object of the model is newly allocated and the store before the call is left as it
  was; a second call returns a model that shares no layer (hence no weights) and no
  optimizer with the first, and leaves the first model unchanged.
\<close>

theorem factory_topology:
  "(\<exists>m h'. create_lstm_sift_model nb_frames nb_emotions h = (m, h') \<and>
      topology h' m = [Some (LSTM 32 (nb_frames, 10624)), Some (Dropout (1 / 2)),
                       Some (Dense 16 relu), Some (Dropout (1 / 2)),
                       Some (Dense nb_emotions softmax)] \<and>
      output_shapes [LSTM 32 (nb_frames, 10624), Dropout (1 / 2), Dense 16 relu, Dropout (1 / 2),
                     Dense nb_emotions softmax] [nb_frames, 10624]
        = [[32], [32], [16], [16], [nb_emotions]] \<and>
      (\<exists>s sgd. model_of h' m = Some s \<and> loss s = Some categorical_crossentropy \<and>
         optimizer s = Some sgd \<and>
         optimizer_of h' sgd = Some \<lparr>lr = 1 / 100, momentum = 0, decay = 0, nesterov = False\<rparr>) \<and>
      take (length h) h' = h \<and>
      list_all (\<lambda>r. length h \<le> r \<and> r < length h') (model_refs h' m) \<and>
      (\<exists>m2 h''. create_lstm_sift_model nb_frames nb_emotions h' = (m2, h'') \<and>
         set (model_refs h'' m2) \<inter> set (model_refs h' m) = {} \<and>
         set (model_refs h'' m2) \<inter> set (model_refs h'' m) = {} \<and>
         take (length h') h'' = h' \<and>
         model_of h'' m = model_of h' m \<and> topology h'' m = topology h' m))"
proof -
  obtain m h' where c1: "create_lstm_sift_model nb_frames nb_emotions h = (m, h')"
    by (cases "create_lstm_sift_model nb_frames nb_emotions h")
  obtain m2 h'' where c2: "create_lstm_sift_model nb_frames nb_emotions h' = (m2, h'')"
    by (cases "create_lstm_sift_model nb_frames nb_emotions h'")
  note f1 = created_model[OF c1]
  note f2 = created_model[OF c2]
  have shapes: "output_shapes [LSTM 32 (nb_frames, 10624), Dropout (1 / 2), Dense 16 relu,
                     Dropout (1 / 2), Dense nb_emotions softmax] [nb_frames, 10624]
        = [[32], [32], [16], [16], [nb_emotions]]"
    by simp
  have opt: "\<exists>s sgd. model_of h' m = Some s \<and> loss s = Some categorical_crossentropy \<and>
         optimizer s = Some sgd \<and>
         optimizer_of h' sgd = Some \<lparr>lr = 1 / 100, momentum = 0, decay = 0, nesterov = False\<rparr>"
    using f1(4,6) by (simp add: SGD_defaults_def)
  have fresh: "list_all (\<lambda>r. length h \<le> r \<and> r < length h') (model_refs h' m)"
    unfolding f1(7) using f1(1,2) by simp
  have h'': "h'' = h' @ drop (length h') h''"
    using f2(3) by (metis append_take_drop_id)
  have mlt: "m < length h'" using f1(1,2) by simp
  have keep: "model_of h'' m = model_of h' m"
    using model_of_append[OF mlt, of "drop (length h') h''"] h'' by simp
  have lkeep: "\<And>l. l < length h' \<Longrightarrow> layer_of h'' l = layer_of h' l"
    using layer_of_append[of _ h' "drop (length h') h''"] h'' by simp
  have tkeep: "topology h'' m = topology h' m"
    unfolding topology_def keep f1(4) using f1(1,2) by (simp add: lkeep)
  have refs1: "model_refs h'' m = model_refs h' m"
    unfolding model_refs_def keep ..
  have disj: "set (model_refs h'' m2) \<inter> set (model_refs h' m) = {}"
    unfolding f2(7) f1(7) using f2(1) f1(1,2) by simp
  then have disj2: "set (model_refs h'' m2) \<inter> set (model_refs h'' m) = {}"
    by (simp add: refs1)
  show ?thesis
    using c1 c2 f1(5) shapes opt f1(3) fresh disj disj2 f2(3) keep tkeep by blast
qed

theorem factory_topology_witness:
  "\<exists>m h'. create_lstm_sift_model 10 6 [] = (m, h') \<and>
      topology h' m = [Some (LSTM 32 (10, 10624)), Some (Dropout (1 / 2)),
                       Some (Dense 16 relu), Some (Dropout (1 / 2)),
                       Some (Dense 6 softmax)] \<and>
      output_shapes [LSTM 32 (10, 10624), Dropout (1 / 2), Dense 16 relu, Dropout (1 / 2),
                     Dense 6 softmax] [10, 10624]
        = [[32], [32], [16], [16], [6]] \<and>
      (\<exists>s sgd. model_of h' m = Some s \<and> loss s = Some categorical_crossentropy \<and>
         optimizer s = Some sgd \<and>
         optimizer_of h' sgd = Some \<lparr>lr = 1 / 100, momentum = 0, decay = 0, nesterov = False\<rparr>) \<and>
      take (length ([] :: heap)) h' = [] \<and>
      list_all (\<lambda>r. length ([] :: heap) \<le> r \<and> r < length h') (model_refs h' m) \<and>
      (\<exists>m2 h''. create_lstm_sift_model 10 6 h' = (m2, h'') \<and>
         set (model_refs h'' m2) \<inter> set (model_refs h' m) = {} \<and>
         set (model_refs h'' m2) \<inter> set (model_refs h'' m) = {} \<and>
         take (length h') h'' = h' \<and>
         model_of h'' m = model_of h' m \<and> topology h'' m = topology h' m)"
  by (rule factory_topology[of 10 6 "[]"])

lemma on_epoch_end_early:
  assumes "on_epoch_end logs w cb st = (cb', st')"
  shows "early_of [cb'] = map (es_step logs) (early_of [cb])"
    and "stop_training st' = (stop_training st \<or> (\<exists>es\<in>set (early_of [cb]). es_fires logs es))"
  using assms
  by (cases cb; auto simp: Let_def es_step_def es_fires_def es_improved_def
      CustomVerbose_on_epoch_end_def split: if_splits)+

lemma early_of_Cons: "early_of (cb # cbs) = early_of [cb] @ early_of cbs"
  by (cases cb) simp_all

lemma callbacks_on_epoch_end_early:
  "callbacks_on_epoch_end logs w cbs st = (cbs', st') \<Longrightarrow>
     early_of cbs' = map (es_step logs) (early_of cbs) \<and>
     stop_training st' = (stop_training st \<or> (\<exists>es\<in>set (early_of cbs). es_fires logs es))"
proof (induction cbs arbitrary: st cbs' st')
  case Nil
  then show ?case by simp
next
  case (Cons cb cbs)
  obtain cb1 st1 where 1: "on_epoch_end logs w cb st = (cb1, st1)"
    by (cases "on_epoch_end logs w cb st")
  obtain cbs2 st2 where 2: "callbacks_on_epoch_end logs w cbs st1 = (cbs2, st2)"
    by (cases "callbacks_on_epoch_end logs w cbs st1")
  from Cons.prems 1 2 have r: "cbs' = cb1 # cbs2" "st' = st2" by simp_all
  note a = on_epoch_end_early[OF 1]
  note b = Cons.IH[OF 2]
  have "early_of cbs' = early_of [cb1] @ early_of cbs2"
    unfolding r by (rule early_of_Cons)
  also have "\<dots> = map (es_step logs) (early_of [cb]) @ map (es_step logs) (early_of cbs)"
    using a(1) b by simp
  also have "\<dots> = map (es_step logs) (early_of (cb # cbs))"
    using early_of_Cons[of cb cbs] by simp
  finally have e: "early_of cbs' = map (es_step logs) (early_of (cb # cbs))" .
  have "stop_training st' = (stop_training st \<or> (\<exists>es\<in>set (early_of [cb] @ early_of cbs). es_fires logs es))"
    unfolding r using a(2) b by auto
  then have s: "stop_training st' = (stop_training st \<or> (\<exists>es\<in>set (early_of (cb # cbs)). es_fires logs es))"
    using early_of_Cons[of cb cbs] by simp
  from e s show ?case by simp
qed


lemma stall_count_le: "stall_count v e \<le> e"
  by (induction e) auto

lemma stall_count_window:
  "e - stall_count v e \<le> i \<Longrightarrow> i < e \<Longrightarrow> no_improvement v i"
proof (induction e)
  case 0
  then show ?case by simp
next
  case (Suc e)
  show ?case
  proof (cases "no_improvement v e")
    case True
    show ?thesis
    proof (cases "i = e")
      case True
      with \<open>no_improvement v e\<close> show ?thesis by simp
    next
      case False
      with Suc.prems True have "e - stall_count v e \<le> i" "i < e" by auto
      then show ?thesis by (rule Suc.IH)
    qed
  next
    case False
    with Suc.prems show ?thesis by simp
  qed
qed

lemma window_stall_count:
  "k \<le> e \<Longrightarrow> (\<And>i. e - k \<le> i \<Longrightarrow> i < e \<Longrightarrow> no_improvement v i) \<Longrightarrow> k \<le> stall_count v e"
proof (induction e arbitrary: k)
  case 0
  then show ?case by simp
next
  case (Suc e)
  show ?case
  proof (cases k)
    case 0
    then show ?thesis by simp
  next
    case (Suc k')
    have ne: "no_improvement v e" using Suc.prems(2)[of e] \<open>k = Suc k'\<close> by simp
    have "k' \<le> stall_count v e"
    proof (rule Suc.IH)
      show "k' \<le> e" using Suc.prems(1) \<open>k = Suc k'\<close> by simp
      fix i assume "e - k' \<le> i" "i < e"
      then show "no_improvement v i" using Suc.prems(2)[of i] \<open>k = Suc k'\<close> by simp
    qed
    with ne \<open>k = Suc k'\<close> show ?thesis by simp
  qed
qed

text \<open>What one epoch does to an early-stopping callback that watches the validation loss.\<close>

lemma es_epoch:
  assumes "es_monitor es = ValLoss" "es_min_delta es = 0"
    and "es_wait es = stall_count (val_losses outcome) e"
    and "es_best es = best_before (val_losses outcome) e"
  shows "es_monitor (es_step (fst (outcome e)) es) = ValLoss"
    and "es_min_delta (es_step (fst (outcome e)) es) = 0"
    and "es_patience (es_step (fst (outcome e)) es) = es_patience es"
    and "es_wait (es_step (fst (outcome e)) es) = stall_count (val_losses outcome) (Suc e)"
    and "es_best (es_step (fst (outcome e)) es) = best_before (val_losses outcome) (Suc e)"
    and "0 < es_patience es \<Longrightarrow>
         es_fires (fst (outcome e)) es = (es_patience es \<le> stall_count (val_losses outcome) (Suc e))"
proof -
  let ?v = "val_losses outcome"
  have imp: "es_improved (fst (outcome e)) es = (\<not> no_improvement ?v e)"
    using assms
    by (cases "best_before ?v e") (simp_all add: es_improved_def no_improvement_def val_losses_def)
  show "es_monitor (es_step (fst (outcome e)) es) = ValLoss"
    using assms(1) by (simp add: es_step_def)
  show "es_min_delta (es_step (fst (outcome e)) es) = 0"
    using assms(2) by (simp add: es_step_def)
  show "es_patience (es_step (fst (outcome e)) es) = es_patience es"
    by (simp add: es_step_def)
  show "es_wait (es_step (fst (outcome e)) es) = stall_count ?v (Suc e)"
    using assms(3) by (simp add: es_step_def imp)
  show "es_best (es_step (fst (outcome e)) es) = best_before ?v (Suc e)"
    using assms(1,4)
    by (cases "best_before ?v e")
      (auto simp: es_step_def imp no_improvement_def val_losses_def)
  assume "0 < es_patience es"
  then show "es_fires (fst (outcome e)) es = (es_patience es \<le> stall_count ?v (Suc e))"
    using assms(3) by (simp add: es_fires_def imp)
qed


lemma fit_loop_early:
  assumes "early_of cbs = [es]" "es_monitor es = ValLoss" "es_min_delta es = 0"
    and "es_patience es = p" "0 < p"
    and "es_wait es = stall_count (val_losses outcome) e"
    and "es_best es = best_before (val_losses outcome) e"
    and "stall_count (val_losses outcome) e < p"
    and "\<not> stop_training st"
    and "history = map (\<lambda>i. fst (outcome i)) [0..<e]"
    and "fit_loop outcome n e cbs st history = (cbs', st', history')"
  shows "history' = map (\<lambda>i. fst (outcome i)) [0..<length history'] \<and>
         e \<le> length history' \<and> length history' \<le> e + n \<and> (0 < n \<longrightarrow> e < length history') \<and>
         (\<forall>k. e \<le> k \<and> k < length history' \<longrightarrow> stall_count (val_losses outcome) k < p) \<and>
         (length history' < e + n \<longrightarrow> p \<le> stall_count (val_losses outcome) (length history'))"
  using assms
proof (induction n arbitrary: e cbs es st history)
  case 0
  then have h: "history' = map (\<lambda>i. fst (outcome i)) [0..<e]" by simp
  then have "length history' = e" by simp
  with h show ?case by simp
next
  case (Suc n)
  let ?v = "val_losses outcome"
  let ?logs = "fst (outcome e)"
  obtain cbs1 st1 where ce: "callbacks_on_epoch_end ?logs (snd (outcome e)) cbs st = (cbs1, st1)"
    by (cases "callbacks_on_epoch_end ?logs (snd (outcome e)) cbs st")
  note step = callbacks_on_epoch_end_early[OF ce]
  note es' = es_epoch[OF Suc.prems(2,3,6,7)]
  have early1: "early_of cbs1 = [es_step ?logs es]" using step Suc.prems(1) by simp
  have stop1: "stop_training st1 = (p \<le> stall_count ?v (Suc e))"
    using step Suc.prems(1,9) es'(6) Suc.prems(4,5) by simp
  have hist1: "history @ [?logs] = map (\<lambda>i. fst (outcome i)) [0..<Suc e]"
    using Suc.prems(10) by simp
  show ?case
  proof (cases "stop_training st1")
    case True
    with Suc.prems(11) ce have h': "history' = history @ [?logs]" by simp
    then have len: "length history' = Suc e" using Suc.prems(10) by simp
    have "history' = map (\<lambda>i. fst (outcome i)) [0..<length history']"
      unfolding len using h' hist1 by simp
    moreover have "\<forall>k. e \<le> k \<and> k < length history' \<longrightarrow> stall_count ?v k < p"
      unfolding len using Suc.prems(8) by (auto simp: less_Suc_eq_le)
    moreover have "p \<le> stall_count ?v (length history')"
      unfolding len using True stop1 by simp
    ultimately show ?thesis using len by simp
  next
    case False
    with Suc.prems(11) ce
    have rec: "fit_loop outcome n (Suc e) cbs1 st1 (history @ [?logs]) = (cbs', st', history')"
      by simp
    have lt: "stall_count ?v (Suc e) < p" using False stop1 by simp
    have p': "es_patience (es_step ?logs es) = p" using es'(3) Suc.prems(4) by simp
    note ih = Suc.IH[OF early1 es'(1) es'(2) p' Suc.prems(5) es'(4) es'(5) lt False hist1 rec]
    have "\<forall>k. e \<le> k \<and> k < length history' \<longrightarrow> stall_count ?v k < p"
    proof (intro allI impI)
      fix k assume k: "e \<le> k \<and> k < length history'"
      show "stall_count ?v k < p"
      proof (cases "k = e")
        case True
        then show ?thesis using Suc.prems(8) by simp
      next
        case False
        with k have "Suc e \<le> k \<and> k < length history'" by simp
        with ih show ?thesis by blast
      qed
    qed
    with ih show ?thesis by simp
  qed
qed


lemma early_configured_iff:
  "early_configured cbs =
     (\<exists>es. early_of cbs = [es] \<and> es_monitor es = ValLoss \<and> es_min_delta es = 0 \<and>
           es_patience es = 50)"
  by (auto simp: early_configured_def split: list.splits)

lemma early_configured_callbacks: "early_configured (callbacks b)"
  by (simp add: early_configured_def callbacks_def EarlyStopping_patience_def Let_def)

lemma early_of_on_train_begin:
  "early_of (map on_train_begin cbs) = map (\<lambda>es. es\<lparr>es_wait := 0, es_best := None\<rparr>) (early_of cbs)"
proof (induction cbs)
  case Nil
  then show ?case by simp
next
  case (Cons cb cbs)
  then show ?case by (cases cb) simp_all
qed

lemma early_configured_step:
  assumes "early_configured cbs" "callbacks_on_epoch_end logs w cbs st = (cbs', st')"
  shows "early_configured cbs'"
proof -
  from assms(1) obtain es where es: "early_of cbs = [es]" "es_monitor es = ValLoss"
    "es_min_delta es = 0" "es_patience es = 50"
    unfolding early_configured_iff by blast
  from callbacks_on_epoch_end_early[OF assms(2)] es(1)
  have "early_of cbs' = [es_step logs es]" by simp
  moreover have "es_monitor (es_step logs es) = ValLoss" "es_min_delta (es_step logs es) = 0"
    "es_patience (es_step logs es) = 50"
    using es(2,3,4) by (simp_all add: es_step_def)
  ultimately show ?thesis unfolding early_configured_iff by blast
qed

lemma early_configured_fit_loop:
  "early_configured cbs \<Longrightarrow> fit_loop outcome n e cbs st history = (cbs', st', history') \<Longrightarrow>
     early_configured cbs'"
proof (induction n arbitrary: e cbs st history)
  case 0
  then show ?case by simp
next
  case (Suc n)
  obtain cbs1 st1 where ce:
    "callbacks_on_epoch_end (fst (outcome e)) (snd (outcome e)) cbs st = (cbs1, st1)"
    by (cases "callbacks_on_epoch_end (fst (outcome e)) (snd (outcome e)) cbs st")
  note c1 = early_configured_step[OF Suc.prems(1) ce]
  show ?case
  proof (cases "stop_training st1")
    case True
    with Suc.prems(2) ce c1 show ?thesis by auto
  next
    case False
    with Suc.prems(2) ce
    have "fit_loop outcome n (Suc e) cbs1 st1 (history @ [fst (outcome e)]) = (cbs', st', history')"
      by simp
    from Suc.IH[OF c1 this] show ?thesis .
  qed
qed

lemma early_configured_on_train_begin:
  "early_configured cbs \<Longrightarrow> early_configured (map on_train_begin cbs)"
  unfolding early_configured_iff early_of_on_train_begin by auto

lemma early_configured_fit:
  assumes "early_configured cbs"
  shows "early_configured (fst (fit outcome n cbs fl))"
proof -
  obtain cbs' st' history' where r: "fit outcome n cbs fl = (cbs', st', history')"
    by (cases "fit outcome n cbs fl")
  then have "fit_loop outcome n 0 (map on_train_begin cbs)
      \<lparr>stop_training = False, files = fl\<rparr> [] = (cbs', st', history')"
    by (simp add: fit_def)
  from early_configured_fit_loop[OF early_configured_on_train_begin[OF assms] this] r
  show ?thesis by simp
qed

lemma fit_callbacks_epochs:
  fixes outcome :: "nat \<Rightarrow> epoch_logs \<times> 'w"
  assumes "0 < n" "early_configured cbs"
  shows "snd (snd (fit outcome n cbs fl))
           = map (\<lambda>i. fst (outcome i)) [0..<epochs_run (fit outcome n cbs fl)]"
    and "0 < epochs_run (fit outcome n cbs fl)"
    and "epochs_run (fit outcome n cbs fl) \<le> n"
    and "k < epochs_run (fit outcome n cbs fl) \<Longrightarrow> stall_count (val_losses outcome) k < 50"
    and "epochs_run (fit outcome n cbs fl) < n \<Longrightarrow>
           50 \<le> stall_count (val_losses outcome) (epochs_run (fit outcome n cbs fl))"
proof -
  obtain cbs' st' history' where r: "fit outcome n cbs fl = (cbs', st', history')"
    by (cases "fit outcome n cbs fl")
  then have loop: "fit_loop outcome n 0 (map on_train_begin cbs)
      \<lparr>stop_training = False, files = fl\<rparr> [] = (cbs', st', history')"
    by (simp add: fit_def)
  from assms(2) obtain es where es: "early_of cbs = [es]" "es_monitor es = ValLoss"
    "es_min_delta es = 0" "es_patience es = 50"
    unfolding early_configured_iff by blast
  have e0: "early_of (map on_train_begin cbs) = [es\<lparr>es_wait := 0, es_best := None\<rparr>]"
    unfolding early_of_on_train_begin es(1) by simp
  have "history' = map (\<lambda>i. fst (outcome i)) [0..<length history'] \<and>
         0 \<le> length history' \<and> length history' \<le> 0 + n \<and> (0 < n \<longrightarrow> 0 < length history') \<and>
         (\<forall>k. 0 \<le> k \<and> k < length history' \<longrightarrow> stall_count (val_losses outcome) k < 50) \<and>
         (length history' < 0 + n \<longrightarrow> 50 \<le> stall_count (val_losses outcome) (length history'))"
    by (rule fit_loop_early[OF e0 _ _ _ _ _ _ _ _ _ loop]) (simp_all add: es)
  then show "snd (snd (fit outcome n cbs fl))
           = map (\<lambda>i. fst (outcome i)) [0..<epochs_run (fit outcome n cbs fl)]"
    and "0 < epochs_run (fit outcome n cbs fl)"
    and "epochs_run (fit outcome n cbs fl) \<le> n"
    and "k < epochs_run (fit outcome n cbs fl) \<Longrightarrow> stall_count (val_losses outcome) k < 50"
    and "epochs_run (fit outcome n cbs fl) < n \<Longrightarrow>
           50 \<le> stall_count (val_losses outcome) (epochs_run (fit outcome n cbs fl))"
    using assms(1) by (simp_all add: epochs_run_def r)
qed

text \<open>
  Claim C3, as the script has it. The early-stopping callback is built with its patience
  only, so it watches the validation loss. The script's callbacks (with or without the
  checkpoint) are set up so, and a fit leaves them so for the next fold. With callbacks
  set up so, a fit of up to 300 epochs runs at least one epoch and records the logs of
  the epochs it ran, in order; it ends before epoch 300 only when the validation loss
  failed to improve on its best earlier value in each of the last 50 epochs run; and
  whenever 50 consecutive epochs without such an improvement end within the first 300
  epochs, the fit has stopped by the end of them.
\<close>

theorem early_stopping_on_val_loss:
  fixes outcome :: "nat \<Rightarrow> epoch_logs \<times> 'w"
  shows "early_configured (callbacks b) \<and>
         (early_configured cbs \<longrightarrow>
            early_configured (fst (fit outcome 300 cbs fl)) \<and>
            snd (snd (fit outcome 300 cbs fl))
              = map (\<lambda>i. fst (outcome i)) [0..<epochs_run (fit outcome 300 cbs fl)] \<and>
            0 < epochs_run (fit outcome 300 cbs fl) \<and>
            epochs_run (fit outcome 300 cbs fl) \<le> 300 \<and>
            (epochs_run (fit outcome 300 cbs fl) < 300 \<longrightarrow>
               50 \<le> epochs_run (fit outcome 300 cbs fl) \<and>
               (\<forall>i. epochs_run (fit outcome 300 cbs fl) - 50 \<le> i \<and>
                    i < epochs_run (fit outcome 300 cbs fl)
                      \<longrightarrow> no_improvement (val_losses outcome) i)) \<and>
            (\<forall>n. 50 \<le> n \<and> n \<le> 300 \<and>
                 (\<forall>i. n - 50 \<le> i \<and> i < n \<longrightarrow> no_improvement (val_losses outcome) i)
                   \<longrightarrow> epochs_run (fit outcome 300 cbs fl) \<le> n))"
proof (intro conjI impI)
  show "early_configured (callbacks b)" by (rule early_configured_callbacks)
next
  assume conf: "early_configured cbs"
  let ?N = "epochs_run (fit outcome 300 cbs fl)"
  let ?v = "val_losses outcome"
  have pos: "0 < (300::nat)" by simp
  note f = fit_callbacks_epochs[OF pos conf, where outcome=outcome and fl=fl]
  show "early_configured (fst (fit outcome 300 cbs fl))"
    using conf by (rule early_configured_fit)
  show "snd (snd (fit outcome 300 cbs fl)) = map (\<lambda>i. fst (outcome i)) [0..<?N]"
    by (rule f(1))
  show "0 < ?N" by (rule f(2))
  show "?N \<le> 300" by (rule f(3))
  show "\<forall>n. 50 \<le> n \<and> n \<le> 300 \<and> (\<forall>i. n - 50 \<le> i \<and> i < n \<longrightarrow> no_improvement ?v i)
                \<longrightarrow> ?N \<le> n"
  proof (intro allI impI)
    fix n assume n: "50 \<le> n \<and> n \<le> 300 \<and> (\<forall>i. n - 50 \<le> i \<and> i < n \<longrightarrow> no_improvement ?v i)"
    then have "50 \<le> stall_count ?v n"
      using window_stall_count[of 50 n ?v] by blast
    show "?N \<le> n"
    proof (rule ccontr)
      assume "\<not> ?N \<le> n"
      then have "n < ?N" by simp
      then have "stall_count ?v n < 50" by (rule f(4))
      with \<open>50 \<le> stall_count ?v n\<close> show False by simp
    qed
  qed
  assume lt: "?N < 300"
  then have sc: "50 \<le> stall_count ?v ?N" by (rule f(5))
  with stall_count_le[of ?v ?N] show "50 \<le> ?N" by simp
  show "\<forall>i. ?N - 50 \<le> i \<and> i < ?N \<longrightarrow> no_improvement ?v i"
  proof (intro allI impI)
    fix i assume i: "?N - 50 \<le> i \<and> i < ?N"
    with sc have "?N - stall_count ?v ?N \<le> i" by arith
    with i show "no_improvement ?v i" using stall_count_window by blast
  qed
qed

lemma best_before_stalled_loss: "best_before (val_losses stalled_loss) (Suc e) = Some 1"
  by (induction e) (simp_all add: val_losses_def stalled_loss_def)

lemma no_improvement_stalled_loss:
  assumes "0 < i"
  shows "no_improvement (val_losses stalled_loss) i"
proof (cases i)
  case 0
  with assms show ?thesis by simp
next
  case (Suc e)
  show ?thesis
    unfolding Suc no_improvement_def best_before_stalled_loss
    by (simp add: val_losses_def stalled_loss_def)
qed

text \<open>
  A fold whose validation loss never changes stops after 51 epochs at the latest: the
  first epoch sets the best value and the next 50 do not improve on it.
\<close>

theorem early_stopping_on_val_loss_witness:
  "0 < epochs_run (fit stalled_loss 300 (callbacks save_best_model) no_files) \<and>
   epochs_run (fit stalled_loss 300 (callbacks save_best_model) no_files) \<le> 51"
proof -
  have w: "\<forall>i. 51 - 50 \<le> i \<and> i < 51 \<longrightarrow> no_improvement (val_losses stalled_loss) i"
    by (simp add: no_improvement_stalled_loss)
  have b: "(50::nat) \<le> 51 \<and> (51::nat) \<le> 300" by simp
  have c: "early_configured (callbacks save_best_model)" by (rule early_configured_callbacks)
  note t = early_stopping_on_val_loss[where outcome=stalled_loss and cbs="callbacks save_best_model"
      and fl=no_files and b=save_best_model]
  from t c have 1: "0 < epochs_run (fit stalled_loss 300 (callbacks save_best_model) no_files)"
    by blast
  from t c have "\<forall>n. 50 \<le> n \<and> n \<le> 300 \<and>
              (\<forall>i. n - 50 \<le> i \<and> i < n \<longrightarrow> no_improvement (val_losses stalled_loss) i)
                \<longrightarrow> epochs_run (fit stalled_loss 300 (callbacks save_best_model) no_files) \<le> n"
    by blast
  with w b have 2: "epochs_run (fit stalled_loss 300 (callbacks save_best_model) no_files) \<le> 51"
    by blast
  from 1 2 show ?thesis by (rule conjI)
qed

lemma best_before_stalled_accuracy:
  "best_before (val_losses stalled_accuracy) (Suc e) = Some (1 / (of_nat e + 1))"
proof (induction e)
  case 0
  then show ?case by (simp add: val_losses_def stalled_accuracy_def)
next
  case (Suc e)
  have "(1::rat) / (of_nat (Suc e) + 1) < 1 / (of_nat e + 1)"
    by (simp add: frac_less2)
  with Suc show ?case by (simp add: val_losses_def stalled_accuracy_def)
qed

lemma improvement_stalled_accuracy: "\<not> no_improvement (val_losses stalled_accuracy) e"
proof (cases e)
  case 0
  then show ?thesis by (simp add: no_improvement_def)
next
  case (Suc e')
  have "(1::rat) / (of_nat (Suc e') + 1) < 1 / (of_nat e' + 1)"
    by (simp add: frac_less2)
  then show ?thesis
    unfolding Suc no_improvement_def best_before_stalled_accuracy
    by (simp add: val_losses_def stalled_accuracy_def)
qed

lemma stall_count_stalled_accuracy: "stall_count (val_losses stalled_accuracy) e = 0"
  by (cases e) (simp_all add: improvement_stalled_accuracy)

lemma val_accs_stalled_accuracy: "map (val_accs stalled_accuracy) [0..<n] = replicate n (1 / 2)"
  by (induction n) (simp_all add: val_accs_def stalled_accuracy_def replicate_append_same)

text \<open>
  A fold whose validation accuracy is one half at every epoch, so that it never
  improves, while its validation loss shrinks at every epoch: the fit runs all 300
  epochs.
\<close>

theorem early_stopping_counterexample:
  "map (val_accs stalled_accuracy) [0..<300] = replicate 300 (1 / 2) \<and>
   epochs_run (fit stalled_accuracy 300 (callbacks save_best_model) no_files) = 300"
proof -
  have pos: "0 < (300::nat)" by simp
  note f = fit_callbacks_epochs[OF pos early_configured_callbacks, where outcome=stalled_accuracy and b1=save_best_model and fl=no_files]
  have "\<not> epochs_run (fit stalled_accuracy 300 (callbacks save_best_model) no_files) < 300"
    using f(5) by (auto simp: stall_count_stalled_accuracy)
  with f(3) have "epochs_run (fit stalled_accuracy 300 (callbacks save_best_model) no_files) = 300"
    by simp
  then show ?thesis using val_accs_stalled_accuracy[of 300] by simp
qed

lemma checkpoints_of_Cons: "checkpoints_of (cb # cbs) = checkpoints_of [cb] @ checkpoints_of cbs"
  by (cases cb) simp_all

lemma on_epoch_end_checkpoint:
  assumes "on_epoch_end logs w cb st = (cb', st')"
  shows "checkpoints_of [cb'] = map (mc_step logs) (checkpoints_of [cb])"
    and "files st' = fold (mc_write logs w) (checkpoints_of [cb]) (files st)"
proof -
  show "checkpoints_of [cb'] = map (mc_step logs) (checkpoints_of [cb])"
    using assms
    by (cases cb)
      (auto simp: Let_def mc_step_def mc_saves_def CustomVerbose_on_epoch_end_def split: if_splits)
  show "files st' = fold (mc_write logs w) (checkpoints_of [cb]) (files st)"
    using assms
    by (cases cb)
      (auto simp: Let_def mc_write_def mc_saves_def CustomVerbose_on_epoch_end_def split: if_splits)
qed

lemma callbacks_on_epoch_end_checkpoint:
  "callbacks_on_epoch_end logs w cbs st = (cbs', st') \<Longrightarrow>
     checkpoints_of cbs' = map (mc_step logs) (checkpoints_of cbs) \<and>
     files st' = fold (mc_write logs w) (checkpoints_of cbs) (files st)"
proof (induction cbs arbitrary: st cbs' st')
  case Nil
  then show ?case by simp
next
  case (Cons cb cbs)
  obtain cb1 st1 where 1: "on_epoch_end logs w cb st = (cb1, st1)"
    by (cases "on_epoch_end logs w cb st")
  obtain cbs2 st2 where 2: "callbacks_on_epoch_end logs w cbs st1 = (cbs2, st2)"
    by (cases "callbacks_on_epoch_end logs w cbs st1")
  from Cons.prems 1 2 have r: "cbs' = cb1 # cbs2" "st' = st2" by simp_all
  note a = on_epoch_end_checkpoint[OF 1]
  note b = Cons.IH[OF 2]
  have "checkpoints_of cbs' = checkpoints_of [cb1] @ checkpoints_of cbs2"
    unfolding r by (rule checkpoints_of_Cons)
  also have "\<dots> = map (mc_step logs) (checkpoints_of [cb] @ checkpoints_of cbs)"
    using a(1) b by simp
  finally have c: "checkpoints_of cbs' = map (mc_step logs) (checkpoints_of (cb # cbs))"
    using checkpoints_of_Cons[of cb cbs] by simp
  have "files st' = fold (mc_write logs w) (checkpoints_of [cb] @ checkpoints_of cbs) (files st)"
    unfolding r using a(2) b by simp
  then have f: "files st' = fold (mc_write logs w) (checkpoints_of (cb # cbs)) (files st)"
    using checkpoints_of_Cons[of cb cbs] by simp
  from c f show ?case by simp
qed

lemma checkpoints_of_on_train_begin:
  "checkpoints_of (map on_train_begin cbs) = checkpoints_of cbs"
proof (induction cbs)
  case Nil
  then show ?case by simp
next
  case (Cons cb cbs)
  then show ?case by (cases cb) simp_all
qed

lemma fit_loop_no_checkpoint:
  "checkpoints_of cbs = [] \<Longrightarrow> fit_loop outcome n e cbs st history = (cbs', st', history') \<Longrightarrow>
     checkpoints_of cbs' = [] \<and> files st' = files st"
proof (induction n arbitrary: e cbs st history)
  case 0
  then show ?case by simp
next
  case (Suc n)
  obtain cbs1 st1 where ce:
    "callbacks_on_epoch_end (fst (outcome e)) (snd (outcome e)) cbs st = (cbs1, st1)"
    by (cases "callbacks_on_epoch_end (fst (outcome e)) (snd (outcome e)) cbs st")
  from callbacks_on_epoch_end_checkpoint[OF ce] Suc.prems(1)
  have 1: "checkpoints_of cbs1 = []" "files st1 = files st" by simp_all
  show ?case
  proof (cases "stop_training st1")
    case True
    with Suc.prems(2) ce 1 show ?thesis by auto
  next
    case False
    with Suc.prems(2) ce
    have "fit_loop outcome n (Suc e) cbs1 st1 (history @ [fst (outcome e)]) = (cbs', st', history')"
      by simp
    from Suc.IH[OF 1(1) this] 1(2) show ?thesis by simp
  qed
qed

lemma fit_no_checkpoint:
  assumes "checkpoints_of cbs = []" "fit outcome n cbs fl = (cbs', st', history')"
  shows "checkpoints_of cbs' = []" and "files st' = fl"
proof -
  have c: "checkpoints_of (map on_train_begin cbs) = []"
    using assms(1) by (simp add: checkpoints_of_on_train_begin)
  from assms(2) have l: "fit_loop outcome n 0 (map on_train_begin cbs)
      \<lparr>stop_training = False, files = fl\<rparr> [] = (cbs', st', history')"
    by (simp add: fit_def)
  from fit_loop_no_checkpoint[OF c l]
  show "checkpoints_of cbs' = []" and "files st' = fl" by simp_all
qed

lemma train_folds_no_checkpoint:
  "checkpoints_of cbs = [] \<Longrightarrow> train_folds outcome n fs cbs fl hs = (cbs', fl', hs') \<Longrightarrow> fl' = fl"
proof (induction fs arbitrary: cbs fl hs)
  case Nil
  then show ?case by simp
next
  case (Cons f fs)
  obtain cbs1 st1 h1 where ft: "fit (outcome f) n cbs fl = (cbs1, st1, h1)"
    by (cases "fit (outcome f) n cbs fl")
  note a = fit_no_checkpoint[OF Cons.prems(1) ft]
  from Cons.prems(2) ft
  have "train_folds outcome n fs cbs1 (files st1) (hs @ [h1]) = (cbs', fl', hs')" by simp
  from Cons.IH[OF a(1) this] a(2) show ?case by simp
qed

lemma train_crossval_Inr:
  assumes "train_crossval outcome y bs n cbs k sb wp fl = Inr (skf, hs, fl')"
  shows "\<exists>labels cbs'. argmax_axis1 y = Inr labels \<and> StratifiedKFold labels k = Inr skf \<and>
           train_folds outcome n [0..<length skf] cbs fl [] = (cbs', fl', hs)"
proof (cases "argmax_axis1 y")
  case (Inl e)
  with assms show ?thesis by (simp add: train_crossval_def)
next
  case labels: (Inr labels)
  show ?thesis
  proof (cases "StratifiedKFold labels k")
    case (Inl e)
    with assms labels show ?thesis by (simp add: train_crossval_def)
  next
    case (Inr skf0)
    obtain cbs' fl0 hs0 where t: "train_folds outcome n [0..<length skf0] cbs fl [] = (cbs', fl0, hs0)"
      by (cases "train_folds outcome n [0..<length skf0] cbs fl []")
    with assms labels Inr have "skf0 = skf" "hs0 = hs" "fl0 = fl'"
      by (simp_all add: train_crossval_def)
    with labels Inr t show ?thesis by blast
  qed
qed

lemma train_crossval_no_checkpoint:
  assumes "checkpoints_of cbs = []"
    and "train_crossval outcome y bs n cbs k sb wp fl = Inr (skf, hs, fl')"
  shows "fl' = fl"
proof -
  from train_crossval_Inr[OF assms(2)] obtain cbs' where
    t: "train_folds outcome n [0..<length skf] cbs fl [] = (cbs', fl', hs)"
    by blast
  from train_folds_no_checkpoint[OF assms(1) t] show ?thesis .
qed

lemma callbacks_shipped:
  "callbacks save_best_model = [CustomVerbose 300, EarlyStop (EarlyStopping_patience 50)]"
  by (simp add: callbacks_def save_best_model_def)

text \<open>
  Claim C9. The script sets \<open>save_best_model\<close> to \<open>False\<close>, so the callbacks passed to the
  cross-validation are the progress report and the early stopping only, with no
  checkpoint among them; a training run with them returns the files it was given,
  unchanged, and in particular leaves a checkpoint that already exists at
  \<open>weights_path\<close> as it was.
\<close>

theorem shipped_training_writes_nothing:
  fixes outcome :: "nat \<Rightarrow> nat \<Rightarrow> epoch_logs \<times> 'w"
  shows "save_best_model = False \<and>
   callbacks save_best_model = [CustomVerbose 300, EarlyStop (EarlyStopping_patience 50)] \<and>
   checkpoints_of (callbacks save_best_model) = [] \<and>
   (\<forall>skf hs fl'. training save_best_model outcome y fl = Inr (skf, hs, fl') \<longrightarrow>
      fl' = fl \<and> fl' weights_path = fl weights_path)"
proof (intro conjI allI impI)
  show "save_best_model = False" by (simp add: save_best_model_def)
  show "callbacks save_best_model = [CustomVerbose 300, EarlyStop (EarlyStopping_patience 50)]"
    by (rule callbacks_shipped)
  show c: "checkpoints_of (callbacks save_best_model) = []"
    by (simp add: callbacks_shipped)
  fix skf hs fl'
  assume "training save_best_model outcome y fl = Inr (skf, hs, fl')"
  then have "train_crossval outcome y 32 300 (callbacks save_best_model) 5
      save_best_model weights_path fl = Inr (skf, hs, fl')"
    by (simp add: training_def)
  from train_crossval_no_checkpoint[OF c this] show "fl' = fl" .
  then show "fl' weights_path = fl weights_path" by simp
qed

lemma training_returns:
  assumes "argmax_axis1 y = Inr labels" "StratifiedKFold labels 5 = Inr skf"
  shows "\<exists>hs fl'. training b outcome y fl = Inr (skf, hs, fl')"
proof -
  obtain cbs' fl' hs where "train_folds outcome 300 [0..<length skf] (callbacks b) fl [] = (cbs', fl', hs)"
    by (cases "train_folds outcome 300 [0..<length skf] (callbacks b) fl []")
  then have "training b outcome y fl = Inr (skf, hs, fl')"
    using assms by (simp add: training_def train_crossval_def)
  then show ?thesis by blast
qed

text \<open>A run that starts with a checkpoint file returns with the same file.\<close>

theorem shipped_training_writes_nothing_witness:
  "\<exists>skf hs. training save_best_model every_fold_stalled example_y with_checkpoint
      = Inr (skf, hs, with_checkpoint) \<and>
     with_checkpoint weights_path = Some (WeightsFile ())"
proof -
  have l: "argmax_axis1 example_y = Inr [0, 0, 0, 0, 0, 1, 1, 1, 1, 1]" by code_simp
  have s: "StratifiedKFold [0, 0, 0, 0, 0, 1, 1, 1, 1, 1] 5 =
     Inr [([1, 2, 3, 4, 6, 7, 8, 9], [0, 5]), ([0, 2, 3, 4, 5, 7, 8, 9], [1, 6]),
          ([0, 1, 3, 4, 5, 6, 8, 9], [2, 7]), ([0, 1, 2, 4, 5, 6, 7, 9], [3, 8]),
          ([0, 1, 2, 3, 5, 6, 7, 8], [4, 9])]" by code_simp
  from training_returns[OF l s, of save_best_model every_fold_stalled with_checkpoint]
  obtain skf hs fl' where
    t: "training save_best_model every_fold_stalled example_y with_checkpoint = Inr (skf, hs, fl')"
    by blast
  with shipped_training_writes_nothing[of every_fold_stalled example_y with_checkpoint]
  have "fl' = with_checkpoint" by blast
  with t have "training save_best_model every_fold_stalled example_y with_checkpoint
      = Inr (skf, hs, with_checkpoint)" by simp
  moreover have "with_checkpoint weights_path = Some (WeightsFile ())"
    by (simp add: with_checkpoint_def)
  ultimately show ?thesis by blast
qed

lemma best_from_append: "best_from b (xs @ ys) = best_from (best_from b xs) ys"
  by (induction xs arbitrary: b) simp_all

lemma best_seen_snoc:
  "best_seen (xs @ [x]) =
     (case best_seen xs of None \<Rightarrow> Some x | Some y \<Rightarrow> if fst y < fst x then Some x else Some y)"
  by (simp add: best_seen_def best_from_append)

lemma best_seen_Nil: "best_seen [] = None"
  by (simp add: best_seen_def)

lemma best_seen_first_max:
  "best_seen xs = Some x \<Longrightarrow>
     \<exists>i<length xs. xs ! i = x \<and> (\<forall>j<length xs. fst (xs ! j) \<le> fst x) \<and>
                    (\<forall>j<i. fst (xs ! j) < fst x)"
proof (induction xs arbitrary: x rule: rev_induct)
  case Nil
  then show ?case by (simp add: best_seen_Nil)
next
  case (snoc a xs)
  show ?case
  proof (cases "best_seen xs")
    case None
    have "xs = []"
    proof (rule ccontr)
      assume "xs \<noteq> []"
      then obtain ys y where "xs = ys @ [y]" by (metis rev_exhaust)
      with None show False by (simp add: best_seen_snoc split: option.splits if_splits)
    qed
    with snoc.prems show ?thesis by (simp add: best_seen_def)
  next
    case (Some y)
    from snoc.IH[OF Some] obtain i where i: "i < length xs" "xs ! i = y"
      "\<forall>j<length xs. fst (xs ! j) \<le> fst y" "\<forall>j<i. fst (xs ! j) < fst y" by blast
    show ?thesis
    proof (cases "fst y < fst a")
      case True
      with snoc.prems Some have x: "x = a" by (simp add: best_seen_snoc)
      have "length xs < length (xs @ [a]) \<and> (xs @ [a]) ! length xs = x \<and>
            (\<forall>j<length (xs @ [a]). fst ((xs @ [a]) ! j) \<le> fst x) \<and>
            (\<forall>j<length xs. fst ((xs @ [a]) ! j) < fst x)"
        using i(3) True x by (auto simp: nth_append less_Suc_eq intro: le_less_trans less_imp_le)
      then show ?thesis by blast
    next
      case False
      with snoc.prems Some have x: "x = y" by (simp add: best_seen_snoc)
      have "i < length (xs @ [a]) \<and> (xs @ [a]) ! i = x \<and>
            (\<forall>j<length (xs @ [a]). fst ((xs @ [a]) ! j) \<le> fst x) \<and>
            (\<forall>j<i. fst ((xs @ [a]) ! j) < fst x)"
        using i False x by (auto simp: nth_append less_Suc_eq)
      then show ?thesis by blast
    qed
  qed
qed

lemma checkpoint_tracks_iff:
  "checkpoint_tracks cbs fl0 fl seen =
     (\<exists>mc. checkpoints_of cbs = [mc] \<and> mc_filepath mc = weights_path \<and> mc_monitor mc = ValAcc \<and>
           mc_save_best_only mc \<and> mc_save_weights_only mc \<and>
           mc_best mc = map_option fst (best_seen seen) \<and> fl = checkpointed fl0 seen)"
  by (auto simp: checkpoint_tracks_def split: list.splits)

lemma checkpoint_tracks_callbacks: "checkpoint_tracks (callbacks True) fl fl []"
  by (simp add: checkpoint_tracks_def callbacks_def Let_def best_seen_Nil checkpointed_def)

lemma checkpoint_tracks_step:
  assumes "checkpoint_tracks cbs fl0 (files st) seen"
    and "callbacks_on_epoch_end logs w cbs st = (cbs', st')"
  shows "checkpoint_tracks cbs' fl0 (files st') (seen @ [(val_acc logs, w)])"
proof -
  from assms(1) obtain mc where mc: "checkpoints_of cbs = [mc]" "mc_filepath mc = weights_path"
    "mc_monitor mc = ValAcc" "mc_save_best_only mc" "mc_save_weights_only mc"
    "mc_best mc = map_option fst (best_seen seen)" "files st = checkpointed fl0 seen"
    unfolding checkpoint_tracks_iff by blast
  from callbacks_on_epoch_end_checkpoint[OF assms(2)] mc(1)
  have c: "checkpoints_of cbs' = [mc_step logs mc]" and f: "files st' = mc_write logs w mc (files st)"
    by simp_all
  have conf: "mc_filepath (mc_step logs mc) = weights_path" "mc_monitor (mc_step logs mc) = ValAcc"
    "mc_save_best_only (mc_step logs mc)" "mc_save_weights_only (mc_step logs mc)"
    using mc(2-5) by (simp_all add: mc_step_def)
  have "mc_best (mc_step logs mc) = map_option fst (best_seen (seen @ [(val_acc logs, w)])) \<and>
        mc_write logs w mc (files st) = checkpointed fl0 (seen @ [(val_acc logs, w)])"
  proof (cases "best_seen seen")
    case None
    with mc show ?thesis
      by (simp add: mc_step_def mc_write_def mc_saves_def best_seen_snoc checkpointed_def)
  next
    case (Some y)
    with mc show ?thesis
      by (simp add: mc_step_def mc_write_def mc_saves_def best_seen_snoc checkpointed_def)
  qed
  with c f conf show ?thesis unfolding checkpoint_tracks_iff by simp
qed

lemma epochs_of_Cons:
  "e < n \<Longrightarrow> epochs_of outcome e n
     = (val_acc (fst (outcome e)), snd (outcome e)) # epochs_of outcome (Suc e) n"
  by (simp add: epochs_of_def upt_conv_Cons)

lemma checkpoint_tracks_fit_loop:
  "checkpoint_tracks cbs fl0 (files st) seen \<Longrightarrow> length history = e \<Longrightarrow>
   fit_loop outcome n e cbs st history = (cbs', st', history') \<Longrightarrow>
     e \<le> length history' \<and>
     checkpoint_tracks cbs' fl0 (files st') (seen @ epochs_of outcome e (length history'))"
proof (induction n arbitrary: e cbs st history seen)
  case 0
  then show ?case by (simp add: epochs_of_def)
next
  case (Suc n)
  let ?x = "(val_acc (fst (outcome e)), snd (outcome e))"
  obtain cbs1 st1 where ce:
    "callbacks_on_epoch_end (fst (outcome e)) (snd (outcome e)) cbs st = (cbs1, st1)"
    by (cases "callbacks_on_epoch_end (fst (outcome e)) (snd (outcome e)) cbs st")
  note t1 = checkpoint_tracks_step[OF Suc.prems(1) ce]
  show ?case
  proof (cases "stop_training st1")
    case True
    with Suc.prems(3) ce have r: "cbs' = cbs1" "st' = st1" "history' = history @ [fst (outcome e)]"
      by simp_all
    then have len: "length history' = Suc e" using Suc.prems(2) by simp
    have "epochs_of outcome e (Suc e) = [?x]" by (simp add: epochs_of_def)
    with t1 r len show ?thesis by simp
  next
    case False
    with Suc.prems(3) ce
    have rec: "fit_loop outcome n (Suc e) cbs1 st1 (history @ [fst (outcome e)]) = (cbs', st', history')"
      by simp
    have l1: "length (history @ [fst (outcome e)]) = Suc e" using Suc.prems(2) by simp
    from Suc.IH[OF t1 l1 rec]
    have ih: "Suc e \<le> length history'"
      "checkpoint_tracks cbs' fl0 (files st') ((seen @ [?x]) @ epochs_of outcome (Suc e) (length history'))"
      by simp_all
    from ih(1) have "epochs_of outcome e (length history') = ?x # epochs_of outcome (Suc e) (length history')"
      by (intro epochs_of_Cons) simp
    with ih show ?thesis by simp
  qed
qed

lemma checkpoint_tracks_fit:
  assumes "checkpoint_tracks cbs fl0 fl seen" "fit outcome n cbs fl = (cbs', st', history')"
  shows "checkpoint_tracks cbs' fl0 (files st') (seen @ epochs_of outcome 0 (length history'))"
proof -
  have t0: "checkpoint_tracks (map on_train_begin cbs) fl0
      (files \<lparr>stop_training = False, files = fl\<rparr>) seen"
    using assms(1) unfolding checkpoint_tracks_iff checkpoints_of_on_train_begin by simp
  from assms(2) have l: "fit_loop outcome n 0 (map on_train_begin cbs)
      \<lparr>stop_training = False, files = fl\<rparr> [] = (cbs', st', history')"
    by (simp add: fit_def)
  have "length ([] :: epoch_logs list) = 0" by simp
  from checkpoint_tracks_fit_loop[OF t0 this l] show ?thesis by simp
qed

lemma executed_Cons:
  "executed outcome (f # fs) (h # hs) = epochs_of (outcome f) 0 (length h) @ executed outcome fs hs"
  by (simp add: executed_def)

lemma checkpoint_tracks_train_folds:
  "checkpoint_tracks cbs fl0 fl seen \<Longrightarrow>
   train_folds outcome n fs cbs fl hs0 = (cbs', fl', hs') \<Longrightarrow>
     \<exists>hs. hs' = hs0 @ hs \<and> length hs = length fs \<and>
          checkpoint_tracks cbs' fl0 fl' (seen @ executed outcome fs hs)"
proof (induction fs arbitrary: cbs fl hs0 seen)
  case Nil
  then show ?case by (simp add: executed_def)
next
  case (Cons f fs)
  obtain cbs1 st1 h1 where ft: "fit (outcome f) n cbs fl = (cbs1, st1, h1)"
    by (cases "fit (outcome f) n cbs fl")
  note t1 = checkpoint_tracks_fit[OF Cons.prems(1) ft]
  from Cons.prems(2) ft
  have rec: "train_folds outcome n fs cbs1 (files st1) (hs0 @ [h1]) = (cbs', fl', hs')" by simp
  from Cons.IH[OF t1 rec] obtain hs where hs: "hs' = (hs0 @ [h1]) @ hs" "length hs = length fs"
    "checkpoint_tracks cbs' fl0 fl' ((seen @ epochs_of (outcome f) 0 (length h1)) @ executed outcome fs hs)"
    by blast
  have "hs' = hs0 @ (h1 # hs) \<and> length (h1 # hs) = length (f # fs) \<and>
        checkpoint_tracks cbs' fl0 fl' (seen @ executed outcome (f # fs) (h1 # hs))"
    using hs by (simp add: executed_Cons)
  then show ?case by blast
qed

lemma epochs_run_train_folds:
  "early_configured cbs \<Longrightarrow> train_folds outcome 300 fs cbs fl hs0 = (cbs', fl', hs') \<Longrightarrow>
     \<exists>hs. hs' = hs0 @ hs \<and> length hs = length fs \<and>
          (\<forall>k<length fs. 0 < length (hs ! k) \<and> length (hs ! k) \<le> 300 \<and>
             hs ! k = map (\<lambda>i. fst (outcome (fs ! k) i)) [0..<length (hs ! k)])"
proof (induction fs arbitrary: cbs fl hs0)
  case Nil
  then show ?case by simp
next
  case (Cons f fs)
  obtain cbs1 st1 h1 where ft: "fit (outcome f) 300 cbs fl = (cbs1, st1, h1)"
    by (cases "fit (outcome f) 300 cbs fl")
  have pos: "0 < (300::nat)" by simp
  note e = fit_callbacks_epochs(1,2,3)[OF pos Cons.prems(1), where outcome="outcome f" and fl=fl]
  have h1: "0 < length h1" "length h1 \<le> 300" "h1 = map (\<lambda>i. fst (outcome f i)) [0..<length h1]"
    using e by (simp_all add: epochs_run_def ft)
  have c1: "early_configured cbs1"
    using early_configured_fit[OF Cons.prems(1), of "outcome f" 300 fl] by (simp add: ft)
  from Cons.prems(2) ft
  have rec: "train_folds outcome 300 fs cbs1 (files st1) (hs0 @ [h1]) = (cbs', fl', hs')" by simp
  from Cons.IH[OF c1 rec] obtain hs where hs: "hs' = (hs0 @ [h1]) @ hs" "length hs = length fs"
    "\<forall>k<length fs. 0 < length (hs ! k) \<and> length (hs ! k) \<le> 300 \<and>
             hs ! k = map (\<lambda>i. fst (outcome (fs ! k) i)) [0..<length (hs ! k)]"
    by blast
  have "\<forall>k<length (f # fs). 0 < length ((h1 # hs) ! k) \<and> length ((h1 # hs) ! k) \<le> 300 \<and>
             (h1 # hs) ! k = map (\<lambda>i. fst (outcome ((f # fs) ! k) i)) [0..<length ((h1 # hs) ! k)]"
  proof (intro allI impI)
    fix k assume "k < length (f # fs)"
    then show "0 < length ((h1 # hs) ! k) \<and> length ((h1 # hs) ! k) \<le> 300 \<and>
             (h1 # hs) ! k = map (\<lambda>i. fst (outcome ((f # fs) ! k) i)) [0..<length ((h1 # hs) ! k)]"
      using h1 hs(3) by (cases k) simp_all
  qed
  with hs(1,2) have "hs' = hs0 @ (h1 # hs) \<and> length (h1 # hs) = length (f # fs) \<and>
      (\<forall>k<length (f # fs). 0 < length ((h1 # hs) ! k) \<and> length ((h1 # hs) ! k) \<le> 300 \<and>
             (h1 # hs) ! k = map (\<lambda>i. fst (outcome ((f # fs) ! k) i)) [0..<length ((h1 # hs) ! k)])"
    by simp
  then show ?case by blast
qed

lemma executed_append:
  "length fs = length hs \<Longrightarrow>
     executed outcome (fs @ gs) (hs @ ks) = executed outcome fs hs @ executed outcome gs ks"
  by (simp add: executed_def)

lemma best_seen_nonempty: "xs \<noteq> [] \<Longrightarrow> best_seen xs \<noteq> None"
proof -
  assume "xs \<noteq> []"
  then obtain ys y where "xs = ys @ [y]" by (metis rev_exhaust)
  then show ?thesis by (simp add: best_seen_snoc split: option.splits)
qed

lemma checkpointed_elsewhere: "p \<noteq> weights_path \<Longrightarrow> checkpointed fl xs p = fl p"
  by (simp add: checkpointed_def split: option.splits)

lemma checkpointed_best:
  assumes "xs \<noteq> []"
  shows "\<exists>i<length xs. checkpointed fl xs weights_path = Some (WeightsFile (snd (xs ! i))) \<and>
           (\<forall>j<length xs. fst (xs ! j) \<le> fst (xs ! i)) \<and> (\<forall>j<i. fst (xs ! j) < fst (xs ! i))"
proof -
  from best_seen_nonempty[OF assms] obtain x where x: "best_seen xs = Some x" by blast
  from best_seen_first_max[OF x] obtain i where i: "i < length xs" "xs ! i = x"
    "\<forall>j<length xs. fst (xs ! j) \<le> fst x" "\<forall>j<i. fst (xs ! j) < fst x" by blast
  have "checkpointed fl xs weights_path = Some (WeightsFile (snd (xs ! i)))"
    using x i(2) by (simp add: checkpointed_def)
  with i show ?thesis by blast
qed

lemma executed_nonempty:
  assumes "length hs = length fs" "fs \<noteq> []" "0 < length (hs ! 0)"
  shows "executed outcome fs hs \<noteq> []"
proof -
  from assms obtain f fs' h hs' where "fs = f # fs'" "hs = h # hs'"
    by (cases fs; cases hs) auto
  with assms(3) show ?thesis by (simp add: executed_Cons epochs_of_def)
qed

text \<open>
  Claim C4. With \<open>save_best_model\<close> set, a cross-validation run of five folds that
  starts from the files \<open>fl\<close> ends with these files: every path but \<open>weights_path\<close> is
  as it was, so the run has one checkpoint file; and \<open>weights_path\<close> holds the weights
  of the first epoch, in the order the epochs ran fold after fold, whose validation
  accuracy is the highest of all epochs run. The same holds at every point of the run:
  after any number of whole folds and any number of epochs of the next fold, the files
  are the starting files with the best epoch so far at \<open>weights_path\<close>.
\<close>

theorem checkpoint_is_best_epoch:
  fixes outcome :: "nat \<Rightarrow> nat \<Rightarrow> epoch_logs \<times> 'w"
  assumes "training True outcome y fl = Inr (skf, hs, fl')"
  shows "length hs = 5 \<and>
     (\<forall>f<5. 0 < length (hs ! f) \<and> length (hs ! f) \<le> 300 \<and>
            hs ! f = map (\<lambda>i. fst (outcome f i)) [0..<length (hs ! f)]) \<and>
     fl' = checkpointed fl (executed outcome [0..<5] hs) \<and>
     (\<forall>p. p \<noteq> weights_path \<longrightarrow> fl' p = fl p) \<and>
     (\<exists>i<length (executed outcome [0..<5] hs).
        fl' weights_path = Some (WeightsFile (snd (executed outcome [0..<5] hs ! i))) \<and>
        (\<forall>j<length (executed outcome [0..<5] hs).
           fst (executed outcome [0..<5] hs ! j) \<le> fst (executed outcome [0..<5] hs ! i)) \<and>
        (\<forall>j<i. fst (executed outcome [0..<5] hs ! j) < fst (executed outcome [0..<5] hs ! i))) \<and>
     (\<forall>f n cbs1 fl1 hs1 cbs2 st2 h2.
        train_folds outcome 300 [0..<f] (callbacks True) fl [] = (cbs1, fl1, hs1) \<longrightarrow>
        fit (outcome f) n cbs1 fl1 = (cbs2, st2, h2) \<longrightarrow>
          files st2 = checkpointed fl (executed outcome [0..<Suc f] (hs1 @ [h2])) \<and>
          (\<forall>p. p \<noteq> weights_path \<longrightarrow> files st2 p = fl p))"
proof -
  from assms have tc: "train_crossval outcome y 32 300 (callbacks True) 5 True weights_path fl
      = Inr (skf, hs, fl')"
    by (simp add: training_def)
  from train_crossval_Inr[OF tc] obtain labels cbs' where
    s: "StratifiedKFold labels 5 = Inr skf"
    and t: "train_folds outcome 300 [0..<length skf] (callbacks True) fl [] = (cbs', fl', hs)"
    by blast
  have len: "length skf = 5" using s by (rule StratifiedKFold_length)
  from t len have t5: "train_folds outcome 300 [0..<5] (callbacks True) fl [] = (cbs', fl', hs)"
    by simp
  from checkpoint_tracks_train_folds[OF checkpoint_tracks_callbacks t5]
  have l5: "length hs = 5" and tr: "checkpoint_tracks cbs' fl fl' (executed outcome [0..<5] hs)"
    by auto
  from epochs_run_train_folds[OF early_configured_callbacks t5]
  have hist: "\<forall>k<5. 0 < length (hs ! k) \<and> length (hs ! k) \<le> 300 \<and>
             hs ! k = map (\<lambda>i. fst (outcome ([0..<5] ! k) i)) [0..<length (hs ! k)]"
    by auto
  have hist': "\<forall>f<5. 0 < length (hs ! f) \<and> length (hs ! f) \<le> 300 \<and>
            hs ! f = map (\<lambda>i. fst (outcome f i)) [0..<length (hs ! f)]"
  proof (intro allI impI)
    fix f :: nat assume f: "f < 5"
    then have "[0..<5] ! f = f" by simp
    moreover from hist f have "0 < length (hs ! f) \<and> length (hs ! f) \<le> 300 \<and>
            hs ! f = map (\<lambda>i. fst (outcome ([0..<5] ! f) i)) [0..<length (hs ! f)]"
      by blast
    ultimately show "0 < length (hs ! f) \<and> length (hs ! f) \<le> 300 \<and>
            hs ! f = map (\<lambda>i. fst (outcome f i)) [0..<length (hs ! f)]"
      by simp
  qed
  have fl': "fl' = checkpointed fl (executed outcome [0..<5] hs)"
    using tr unfolding checkpoint_tracks_iff by (elim exE conjE)
  have other: "\<forall>p. p \<noteq> weights_path \<longrightarrow> fl' p = fl p"
    unfolding fl' by (simp add: checkpointed_elsewhere)
  have ne: "executed outcome [0..<5] hs \<noteq> []"
    using l5 hist' by (intro executed_nonempty) simp_all
  have best: "\<exists>i<length (executed outcome [0..<5] hs).
        fl' weights_path = Some (WeightsFile (snd (executed outcome [0..<5] hs ! i))) \<and>
        (\<forall>j<length (executed outcome [0..<5] hs).
           fst (executed outcome [0..<5] hs ! j) \<le> fst (executed outcome [0..<5] hs ! i)) \<and>
        (\<forall>j<i. fst (executed outcome [0..<5] hs ! j) < fst (executed outcome [0..<5] hs ! i))"
    unfolding fl' using checkpointed_best[OF ne] .
  have every: "\<forall>f n cbs1 fl1 hs1 cbs2 st2 h2.
        train_folds outcome 300 [0..<f] (callbacks True) fl [] = (cbs1, fl1, hs1) \<longrightarrow>
        fit (outcome f) n cbs1 fl1 = (cbs2, st2, h2) \<longrightarrow>
          files st2 = checkpointed fl (executed outcome [0..<Suc f] (hs1 @ [h2])) \<and>
          (\<forall>p. p \<noteq> weights_path \<longrightarrow> files st2 p = fl p)"
  proof (intro allI impI)
    fix f n cbs1 fl1 hs1 cbs2 and st2 :: "'w fit_state" and h2
    assume a: "train_folds outcome 300 [0..<f] (callbacks True) fl [] = (cbs1, fl1, hs1)"
      and b: "fit (outcome f) n cbs1 fl1 = (cbs2, st2, h2)"
    from checkpoint_tracks_train_folds[OF checkpoint_tracks_callbacks a]
    have l1: "length hs1 = f" and t1: "checkpoint_tracks cbs1 fl fl1 (executed outcome [0..<f] hs1)"
      by auto
    from checkpoint_tracks_fit[OF t1 b]
    have t2: "checkpoint_tracks cbs2 fl (files st2)
        (executed outcome [0..<f] hs1 @ epochs_of (outcome f) 0 (length h2))" .
    have "executed outcome ([0..<f] @ [f]) (hs1 @ [h2])
        = executed outcome [0..<f] hs1 @ executed outcome [f] [h2]"
      using l1 by (intro executed_append) simp
    then have ex: "executed outcome [0..<Suc f] (hs1 @ [h2])
        = executed outcome [0..<f] hs1 @ epochs_of (outcome f) 0 (length h2)"
      by (simp add: executed_def)
    from t2 have "files st2 = checkpointed fl
        (executed outcome [0..<f] hs1 @ epochs_of (outcome f) 0 (length h2))"
      unfolding checkpoint_tracks_iff by (elim exE conjE)
    then have e: "files st2 = checkpointed fl (executed outcome [0..<Suc f] (hs1 @ [h2]))"
      unfolding ex .
    then show "files st2 = checkpointed fl (executed outcome [0..<Suc f] (hs1 @ [h2])) \<and>
          (\<forall>p. p \<noteq> weights_path \<longrightarrow> files st2 p = fl p)"
      by (simp add: checkpointed_elsewhere)
  qed
  show ?thesis using l5 hist' fl' other best every by (intro conjI)
qed

text \<open>
  A run on the ten example samples, starting without files: it returns, and the
  checkpoint it leaves is that of the best epoch.
\<close>

theorem checkpoint_is_best_epoch_witness:
  "\<exists>skf hs fl'. training True every_fold_stalled example_y no_files = Inr (skf, hs, fl') \<and>
     length hs = 5 \<and>
     fl' = checkpointed no_files (executed every_fold_stalled [0..<5] hs) \<and>
     (\<exists>i<length (executed every_fold_stalled [0..<5] hs).
        fl' weights_path = Some (WeightsFile (snd (executed every_fold_stalled [0..<5] hs ! i))))"
proof -
  have l: "argmax_axis1 example_y = Inr [0, 0, 0, 0, 0, 1, 1, 1, 1, 1]" by code_simp
  have s: "StratifiedKFold [0, 0, 0, 0, 0, 1, 1, 1, 1, 1] 5 =
     Inr [([1, 2, 3, 4, 6, 7, 8, 9], [0, 5]), ([0, 2, 3, 4, 5, 7, 8, 9], [1, 6]),
          ([0, 1, 3, 4, 5, 6, 8, 9], [2, 7]), ([0, 1, 2, 4, 5, 6, 7, 9], [3, 8]),
          ([0, 1, 2, 3, 5, 6, 7, 8], [4, 9])]" by code_simp
  from training_returns[OF l s, of True every_fold_stalled no_files]
  obtain skf hs fl' where
    t: "training True every_fold_stalled example_y no_files = Inr (skf, hs, fl')"
    by blast
  note c = checkpoint_is_best_epoch[OF t]
  from c have 1: "length hs = 5" by (elim conjE)
  from c have 2: "fl' = checkpointed no_files (executed every_fold_stalled [0..<5] hs)"
    by (elim conjE)
  from c have "\<exists>i<length (executed every_fold_stalled [0..<5] hs).
        fl' weights_path = Some (WeightsFile (snd (executed every_fold_stalled [0..<5] hs ! i))) \<and>
        (\<forall>j<length (executed every_fold_stalled [0..<5] hs).
           fst (executed every_fold_stalled [0..<5] hs ! j)
             \<le> fst (executed every_fold_stalled [0..<5] hs ! i)) \<and>
        (\<forall>j<i. fst (executed every_fold_stalled [0..<5] hs ! j)
             < fst (executed every_fold_stalled [0..<5] hs ! i))"
    by (elim conjE)
  then obtain i where "i < length (executed every_fold_stalled [0..<5] hs)"
    "fl' weights_path = Some (WeightsFile (snd (executed every_fold_stalled [0..<5] hs ! i)))"
    by blast
  then have 3: "\<exists>i<length (executed every_fold_stalled [0..<5] hs).
        fl' weights_path = Some (WeightsFile (snd (executed every_fold_stalled [0..<5] hs ! i)))"
    by blast
  from t 1 2 3 show ?thesis by blast
qed

lemma load_samples_cases:
  "load_samples fs ex =
     (if vgg_features_path fs \<noteq> None \<and> sift_features_path fs \<noteq> None
      then (case y_data_path fs of
              None \<Rightarrow> ((case frames_path fs of None \<Rightarrow> [ExtractFrames] | Some f \<Rightarrow> []),
                        Inl (MissingArtifact ''y_data_path''))
            | Some y \<Rightarrow> ((case frames_path fs of None \<Rightarrow> [ExtractFrames] | Some f \<Rightarrow> []) @ [LoadLabels],
                        Inr (None, y)))
      else ((case frames_path fs of None \<Rightarrow> [ExtractFrames] | Some f \<Rightarrow> []) @ [ExtractData],
            Inr (Some (fst (extract_data ex (frames_of fs ex))),
                 snd (extract_data ex (frames_of fs ex)))))"
  by (auto simp: load_samples_def frames_of_def Let_def split: option.splits prod.splits)

lemmas load_unfold = load_data_def load_samples_cases load_features_def

lemma load_frames:
  "(frames_path fs \<noteq> None \<longrightarrow> ExtractFrames \<notin> set (fst (load_data fs ex))) \<and>
   (frames_path fs = None \<longrightarrow> ExtractFrames \<in> set (fst (load_data fs ex)))"
  by (auto simp: load_unfold split: option.splits sum.splits)

lemma load_vgg_present:
  assumes "vgg_features_path fs \<noteq> None"
  shows "ExtractVGGFeatures \<notin> set (fst (load_data fs ex))"
    and "\<not> (sift_features_path fs \<noteq> None \<and> y_data_path fs = None) \<Longrightarrow>
           LoadVGGFeatures \<in> set (fst (load_data fs ex))"
    and "snd (load_data fs ex) = Inr (y, vgg, sift, fused) \<Longrightarrow> vgg_features_path fs = Some vgg"
  using assms
  by (auto simp: load_unfold split: option.splits sum.splits if_splits)

lemma load_vgg_absent:
  assumes "vgg_features_path fs = None"
  shows "ExtractVGGFeatures \<in> set (fst (load_data fs ex))"
    and "LoadVGGFeatures \<notin> set (fst (load_data fs ex))"
    and "snd (load_data fs ex) = Inr (y, vgg, sift, fused) \<Longrightarrow>
           vgg = extract_model_features ex (fst (extract_data ex (frames_of fs ex)))"
  using assms
  by (auto simp: load_unfold split: option.splits sum.splits if_splits)

lemma load_sift_present:
  assumes "sift_features_path fs \<noteq> None"
  shows "ExtractSIFTFeatures \<notin> set (fst (load_data fs ex))"
    and "\<not> (vgg_features_path fs \<noteq> None \<and> y_data_path fs = None) \<Longrightarrow>
           LoadSIFTFeatures \<in> set (fst (load_data fs ex))"
    and "snd (load_data fs ex) = Inr (y, vgg, sift, fused) \<Longrightarrow> sift_features_path fs = Some sift"
  using assms
  by (auto simp: load_unfold split: option.splits sum.splits if_splits)

lemma load_sift_absent:
  assumes "sift_features_path fs = None"
  shows "ExtractSIFTFeatures \<in> set (fst (load_data fs ex))"
    and "LoadSIFTFeatures \<notin> set (fst (load_data fs ex))"
    and "snd (load_data fs ex) = Inr (y, vgg, sift, fused) \<Longrightarrow>
           sift = extract_all_sift_features ex (fst (extract_data ex (frames_of fs ex)))"
  using assms
  by (auto simp: load_unfold split: option.splits sum.splits if_splits)

lemma load_labels_missing:
  assumes "vgg_features_path fs \<noteq> None" "sift_features_path fs \<noteq> None" "y_data_path fs = None"
  shows "load_data fs ex =
           ((case frames_path fs of None \<Rightarrow> [ExtractFrames] | Some f \<Rightarrow> []),
            Inl (MissingArtifact ''y_data_path''))"
  using assms by (simp add: load_unfold)

lemma load_labels_cached:
  assumes "vgg_features_path fs \<noteq> None" "sift_features_path fs \<noteq> None"
  shows "ExtractData \<notin> set (fst (load_data fs ex))"
    and "snd (load_data fs ex) = Inr (y, vgg, sift, fused) \<Longrightarrow>
           y_data_path fs = Some y \<and> LoadLabels \<in> set (fst (load_data fs ex))"
  using assms
  by (auto simp: load_unfold split: option.splits sum.splits if_splits)

lemma load_labels_extracted:
  assumes "\<not> (vgg_features_path fs \<noteq> None \<and> sift_features_path fs \<noteq> None)"
  shows "ExtractData \<in> set (fst (load_data fs ex))"
    and "LoadLabels \<notin> set (fst (load_data fs ex))"
    and "snd (load_data fs ex) = Inr (y, vgg, sift, fused) \<Longrightarrow>
           y = snd (extract_data ex (frames_of fs ex))"
  using assms
  by (auto simp: load_unfold split: option.splits sum.splits if_splits)

lemma load_errors:
  assumes "snd (load_data fs ex) = Inl e"
  shows "(e = MissingArtifact ''y_data_path'' \<and> vgg_features_path fs \<noteq> None \<and>
            sift_features_path fs \<noteq> None \<and> y_data_path fs = None) \<or>
         e = ShapeMismatch"
  using assms
  by (auto simp: load_unfold vgg_sift_features_def concatenate_axis2_def
      split: option.splits sum.splits if_splits prod.splits)

lemma load_fused:
  "snd (load_data fs ex) = Inr (y, vgg, sift, fused) \<Longrightarrow> vgg_sift_features vgg sift = Inr fused"
  by (auto simp: load_unfold split: option.splits sum.splits if_splits)

lemma load_no_classifier_step:
  "TrainCrossval \<notin> set (fst (load_data fs ex))" "LoadModel \<notin> set (fst (load_data fs ex))"
  by (auto simp: load_unfold split: option.splits sum.splits if_splits)

lemma training_Inl:
  assumes "training b outcome y fl = Inl e"
  shows "e = EmptyArgmax \<or> e = InvalidFoldCount"
proof (cases "argmax_axis1 y")
  case (Inl e')
  with assms have "e = e'" by (simp add: training_def train_crossval_def)
  with Inl argmax_axis1_Inl show ?thesis by blast
next
  case labels: (Inr labels)
  show ?thesis
  proof (cases "StratifiedKFold labels 5")
    case (Inl e')
    with assms labels have "e = e'" by (simp add: training_def train_crossval_def)
    with Inl show ?thesis by (auto simp: StratifiedKFold_def split: if_splits)
  next
    case (Inr skf)
    with assms labels show ?thesis
      by (simp add: training_def train_crossval_def split: prod.splits)
  qed
qed

lemma obtain_classifier_train:
  "fst (obtain_classifier True fs outcome y fl) = [TrainCrossval]"
  "snd (obtain_classifier True fs outcome y fl) = Inl e
     \<longleftrightarrow> training save_best_model outcome y fl = Inl e"
  "snd (obtain_classifier True fs outcome y fl) = Inr m
     \<longleftrightarrow> m = Trained \<and> (\<exists>t. training save_best_model outcome y fl = Inr t)"
  by (cases "training save_best_model outcome y fl"; auto simp: obtain_classifier_def)+

lemma obtain_classifier_test:
  "vgg_sift_lstm_model_path fs = None \<Longrightarrow>
     obtain_classifier False fs outcome y fl = ([], Inl (MissingArtifact ''vgg_sift_lstm_model_path''))"
  "vgg_sift_lstm_model_path fs = Some c \<Longrightarrow>
     obtain_classifier False fs outcome y fl = ([LoadModel], Inr (Loaded c))"
  by (simp_all add: obtain_classifier_def)

lemma obtain_classifier_steps:
  "set (fst (obtain_classifier train fs outcome y fl)) \<subseteq> {TrainCrossval, LoadModel}"
  "TrainCrossval \<in> set (fst (obtain_classifier train fs outcome y fl)) \<Longrightarrow> train"
  "LoadModel \<in> set (fst (obtain_classifier train fs outcome y fl)) \<Longrightarrow> \<not> train"
  by (cases "training save_best_model outcome y fl";
      auto simp: obtain_classifier_def split: option.splits if_splits)+

text \<open>The run in terms of its two stages.\<close>

lemma main_load_fails:
  "snd (load_data fs ex) = Inl e \<Longrightarrow> main train fs ex outcome fl = (fst (load_data fs ex), Inl e)"
  by (cases "load_data fs ex") (simp add: main_def)

lemma main_load_succeeds:
  assumes "snd (load_data fs ex) = Inr (y, vgg, sift, fused)"
  shows "fst (main train fs ex outcome fl)
           = fst (load_data fs ex) @ fst (obtain_classifier train fs outcome y fl)"
    and "snd (main train fs ex outcome fl)
           = (case snd (obtain_classifier train fs outcome y fl) of
                Inl e \<Rightarrow> Inl e
              | Inr m \<Rightarrow> Inr \<lparr>run_y = y, run_vgg_features = vgg, run_sift_features = sift,
                              run_vgg_sift_features = fused, run_lstm_sift = m\<rparr>)"
  using assms
  by (cases "load_data fs ex"; cases "obtain_classifier train fs outcome y fl";
      simp add: main_def split: sum.splits)+

lemma main_loading_steps:
  assumes "x \<noteq> TrainCrossval" "x \<noteq> LoadModel"
  shows "x \<in> set (fst (main train fs ex outcome fl)) \<longleftrightarrow> x \<in> set (fst (load_data fs ex))"
proof (cases "snd (load_data fs ex)")
  case (Inl e)
  then show ?thesis by (simp add: main_load_fails)
next
  case (Inr r)
  obtain y vgg sift fused where r: "r = (y, vgg, sift, fused)" by (cases r)
  with Inr have "snd (load_data fs ex) = Inr (y, vgg, sift, fused)" by simp
  from main_load_succeeds(1)[OF this]
  have "fst (main train fs ex outcome fl)
      = fst (load_data fs ex) @ fst (obtain_classifier train fs outcome y fl)" .
  moreover have "x \<notin> set (fst (obtain_classifier train fs outcome y fl))"
    using obtain_classifier_steps(1)[of train fs outcome y fl] assms by auto
  ultimately show ?thesis by simp
qed

lemma main_Inr:
  assumes "snd (main train fs ex outcome fl) = Inr r"
  shows "snd (load_data fs ex)
           = Inr (run_y r, run_vgg_features r, run_sift_features r, run_vgg_sift_features r)"
    and "snd (obtain_classifier train fs outcome (run_y r) fl) = Inr (run_lstm_sift r)"
    and "fst (main train fs ex outcome fl)
           = fst (load_data fs ex) @ fst (obtain_classifier train fs outcome (run_y r) fl)"
proof -
  obtain y vgg sift fused where l: "snd (load_data fs ex) = Inr (y, vgg, sift, fused)"
  proof (cases "snd (load_data fs ex)")
    case (Inl e)
    with assms show ?thesis by (simp add: main_load_fails)
  next
    case (Inr q)
    then show ?thesis using that by (cases q) simp
  qed
  note m = main_load_succeeds[OF l, of train outcome fl]
  from assms m(2) obtain c where c: "snd (obtain_classifier train fs outcome y fl) = Inr c"
    and r: "r = \<lparr>run_y = y, run_vgg_features = vgg, run_sift_features = sift,
                  run_vgg_sift_features = fused, run_lstm_sift = c\<rparr>"
    by (cases "snd (obtain_classifier train fs outcome y fl)") simp_all
  show "snd (load_data fs ex)
           = Inr (run_y r, run_vgg_features r, run_sift_features r, run_vgg_sift_features r)"
    using l r by simp
  show "snd (obtain_classifier train fs outcome (run_y r) fl) = Inr (run_lstm_sift r)"
    using c r by simp
  show "fst (main train fs ex outcome fl)
           = fst (load_data fs ex) @ fst (obtain_classifier train fs outcome (run_y r) fl)"
    using m(1) r by simp
qed

lemma main_Inl:
  assumes "snd (main train fs ex outcome fl) = Inl e"
  shows "snd (load_data fs ex) = Inl e \<or>
         (\<exists>y vgg sift fused. snd (load_data fs ex) = Inr (y, vgg, sift, fused) \<and>
            snd (obtain_classifier train fs outcome y fl) = Inl e)"
proof (cases "snd (load_data fs ex)")
  case (Inl e')
  with assms show ?thesis by (simp add: main_load_fails)
next
  case (Inr q)
  obtain y vgg sift fused where q: "q = (y, vgg, sift, fused)" by (cases q)
  with Inr have l: "snd (load_data fs ex) = Inr (y, vgg, sift, fused)" by simp
  from assms main_load_succeeds(2)[OF l, of train outcome fl]
  have "snd (obtain_classifier train fs outcome y fl) = Inl e"
    by (cases "snd (obtain_classifier train fs outcome y fl)") simp_all
  with l show ?thesis by blast
qed

text \<open>
  Claim C8, as the script has it. For the frames, the VGG features and the SIFT
  features: a cached artifact is never extracted again, and a cached feature file is
  the one the run uses; a missing artifact is extracted from the raw samples, and its
  absence is never the reason a run fails. The labels come from the raw samples unless
  both feature files are cached; then they are read from \<open>y_data_path\<close>, and when that
  file is missing the run fails at once, before any feature is loaded. The persisted
  classifier has no fallback: training happens only on the \<^verbatim>\<open>train\<close> argument, and then
  the classifier file is not read; without the argument the file is read, and when it
  is missing the run fails and nothing is trained. With extraction functions that
  return, a run fails only on the missing labels file, on a shape mismatch of the two
  feature arrays, on the missing classifier file, or, when training, on a failure of
  the cross-validation.
\<close>

theorem artifact_loading:
  fixes outcome :: "nat \<Rightarrow> nat \<Rightarrow> epoch_logs \<times> 'w"
  shows
  "(frames_path fs \<noteq> None \<longrightarrow> ExtractFrames \<notin> set (fst (main train fs ex outcome fl))) \<and>
   (frames_path fs = None \<longrightarrow> ExtractFrames \<in> set (fst (main train fs ex outcome fl))) \<and>
   (vgg_features_path fs \<noteq> None \<longrightarrow>
      ExtractVGGFeatures \<notin> set (fst (main train fs ex outcome fl)) \<and>
      (\<not> (sift_features_path fs \<noteq> None \<and> y_data_path fs = None) \<longrightarrow>
         LoadVGGFeatures \<in> set (fst (main train fs ex outcome fl))) \<and>
      (\<forall>r. snd (main train fs ex outcome fl) = Inr r \<longrightarrow> vgg_features_path fs = Some (run_vgg_features r))) \<and>
   (vgg_features_path fs = None \<longrightarrow>
      ExtractVGGFeatures \<in> set (fst (main train fs ex outcome fl)) \<and>
      LoadVGGFeatures \<notin> set (fst (main train fs ex outcome fl)) \<and>
      (\<forall>r. snd (main train fs ex outcome fl) = Inr r \<longrightarrow>
         run_vgg_features r = extract_model_features ex (fst (extract_data ex (frames_of fs ex))))) \<and>
   (sift_features_path fs \<noteq> None \<longrightarrow>
      ExtractSIFTFeatures \<notin> set (fst (main train fs ex outcome fl)) \<and>
      (\<not> (vgg_features_path fs \<noteq> None \<and> y_data_path fs = None) \<longrightarrow>
         LoadSIFTFeatures \<in> set (fst (main train fs ex outcome fl))) \<and>
      (\<forall>r. snd (main train fs ex outcome fl) = Inr r \<longrightarrow> sift_features_path fs = Some (run_sift_features r))) \<and>
   (sift_features_path fs = None \<longrightarrow>
      ExtractSIFTFeatures \<in> set (fst (main train fs ex outcome fl)) \<and>
      LoadSIFTFeatures \<notin> set (fst (main train fs ex outcome fl)) \<and>
      (\<forall>r. snd (main train fs ex outcome fl) = Inr r \<longrightarrow>
         run_sift_features r
           = extract_all_sift_features ex (fst (extract_data ex (frames_of fs ex))))) \<and>
   (vgg_features_path fs \<noteq> None \<and> sift_features_path fs \<noteq> None \<and> y_data_path fs = None \<longrightarrow>
      snd (main train fs ex outcome fl) = Inl (MissingArtifact ''y_data_path'') \<and>
      LoadVGGFeatures \<notin> set (fst (main train fs ex outcome fl)) \<and>
      LoadSIFTFeatures \<notin> set (fst (main train fs ex outcome fl)) \<and>
      TrainCrossval \<notin> set (fst (main train fs ex outcome fl)) \<and>
      LoadModel \<notin> set (fst (main train fs ex outcome fl))) \<and>
   (vgg_features_path fs \<noteq> None \<and> sift_features_path fs \<noteq> None \<longrightarrow>
      ExtractData \<notin> set (fst (main train fs ex outcome fl)) \<and>
      (\<forall>r. snd (main train fs ex outcome fl) = Inr r \<longrightarrow>
         y_data_path fs = Some (run_y r) \<and> LoadLabels \<in> set (fst (main train fs ex outcome fl)))) \<and>
   (\<not> (vgg_features_path fs \<noteq> None \<and> sift_features_path fs \<noteq> None) \<longrightarrow>
      ExtractData \<in> set (fst (main train fs ex outcome fl)) \<and>
      LoadLabels \<notin> set (fst (main train fs ex outcome fl)) \<and>
      (\<forall>r. snd (main train fs ex outcome fl) = Inr r \<longrightarrow> run_y r = snd (extract_data ex (frames_of fs ex)))) \<and>
   (\<forall>r. snd (main train fs ex outcome fl) = Inr r \<longrightarrow>
      vgg_sift_features (run_vgg_features r) (run_sift_features r) = Inr (run_vgg_sift_features r)) \<and>
   (\<forall>e. snd (main train fs ex outcome fl) = Inl e \<longrightarrow>
      (e = MissingArtifact ''y_data_path'' \<and> vgg_features_path fs \<noteq> None \<and>
         sift_features_path fs \<noteq> None \<and> y_data_path fs = None) \<or>
      e = ShapeMismatch \<or>
      (e = MissingArtifact ''vgg_sift_lstm_model_path'' \<and> \<not> train \<and>
         vgg_sift_lstm_model_path fs = None) \<or>
      (train \<and> (e = EmptyArgmax \<or> e = InvalidFoldCount) \<and>
         (\<exists>y. training save_best_model outcome y fl = Inl e) \<and>
         TrainCrossval \<in> set (fst (main train fs ex outcome fl)))) \<and>
   (TrainCrossval \<in> set (fst (main train fs ex outcome fl)) \<longrightarrow> train) \<and>
   (LoadModel \<in> set (fst (main train fs ex outcome fl)) \<longrightarrow> \<not> train) \<and>
   (\<forall>r. snd (main train fs ex outcome fl) = Inr r \<longrightarrow>
      (train \<longrightarrow> run_lstm_sift r = Trained \<and> TrainCrossval \<in> set (fst (main train fs ex outcome fl)) \<and>
         (\<exists>t. training save_best_model outcome (run_y r) fl = Inr t)) \<and>
      (\<not> train \<longrightarrow> vgg_sift_lstm_model_path fs \<noteq> None \<and>
         map_option Loaded (vgg_sift_lstm_model_path fs) = Some (run_lstm_sift r) \<and>
         LoadModel \<in> set (fst (main train fs ex outcome fl)))) \<and>
   (\<not> train \<and> vgg_sift_lstm_model_path fs = None \<longrightarrow>
      (\<forall>r. snd (main train fs ex outcome fl) \<noteq> Inr r) \<and> TrainCrossval \<notin> set (fst (main train fs ex outcome fl)))"
proof -
  have frames_present: "frames_path fs \<noteq> None \<longrightarrow> ExtractFrames \<notin> set (fst (main train fs ex outcome fl))"
    using load_frames[of fs ex] by (simp add: main_loading_steps)
  have frames_absent: "frames_path fs = None \<longrightarrow> ExtractFrames \<in> set (fst (main train fs ex outcome fl))"
    using load_frames[of fs ex] by (simp add: main_loading_steps)
  have vgg_present: "vgg_features_path fs \<noteq> None \<longrightarrow>
      ExtractVGGFeatures \<notin> set (fst (main train fs ex outcome fl)) \<and>
      (\<not> (sift_features_path fs \<noteq> None \<and> y_data_path fs = None) \<longrightarrow>
         LoadVGGFeatures \<in> set (fst (main train fs ex outcome fl))) \<and>
      (\<forall>r. snd (main train fs ex outcome fl) = Inr r \<longrightarrow> vgg_features_path fs = Some (run_vgg_features r))"
    using load_vgg_present[of fs ex] main_Inr(1)[of train fs ex outcome fl]
    by (auto simp: main_loading_steps)
  have vgg_absent: "vgg_features_path fs = None \<longrightarrow>
      ExtractVGGFeatures \<in> set (fst (main train fs ex outcome fl)) \<and>
      LoadVGGFeatures \<notin> set (fst (main train fs ex outcome fl)) \<and>
      (\<forall>r. snd (main train fs ex outcome fl) = Inr r \<longrightarrow>
         run_vgg_features r = extract_model_features ex (fst (extract_data ex (frames_of fs ex))))"
    using load_vgg_absent[of fs ex] main_Inr(1)[of train fs ex outcome fl]
    by (auto simp: main_loading_steps)
  have sift_present: "sift_features_path fs \<noteq> None \<longrightarrow>
      ExtractSIFTFeatures \<notin> set (fst (main train fs ex outcome fl)) \<and>
      (\<not> (vgg_features_path fs \<noteq> None \<and> y_data_path fs = None) \<longrightarrow>
         LoadSIFTFeatures \<in> set (fst (main train fs ex outcome fl))) \<and>
      (\<forall>r. snd (main train fs ex outcome fl) = Inr r \<longrightarrow> sift_features_path fs = Some (run_sift_features r))"
    using load_sift_present[of fs ex] main_Inr(1)[of train fs ex outcome fl]
    by (auto simp: main_loading_steps)
  have sift_absent: "sift_features_path fs = None \<longrightarrow>
      ExtractSIFTFeatures \<in> set (fst (main train fs ex outcome fl)) \<and>
      LoadSIFTFeatures \<notin> set (fst (main train fs ex outcome fl)) \<and>
      (\<forall>r. snd (main train fs ex outcome fl) = Inr r \<longrightarrow>
         run_sift_features r
           = extract_all_sift_features ex (fst (extract_data ex (frames_of fs ex))))"
    using load_sift_absent[of fs ex] main_Inr(1)[of train fs ex outcome fl]
    by (auto simp: main_loading_steps)
  have labels_missing: "vgg_features_path fs \<noteq> None \<and> sift_features_path fs \<noteq> None \<and> y_data_path fs = None \<longrightarrow>
      snd (main train fs ex outcome fl) = Inl (MissingArtifact ''y_data_path'') \<and>
      LoadVGGFeatures \<notin> set (fst (main train fs ex outcome fl)) \<and>
      LoadSIFTFeatures \<notin> set (fst (main train fs ex outcome fl)) \<and>
      TrainCrossval \<notin> set (fst (main train fs ex outcome fl)) \<and>
      LoadModel \<notin> set (fst (main train fs ex outcome fl))"
    proof
    assume a: "vgg_features_path fs \<noteq> None \<and> sift_features_path fs \<noteq> None \<and> y_data_path fs = None"
    then have l: "load_data fs ex =
           ((case frames_path fs of None \<Rightarrow> [ExtractFrames] | Some f \<Rightarrow> []),
            Inl (MissingArtifact ''y_data_path''))"
      by (intro load_labels_missing) simp_all
    then have "snd (load_data fs ex) = Inl (MissingArtifact ''y_data_path'')" by simp
    from main_load_fails[OF this, of train outcome fl] l
    have "main train fs ex outcome fl =
           ((case frames_path fs of None \<Rightarrow> [ExtractFrames] | Some f \<Rightarrow> []),
            Inl (MissingArtifact ''y_data_path''))"
      by simp
    then show "snd (main train fs ex outcome fl) = Inl (MissingArtifact ''y_data_path'') \<and>
      LoadVGGFeatures \<notin> set (fst (main train fs ex outcome fl)) \<and>
      LoadSIFTFeatures \<notin> set (fst (main train fs ex outcome fl)) \<and>
      TrainCrossval \<notin> set (fst (main train fs ex outcome fl)) \<and>
      LoadModel \<notin> set (fst (main train fs ex outcome fl))"
      by (simp split: option.splits)
  qed
  have labels_cached: "vgg_features_path fs \<noteq> None \<and> sift_features_path fs \<noteq> None \<longrightarrow>
      ExtractData \<notin> set (fst (main train fs ex outcome fl)) \<and>
      (\<forall>r. snd (main train fs ex outcome fl) = Inr r \<longrightarrow>
         y_data_path fs = Some (run_y r) \<and> LoadLabels \<in> set (fst (main train fs ex outcome fl)))"
    using load_labels_cached[of fs ex] main_Inr(1)[of train fs ex outcome fl]
    by (auto simp: main_loading_steps)
  have labels_extracted: "\<not> (vgg_features_path fs \<noteq> None \<and> sift_features_path fs \<noteq> None) \<longrightarrow>
      ExtractData \<in> set (fst (main train fs ex outcome fl)) \<and>
      LoadLabels \<notin> set (fst (main train fs ex outcome fl)) \<and>
      (\<forall>r. snd (main train fs ex outcome fl) = Inr r \<longrightarrow> run_y r = snd (extract_data ex (frames_of fs ex)))"
    using load_labels_extracted[of fs ex] main_Inr(1)[of train fs ex outcome fl]
    by (auto simp: main_loading_steps)
  have fused: "\<forall>r. snd (main train fs ex outcome fl) = Inr r \<longrightarrow>
      vgg_sift_features (run_vgg_features r) (run_sift_features r) = Inr (run_vgg_sift_features r)"
    using main_Inr(1)[of train fs ex outcome fl] load_fused[of fs ex] by blast
  have errors: "\<forall>e. snd (main train fs ex outcome fl) = Inl e \<longrightarrow>
      (e = MissingArtifact ''y_data_path'' \<and> vgg_features_path fs \<noteq> None \<and>
         sift_features_path fs \<noteq> None \<and> y_data_path fs = None) \<or>
      e = ShapeMismatch \<or>
      (e = MissingArtifact ''vgg_sift_lstm_model_path'' \<and> \<not> train \<and>
         vgg_sift_lstm_model_path fs = None) \<or>
      (train \<and> (e = EmptyArgmax \<or> e = InvalidFoldCount) \<and>
         (\<exists>y. training save_best_model outcome y fl = Inl e) \<and>
         TrainCrossval \<in> set (fst (main train fs ex outcome fl)))"
    proof (intro allI impI)
    fix e assume e: "snd (main train fs ex outcome fl) = Inl e"
    from main_Inl[OF e] consider "snd (load_data fs ex) = Inl e"
      | y vgg sift fused where "snd (load_data fs ex) = Inr (y, vgg, sift, fused)"
          "snd (obtain_classifier train fs outcome y fl) = Inl e"
      by blast
    then show "(e = MissingArtifact ''y_data_path'' \<and> vgg_features_path fs \<noteq> None \<and>
         sift_features_path fs \<noteq> None \<and> y_data_path fs = None) \<or>
      e = ShapeMismatch \<or>
      (e = MissingArtifact ''vgg_sift_lstm_model_path'' \<and> \<not> train \<and>
         vgg_sift_lstm_model_path fs = None) \<or>
      (train \<and> (e = EmptyArgmax \<or> e = InvalidFoldCount) \<and>
         (\<exists>y. training save_best_model outcome y fl = Inl e) \<and>
         TrainCrossval \<in> set (fst (main train fs ex outcome fl)))"
    proof cases
      case 1
      from load_errors[OF 1] show ?thesis by blast
    next
      case 2
      show ?thesis
      proof (cases train)
        case True
        with 2(2) have t: "training save_best_model outcome y fl = Inl e"
          by (simp add: obtain_classifier_train)
        have "TrainCrossval \<in> set (fst (main train fs ex outcome fl))"
          using main_load_succeeds(1)[OF 2(1), of train outcome fl] True
          by (simp add: obtain_classifier_train)
        with True t training_Inl[OF t] show ?thesis by blast
      next
        case False
        with 2(2) show ?thesis
          by (cases "vgg_sift_lstm_model_path fs") (simp_all add: obtain_classifier_test)
      qed
    qed
  qed
  have train_only: "TrainCrossval \<in> set (fst (main train fs ex outcome fl)) \<longrightarrow> train"
    proof
    assume t: "TrainCrossval \<in> set (fst (main train fs ex outcome fl))"
    show train
    proof (cases "snd (load_data fs ex)")
      case (Inl e)
      with t load_no_classifier_step(1)[of fs ex] show ?thesis by (simp add: main_load_fails)
    next
      case (Inr q)
      obtain y vgg sift fused where "q = (y, vgg, sift, fused)" by (cases q)
      with Inr have "snd (load_data fs ex) = Inr (y, vgg, sift, fused)" by simp
      from main_load_succeeds(1)[OF this, of train outcome fl] t load_no_classifier_step(1)[of fs ex]
      have "TrainCrossval \<in> set (fst (obtain_classifier train fs outcome y fl))" by simp
      then show ?thesis by (rule obtain_classifier_steps(2))
    qed
  qed
  have load_only: "LoadModel \<in> set (fst (main train fs ex outcome fl)) \<longrightarrow> \<not> train"
    proof
    assume t: "LoadModel \<in> set (fst (main train fs ex outcome fl))"
    show "\<not> train"
    proof (cases "snd (load_data fs ex)")
      case (Inl e)
      with t load_no_classifier_step(2)[of fs ex] show ?thesis by (simp add: main_load_fails)
    next
      case (Inr q)
      obtain y vgg sift fused where "q = (y, vgg, sift, fused)" by (cases q)
      with Inr have "snd (load_data fs ex) = Inr (y, vgg, sift, fused)" by simp
      from main_load_succeeds(1)[OF this, of train outcome fl] t load_no_classifier_step(2)[of fs ex]
      have "LoadModel \<in> set (fst (obtain_classifier train fs outcome y fl))" by simp
      then show ?thesis by (rule obtain_classifier_steps(3))
    qed
  qed
  have result: "\<forall>r. snd (main train fs ex outcome fl) = Inr r \<longrightarrow>
      (train \<longrightarrow> run_lstm_sift r = Trained \<and> TrainCrossval \<in> set (fst (main train fs ex outcome fl)) \<and>
         (\<exists>t. training save_best_model outcome (run_y r) fl = Inr t)) \<and>
      (\<not> train \<longrightarrow> vgg_sift_lstm_model_path fs \<noteq> None \<and>
         map_option Loaded (vgg_sift_lstm_model_path fs) = Some (run_lstm_sift r) \<and>
         LoadModel \<in> set (fst (main train fs ex outcome fl)))"
    proof (intro allI impI conjI)
    fix r assume r: "snd (main train fs ex outcome fl) = Inr r"
    note m = main_Inr[OF r]
    { assume train
      with m(2) show "run_lstm_sift r = Trained"
        and "\<exists>t. training save_best_model outcome (run_y r) fl = Inr t"
        by (simp_all add: obtain_classifier_train)
      from \<open>train\<close> m(3) show "TrainCrossval \<in> set (fst (main train fs ex outcome fl))"
        by (simp add: obtain_classifier_train) }
    { assume nt: "\<not> train"
      show ne: "vgg_sift_lstm_model_path fs \<noteq> None"
      proof
        assume "vgg_sift_lstm_model_path fs = None"
        with nt m(2) show False by (simp add: obtain_classifier_test)
      qed
      then obtain c where c: "vgg_sift_lstm_model_path fs = Some c" by blast
      with nt m(2) show "map_option Loaded (vgg_sift_lstm_model_path fs) = Some (run_lstm_sift r)"
        by (simp add: obtain_classifier_test)
      from nt c m(3) show "LoadModel \<in> set (fst (main train fs ex outcome fl))"
        by (simp add: obtain_classifier_test) }
  qed
  have no_fallback: "\<not> train \<and> vgg_sift_lstm_model_path fs = None \<longrightarrow>
      (\<forall>r. snd (main train fs ex outcome fl) \<noteq> Inr r) \<and> TrainCrossval \<notin> set (fst (main train fs ex outcome fl))"
    proof (intro impI conjI allI)
    assume a: "\<not> train \<and> vgg_sift_lstm_model_path fs = None"
    show "snd (main train fs ex outcome fl) \<noteq> Inr r" for r
    proof
      assume "snd (main train fs ex outcome fl) = Inr r"
      from main_Inr(2)[OF this] a show False by (simp add: obtain_classifier_test)
    qed
    from train_only a show "TrainCrossval \<notin> set (fst (main train fs ex outcome fl))" by blast
  qed
  show ?thesis
    using frames_present frames_absent vgg_present vgg_absent sift_present sift_absent labels_missing labels_cached labels_extracted fused errors train_only load_only result no_fallback
    by (intro conjI)
qed

text \<open>
  With nothing cached but the classifier, everything is extracted; with everything
  cached, nothing is extracted and the cached arrays and labels are the ones used;
  with both feature files cached and no labels file, the run fails on the labels.
\<close>

theorem artifact_loading_witness:
  "ExtractFrames \<in> set (fst (main False raw_only example_extractors every_fold_stalled no_files)) \<and>
   ExtractData \<in> set (fst (main False raw_only example_extractors every_fold_stalled no_files)) \<and>
   ExtractVGGFeatures \<in> set (fst (main False raw_only example_extractors every_fold_stalled no_files)) \<and>
   ExtractSIFTFeatures \<in> set (fst (main False raw_only example_extractors every_fold_stalled no_files)) \<and>
   (\<exists>r. snd (main False raw_only example_extractors every_fold_stalled no_files) = Inr r \<and>
        run_vgg_features r = extract_model_features example_extractors
           (fst (extract_data example_extractors (frames_of raw_only example_extractors))) \<and>
        run_y r = snd (extract_data example_extractors (frames_of raw_only example_extractors))) \<and>
   ExtractFrames \<notin> set (fst (main False all_cached example_extractors every_fold_stalled no_files)) \<and>
   ExtractData \<notin> set (fst (main False all_cached example_extractors every_fold_stalled no_files)) \<and>
   ExtractVGGFeatures \<notin> set (fst (main False all_cached example_extractors every_fold_stalled no_files)) \<and>
   LoadVGGFeatures \<in> set (fst (main False all_cached example_extractors every_fold_stalled no_files)) \<and>
   ExtractSIFTFeatures \<notin> set (fst (main False all_cached example_extractors every_fold_stalled no_files)) \<and>
   LoadSIFTFeatures \<in> set (fst (main False all_cached example_extractors every_fold_stalled no_files)) \<and>
   (\<exists>r. snd (main False all_cached example_extractors every_fold_stalled no_files) = Inr r \<and>
        vgg_features_path all_cached = Some (run_vgg_features r) \<and>
        y_data_path all_cached = Some (run_y r)) \<and>
   snd (main False cached_without_labels example_extractors every_fold_stalled no_files)
     = Inl (MissingArtifact ''y_data_path'')"
proof -
  have r: "frames_path raw_only = None" "vgg_features_path raw_only = None"
    "sift_features_path raw_only = None"
    by (simp_all add: raw_only_def)
  have c: "frames_path all_cached \<noteq> None" "vgg_features_path all_cached \<noteq> None"
    "sift_features_path all_cached \<noteq> None" "y_data_path all_cached \<noteq> None"
    by (simp_all add: all_cached_def)
  have l: "vgg_features_path cached_without_labels \<noteq> None"
    "sift_features_path cached_without_labels \<noteq> None" "y_data_path cached_without_labels = None"
    by (simp_all add: cached_without_labels_def)
  have ok1: "\<exists>r. snd (main False all_cached example_extractors every_fold_stalled no_files) = Inr r"
    by (simp add: main_def load_unfold obtain_classifier_def all_cached_def example_extractors_def
        zeros_def vgg_sift_features_def concatenate_axis2_def)
  have ok2: "\<exists>r. snd (main False raw_only example_extractors every_fold_stalled no_files) = Inr r"
    by (simp add: main_def load_unfold obtain_classifier_def raw_only_def example_extractors_def
        zeros_def unit_features_def unit_samples_def vgg_sift_features_def concatenate_axis2_def)
  note t1 = artifact_loading[where fs=raw_only and train=False and ex=example_extractors
      and outcome=every_fold_stalled and fl=no_files]
  note t2 = artifact_loading[where fs=all_cached and train=False and ex=example_extractors
      and outcome=every_fold_stalled and fl=no_files]
  note t3 = artifact_loading[where fs=cached_without_labels and train=False
      and ex=example_extractors and outcome=every_fold_stalled and fl=no_files]
  from t1 r have a1: "ExtractFrames \<in> set (fst (main False raw_only example_extractors every_fold_stalled no_files))"
    and a2: "ExtractData \<in> set (fst (main False raw_only example_extractors every_fold_stalled no_files))"
    and a3: "ExtractVGGFeatures \<in> set (fst (main False raw_only example_extractors every_fold_stalled no_files))"
    and a4: "ExtractSIFTFeatures \<in> set (fst (main False raw_only example_extractors every_fold_stalled no_files))"
    and a5: "\<forall>r. snd (main False raw_only example_extractors every_fold_stalled no_files) = Inr r \<longrightarrow>
        run_vgg_features r = extract_model_features example_extractors
           (fst (extract_data example_extractors (frames_of raw_only example_extractors)))"
    and a6: "\<forall>r. snd (main False raw_only example_extractors every_fold_stalled no_files) = Inr r \<longrightarrow>
        run_y r = snd (extract_data example_extractors (frames_of raw_only example_extractors))"
    by simp_all
  from t2 c have b1: "ExtractFrames \<notin> set (fst (main False all_cached example_extractors every_fold_stalled no_files))"
    and b2: "ExtractData \<notin> set (fst (main False all_cached example_extractors every_fold_stalled no_files))"
    and b3: "ExtractVGGFeatures \<notin> set (fst (main False all_cached example_extractors every_fold_stalled no_files))"
    and b4: "LoadVGGFeatures \<in> set (fst (main False all_cached example_extractors every_fold_stalled no_files))"
    and b5: "ExtractSIFTFeatures \<notin> set (fst (main False all_cached example_extractors every_fold_stalled no_files))"
    and b6: "LoadSIFTFeatures \<in> set (fst (main False all_cached example_extractors every_fold_stalled no_files))"
    and b7: "\<forall>r. snd (main False all_cached example_extractors every_fold_stalled no_files) = Inr r \<longrightarrow>
        vgg_features_path all_cached = Some (run_vgg_features r)"
    and b8: "\<forall>r. snd (main False all_cached example_extractors every_fold_stalled no_files) = Inr r \<longrightarrow>
        y_data_path all_cached = Some (run_y r)"
    by simp_all
  from t3 l have c1: "snd (main False cached_without_labels example_extractors every_fold_stalled no_files)
     = Inl (MissingArtifact ''y_data_path'')"
    by simp
  from ok2 a5 a6 have a7: "\<exists>r. snd (main False raw_only example_extractors every_fold_stalled no_files) = Inr r \<and>
        run_vgg_features r = extract_model_features example_extractors
           (fst (extract_data example_extractors (frames_of raw_only example_extractors))) \<and>
        run_y r = snd (extract_data example_extractors (frames_of raw_only example_extractors))"
    by blast
  from ok1 b7 b8 have b9: "\<exists>r. snd (main False all_cached example_extractors every_fold_stalled no_files) = Inr r \<and>
        vgg_features_path all_cached = Some (run_vgg_features r) \<and>
        y_data_path all_cached = Some (run_y r)"
    by blast
  show ?thesis using a1 a2 a3 a4 a7 b1 b2 b3 b4 b5 b6 b9 c1 by (intro conjI)
qed

text \<open>
  With every other artifact cached and no \<^verbatim>\<open>train\<close> argument, a missing classifier file
  ends the run with the missing-file error after the three loads; nothing is trained.
\<close>

theorem artifact_fallback_counterexample:
  "vgg_sift_lstm_model_path cached_without_model = None \<and>
   main False cached_without_model example_extractors every_fold_stalled no_files =
     ([LoadLabels, LoadVGGFeatures, LoadSIFTFeatures],
      Inl (MissingArtifact ''vgg_sift_lstm_model_path''))"
  by (simp add: main_def load_unfold obtain_classifier_def cached_without_model_def
      example_extractors_def zeros_def vgg_sift_features_def concatenate_axis2_def)

end
